(* ===== verification/Prelude.thy ===== *)
theory Prelude
  imports Main "HOL-Library.Char_ord" "HOL-Library.List_Lexorder" "HOL-Library.AList"
    "HOL-Library.Word" "HOL-Library.Sublist"
begin

text \<open>
  Shared ground of the development: the collections of rewrite rules the component theories
  extend, the error values of the program, Go's 64-bit integer arithmetic, and the generic
  lemmas on lists and association lists that the components use.

  Strings are Go strings, that is byte sequences; \<open>string\<close> is a list of 8-bit characters.
  The orders of \<open>HOL-Library.Char_ord\<close> and \<open>HOL-Library.List_Lexorder\<close> make the library's
  \<open>sort\<close> the bytewise \<^verbatim>\<open>sort.Strings\<close>.
\<close>

named_theorems go_defs \<open>unfolding rules of the small wrappers around the standard library\<close>
named_theorems fs_simps \<open>how the file operations act on the node stored at a path\<close>
named_theorems frame_simps \<open>which files an operation leaves alone\<close>

section \<open>Characters\<close>

abbreviation NL :: char where "NL \<equiv> CHR 0x0A"
abbreviation CR :: char where "CR \<equiv> CHR 0x0D"
abbreviation TAB :: char where "TAB \<equiv> CHR 0x09"
abbreviation DQ :: char where "DQ \<equiv> CHR 0x22"

section \<open>Errors as values\<close>

text \<open>
  The errors a system call can report and the errors the program builds from them.
  \<open>PathError\<close> is \<^verbatim>\<open>os.PathError\<close>, \<open>Errorf m e\<close> is \<^verbatim>\<open>fmt.Errorf("<m>: %w", e)\<close>, \<open>CmdError\<close> the
  error of a failed external command and \<open>ErrText\<close> any other error, by its text.
\<close>

datatype errno = ENOENT | ENOTDIR | EISDIR | EACCES | EPERM | EINVAL | ENOSPC | EROFS | EIO | EEXIST

datatype goerror =
    PathError string string errno
  | Errorf string goerror
  | ErrText string
  | CmdError string

fun errnoText :: "errno \<Rightarrow> string" where
  "errnoText ENOENT = ''no such file or directory''"
| "errnoText ENOTDIR = ''not a directory''"
| "errnoText EISDIR = ''is a directory''"
| "errnoText EACCES = ''permission denied''"
| "errnoText EPERM = ''operation not permitted''"
| "errnoText EINVAL = ''invalid argument''"
| "errnoText ENOSPC = ''no space left on device''"
| "errnoText EROFS = ''read-only file system''"
| "errnoText EIO = ''input/output error''"
| "errnoText EEXIST = ''file exists''"

fun errText :: "goerror \<Rightarrow> string" where
  "errText (PathError op p e) = op @ '' '' @ p @ '': '' @ errnoText e"
| "errText (Errorf m e) = m @ '': '' @ errText e"
| "errText (ErrText m) = m"
| "errText (CmdError m) = m"

text \<open>
  \<^verbatim>\<open>os.IsNotExist\<close> looks at the error itself and does not unwrap what \<^verbatim>\<open>fmt.Errorf\<close> wrapped.
\<close>

fun os_IsNotExist :: "goerror \<Rightarrow> bool" where
  "os_IsNotExist (PathError op p e) = (e = ENOENT)"
| "os_IsNotExist (Errorf m e) = False"
| "os_IsNotExist (ErrText m) = False"
| "os_IsNotExist (CmdError m) = False"

section \<open>64-bit integers\<close>

text \<open>
  Go's \<^verbatim>\<open>int\<close> and \<^verbatim>\<open>int64\<close> are two's complement 64-bit numbers on the supported platforms.
  They are integers here, with the wrap-around written out by \<open>i64\<close> where a result can leave
  the range. Go's integer division truncates towards zero.
\<close>

definition i64 :: "int \<Rightarrow> int" where
  "i64 x = (x + 2 ^ 63) mod 2 ^ 64 - 2 ^ 63"

definition in_i64 :: "int \<Rightarrow> bool" where
  "in_i64 x \<longleftrightarrow> - (2 ^ 63) \<le> x \<and> x < 2 ^ 63"

definition go_quot :: "int \<Rightarrow> int \<Rightarrow> int" where
  "go_quot a b = sgn a * sgn b * (\<bar>a\<bar> div \<bar>b\<bar>)"

lemma i64_range: "in_i64 (i64 x)"
proof -
  have "0 \<le> (x + 2 ^ 63) mod 2 ^ 64" "(x + 2 ^ 63) mod 2 ^ 64 < 2 ^ 64"
    by simp_all
  then show ?thesis
    by (simp add: in_i64_def i64_def)
qed

lemma i64_id [simp]: "in_i64 x \<Longrightarrow> i64 x = x"
  by (simp add: in_i64_def i64_def)

lemma i64_is_sint: "i64 x = sint (word_of_int x :: 64 word)"
  by (simp add: i64_def sint_uint signed_take_bit_eq_take_bit_shift take_bit_eq_mod
    uint_word_of_int mod_simps)

lemma go_quot_nonneg: "0 \<le> a \<Longrightarrow> 0 < b \<Longrightarrow> go_quot a b = a div b"
  by (cases "a = 0") (simp_all add: go_quot_def)

section \<open>Lists and association lists\<close>

lemma sorted_list_of_distinct_eq:
  fixes xs :: "'a::linorder list"
  assumes "sorted xs" "distinct xs" "sorted ys" "distinct ys" "set xs = set ys"
  shows "xs = ys"
  using assms by (simp add: sorted_distinct_set_unique)

lemma map_of_update [simp]: "map_of (AList.update k v al) = (map_of al)(k \<mapsto> v)"
  by (rule update_conv')

lemma map_of_delete_fun [simp]: "map_of (AList.delete k al) = (map_of al)(k := None)"
  by (rule delete_conv')

lemma filter_empty_iff: "filter P xs = [] \<longleftrightarrow> (\<forall>x \<in> set xs. \<not> P x)"
  by (induction xs) auto

lemma butlast_last_append: "xs \<noteq> [] \<Longrightarrow> butlast xs @ [last xs] = xs"
  by simp

end
