(* ===== verification/Go_Strings.thy ===== *)
theory Go_Strings
  imports Prelude
begin

text \<open>
  The functions of Go's \<^verbatim>\<open>strings\<close>, \<^verbatim>\<open>strconv\<close>, \<^verbatim>\<open>fmt\<close> and \<^verbatim>\<open>bufio\<close> packages that the program
  calls, on byte strings, with the laws the components rely on: splitting and joining are
  inverse, white-space splitting ignores surrounding white space, decimal and hexadecimal
  printing and parsing are inverse.

  White space is Unicode white space in UTF-8. No byte of a multi-byte white-space rune is the
  first byte of another one, so walking over a string byte by byte and looking for the encodings
  finds the same runes as Go's decoder, on invalid UTF-8 too.
\<close>

section \<open>White space\<close>

definition ascii_ws :: "char \<Rightarrow> bool" where
  "ascii_ws c \<longleftrightarrow> c = CHR '' '' \<or> c = TAB \<or> c = NL \<or> c = CHR 0x0B \<or> c = CHR 0x0C \<or> c = CR"

definition ws2 :: "char \<Rightarrow> char \<Rightarrow> bool" where
  "ws2 a b \<longleftrightarrow> a = CHR 0xC2 \<and> (b = CHR 0x85 \<or> b = CHR 0xA0)"

definition ws3 :: "char \<Rightarrow> char \<Rightarrow> char \<Rightarrow> bool" where
  "ws3 a b c \<longleftrightarrow>
     a = CHR 0xE1 \<and> b = CHR 0x9A \<and> c = CHR 0x80 \<or>
     a = CHR 0xE2 \<and> b = CHR 0x80 \<and>
       (c \<in> {CHR 0x80, CHR 0x81, CHR 0x82, CHR 0x83, CHR 0x84, CHR 0x85, CHR 0x86, CHR 0x87,
             CHR 0x88, CHR 0x89, CHR 0x8A, CHR 0xA8, CHR 0xA9, CHR 0xAF}) \<or>
     a = CHR 0xE2 \<and> b = CHR 0x81 \<and> c = CHR 0x9F \<or>
     a = CHR 0xE3 \<and> b = CHR 0x80 \<and> c = CHR 0x80"

text \<open>The length of the white-space rune at the front of a string, 0 if there is none.\<close>

fun ws_len :: "string \<Rightarrow> nat" where
  "ws_len [] = 0"
| "ws_len (a # s) =
     (if ascii_ws a then 1
      else (case s of [] \<Rightarrow> 0
            | b # t \<Rightarrow> if ws2 a b then 2
                       else (case t of [] \<Rightarrow> 0 | c # _ \<Rightarrow> if ws3 a b c then 3 else 0)))"

text \<open>The same for the rune at the end of a string, which is given reversed.\<close>

fun ws_rlen :: "string \<Rightarrow> nat" where
  "ws_rlen [] = 0"
| "ws_rlen (c # s) =
     (if ascii_ws c then 1
      else (case s of [] \<Rightarrow> 0
            | b # t \<Rightarrow> if ws2 b c then 2
                       else (case t of [] \<Rightarrow> 0 | a # _ \<Rightarrow> if ws3 a b c then 3 else 0)))"

function trimL :: "string \<Rightarrow> string" where
  "trimL s = (if ws_len s = 0 then s else trimL (drop (ws_len s) s))"
  by pat_completeness auto
termination
proof (relation "measure length")
  fix s :: string
  assume "ws_len s \<noteq> 0"
  then have "s \<noteq> []" by auto
  with \<open>ws_len s \<noteq> 0\<close> show "(drop (ws_len s) s, s) \<in> measure length" by simp
qed simp

function trimR :: "string \<Rightarrow> string" where
  "trimR s = (if ws_rlen s = 0 then s else trimR (drop (ws_rlen s) s))"
  by pat_completeness auto
termination
proof (relation "measure length")
  fix s :: string
  assume "ws_rlen s \<noteq> 0"
  then have "s \<noteq> []" by auto
  with \<open>ws_rlen s \<noteq> 0\<close> show "(drop (ws_rlen s) s, s) \<in> measure length" by simp
qed simp

declare trimL.simps [simp del] trimR.simps [simp del]

definition strings_TrimSpace :: "string \<Rightarrow> string" where
  "strings_TrimSpace s = rev (trimR (rev (trimL s)))"

fun fields_aux :: "string \<Rightarrow> string \<Rightarrow> string list" where
  "fields_aux cur [] = (if cur = [] then [] else [rev cur])"
| "fields_aux cur (c # s) =
     (case ws_len (c # s) of
        0 \<Rightarrow> fields_aux (c # cur) s
      | Suc n \<Rightarrow> (if cur = [] then [] else [rev cur]) @ fields_aux [] (drop n s))"

definition strings_Fields :: "string \<Rightarrow> string list" where
  "strings_Fields s = fields_aux [] s"

section \<open>Splitting, joining, prefixes\<close>

fun splitOn :: "char \<Rightarrow> string \<Rightarrow> string list" where
  "splitOn c [] = [[]]"
| "splitOn c (x # xs) =
     (if x = c then [] # splitOn c xs
      else (case splitOn c xs of [] \<Rightarrow> [[x]] | w # ws \<Rightarrow> (x # w) # ws))"

fun strings_Join :: "string list \<Rightarrow> string \<Rightarrow> string" where
  "strings_Join [] sep = []"
| "strings_Join [w] sep = w"
| "strings_Join (w # v # ws) sep = w @ sep @ strings_Join (v # ws) sep"

definition strings_HasPrefix :: "string \<Rightarrow> string \<Rightarrow> bool" where
  "strings_HasPrefix s p \<longleftrightarrow> take (length p) s = p"

definition strings_HasSuffix :: "string \<Rightarrow> string \<Rightarrow> bool" where
  "strings_HasSuffix s p \<longleftrightarrow> take (length p) (rev s) = rev p"

definition strings_TrimSuffix :: "string \<Rightarrow> string \<Rightarrow> string" where
  "strings_TrimSuffix s p = (if strings_HasSuffix s p then take (length s - length p) s else s)"

text \<open>\<^verbatim>\<open>strings.Trim(s, cutset)\<close> for a cutset of ASCII characters.\<close>

definition strings_Trim :: "string \<Rightarrow> string \<Rightarrow> string" where
  "strings_Trim s cutset =
     rev (dropWhile (\<lambda>c. c \<in> set cutset) (rev (dropWhile (\<lambda>c. c \<in> set cutset) s)))"

text \<open>\<^verbatim>\<open>strings.Cut\<close> at the first occurrence of a one-byte separator: \<open>None\<close> if there is none.\<close>

fun strings_Cut :: "string \<Rightarrow> char \<Rightarrow> (string \<times> string) option" where
  "strings_Cut [] c = None"
| "strings_Cut (x # xs) c =
     (if x = c then Some ([], xs)
      else (case strings_Cut xs c of None \<Rightarrow> None | Some (a, b) \<Rightarrow> Some (x # a, b)))"

text \<open>
  \<^verbatim>\<open>strings.ReplaceAll\<close> with a non-empty \<open>old\<close> string, replacing non-overlapping occurrences from
  the left. The program never passes an empty \<open>old\<close>.
\<close>

function strings_ReplaceAll :: "string \<Rightarrow> string \<Rightarrow> string \<Rightarrow> string" where
  "strings_ReplaceAll s old new =
     (if s = [] \<or> old = [] then s
      else if strings_HasPrefix s old then new @ strings_ReplaceAll (drop (length old) s) old new
      else hd s # strings_ReplaceAll (tl s) old new)"
  by pat_completeness auto
termination
  by (relation "measure (\<lambda>(s, old, new). length s)") auto

declare strings_ReplaceAll.simps [simp del]

section \<open>Line scanning\<close>

text \<open>
  \<^verbatim>\<open>bufio.Scanner\<close> with \<^verbatim>\<open>bufio.ScanLines\<close>: lines end at a newline, one carriage return before it
  is dropped, a last line without newline counts, and a line that does not fit the 64 KiB buffer
  stops the scan with \<^verbatim>\<open>bufio.ErrTooLong\<close>. The flag of the result is that error.
\<close>

definition maxScanTokenSize :: int where
  "maxScanTokenSize = 65536"

definition dropCR :: "string \<Rightarrow> string" where
  "dropCR l = (if l \<noteq> [] \<and> last l = CR then butlast l else l)"

fun scan_tokens :: "string list \<Rightarrow> string list \<times> bool" where
  "scan_tokens [] = ([], False)"
| "scan_tokens (l # ls) =
     (if maxScanTokenSize \<le> int (length l) then ([], True)
      else (let (ts, e) = scan_tokens ls in (dropCR l # ts, e)))"

definition scanLines :: "string \<Rightarrow> string list \<times> bool" where
  "scanLines s =
     (let ls = splitOn NL s in scan_tokens (if last ls = [] then butlast ls else ls))"

section \<open>Numbers\<close>

definition dig :: "nat \<Rightarrow> char" where
  "dig d = (if d < 10 then char_of (48 + d) else char_of (87 + d))"

fun nat_str :: "nat \<Rightarrow> string" where
  "nat_str n = (if n < 10 then [dig n] else nat_str (n div 10) @ [dig (n mod 10)])"

declare nat_str.simps [simp del]

text \<open>\<^verbatim>\<open>strconv.Itoa\<close> and the \<^verbatim>\<open>%d\<close> verb.\<close>

definition strconv_Itoa :: "int \<Rightarrow> string" where
  "strconv_Itoa i = (if i < 0 then CHR ''-'' # nat_str (nat (- i)) else nat_str (nat i))"

definition dec_val :: "char \<Rightarrow> nat option" where
  "dec_val c = (let k = of_char c in if 48 \<le> k \<and> k \<le> (57::nat) then Some (k - 48) else None)"

definition hex_val :: "char \<Rightarrow> nat option" where
  "hex_val c =
     (let k = of_char c :: nat in
      if 48 \<le> k \<and> k \<le> 57 then Some (k - 48)
      else if 97 \<le> k \<and> k \<le> 102 then Some (k - 87)
      else if 65 \<le> k \<and> k \<le> 70 then Some (k - 55) else None)"

fun parse_digits :: "(char \<Rightarrow> nat option) \<Rightarrow> nat \<Rightarrow> nat \<Rightarrow> string \<Rightarrow> nat option" where
  "parse_digits val base acc [] = Some acc"
| "parse_digits val base acc (c # cs) =
     (case val c of None \<Rightarrow> None | Some d \<Rightarrow> parse_digits val base (acc * base + d) cs)"

text \<open>
  \<^verbatim>\<open>strconv.Atoi\<close>, which accepts what \<^verbatim>\<open>strconv.ParseInt(s, 10, 64)\<close> accepts: an optional sign and
  decimal digits, in the 64-bit range. \<open>None\<close> is the error.
\<close>

definition strconv_Atoi :: "string \<Rightarrow> int option" where
  "strconv_Atoi s =
     (let neg = (s \<noteq> [] \<and> hd s = CHR ''-'');
          ds = (if s \<noteq> [] \<and> (hd s = CHR ''-'' \<or> hd s = CHR ''+'') then tl s else s)
      in if ds = [] then None
         else (case parse_digits dec_val 10 0 ds of
                 None \<Rightarrow> None
               | Some n \<Rightarrow>
                   (let v = (if neg then - int n else int n)
                    in if in_i64 v then Some v else None)))"

text \<open>\<^verbatim>\<open>strconv.ParseUint(s, 16, 32)\<close>.\<close>

definition strconv_ParseUint16_32 :: "string \<Rightarrow> nat option" where
  "strconv_ParseUint16_32 s =
     (if s = [] then None
      else (case parse_digits hex_val 16 0 s of
              None \<Rightarrow> None
            | Some n \<Rightarrow> if int n < 2 ^ 32 then Some n else None))"

text \<open>The \<^verbatim>\<open>%08x\<close> verb on a \<^verbatim>\<open>uint32\<close>.\<close>

fun hex_digits :: "nat \<Rightarrow> nat \<Rightarrow> string" where
  "hex_digits 0 n = []"
| "hex_digits (Suc k) n = hex_digits k (n div 16) @ [dig (n mod 16)]"

definition fmt_08x :: "32 word \<Rightarrow> string" where
  "fmt_08x w = hex_digits 8 (unat w)"

text \<open>The \<^verbatim>\<open>%-<n>s\<close> verb: pad on the right with spaces.\<close>

definition fmt_padRight :: "nat \<Rightarrow> string \<Rightarrow> string" where
  "fmt_padRight n s = s @ replicate (n - length s) (CHR '' '')"

text \<open>
  The \<^verbatim>\<open>%q\<close> verb. Bytes from 0x80 on are copied, which is what Go does for printable characters.
\<close>

definition quote_char :: "char \<Rightarrow> string" where
  "quote_char c =
     (if c = DQ then [CHR 0x5C, DQ] else if c = CHR 0x5C then [CHR 0x5C, CHR 0x5C]
      else if c = CHR 0x07 then [CHR 0x5C, CHR ''a''] else if c = CHR 0x08 then [CHR 0x5C, CHR ''b'']
      else if c = CHR 0x0C then [CHR 0x5C, CHR ''f''] else if c = NL then [CHR 0x5C, CHR ''n'']
      else if c = CR then [CHR 0x5C, CHR ''r''] else if c = TAB then [CHR 0x5C, CHR ''t'']
      else if c = CHR 0x0B then [CHR 0x5C, CHR ''v'']
      else if of_char c < (32::nat) \<or> of_char c = (127::nat)
           then [CHR 0x5C, CHR ''x''] @ hex_digits 2 (of_char c) else [c])"

definition fmt_q :: "string \<Rightarrow> string" where
  "fmt_q s = [DQ] @ concat (map quote_char s) @ [DQ]"

definition fmt_t :: "bool \<Rightarrow> string" where
  "fmt_t b = (if b then ''true'' else ''false'')"

section \<open>Laws of splitting and joining\<close>

lemma splitOn_neq_Nil [simp]: "splitOn c s \<noteq> []"
  by (induction s) (auto split: list.splits)

lemma splitOn_no_sep: "w \<in> set (splitOn c s) \<Longrightarrow> c \<notin> set w"
proof (induction s arbitrary: w)
  case (Cons x xs)
  then show ?case
    by (cases "splitOn c xs") (auto split: if_splits)
qed simp

lemma splitOn_elem_subset: "w \<in> set (splitOn c s) \<Longrightarrow> set w \<subseteq> set s"
proof (induction s arbitrary: w)
  case (Cons x xs)
  show ?case
  proof (cases "splitOn c xs")
    case (Cons v vs)
    with Cons.prems Cons.IH[of v] Cons.IH[of w] show ?thesis
      by (auto split: if_splits)
  qed simp
qed simp

lemma splitOn_noop [simp]: "c \<notin> set s \<Longrightarrow> splitOn c s = [s]"
  by (induction s) auto

lemma splitOn_append: "c \<notin> set u \<Longrightarrow> splitOn c (u @ c # v) = u # splitOn c v"
  by (induction u) auto

lemma strings_Join_Cons: "ws \<noteq> [] \<Longrightarrow> strings_Join (w # ws) sep = w @ sep @ strings_Join ws sep"
  by (cases ws) auto

lemma splitOn_Join: "ws \<noteq> [] \<Longrightarrow> \<forall>w \<in> set ws. c \<notin> set w \<Longrightarrow> splitOn c (strings_Join ws [c]) = ws"
proof (induction ws)
  case (Cons w ws)
  then show ?case
    by (cases ws) (simp_all add: splitOn_append)
qed simp

lemma Join_splitOn [simp]: "strings_Join (splitOn c s) [c] = s"
proof (induction s)
  case (Cons x xs)
  show ?case
  proof (cases "splitOn c xs")
    case (Cons v vs)
    with Cons.IH show ?thesis by (cases vs) auto
  qed simp
qed simp

lemma splitOn_append_full: "splitOn c (u @ c # v) = splitOn c u @ splitOn c v"
proof (induction u)
  case (Cons x xs)
  then show ?case by (cases "splitOn c xs") auto
qed simp

lemma splitOn_prefix:
  "c \<notin> set u \<Longrightarrow> \<exists>x xs. splitOn c v = x # xs \<and> splitOn c (u @ v) = (u @ x) # xs"
proof (induction u)
  case Nil
  then show ?case by (cases "splitOn c v") auto
next
  case (Cons a u)
  then show ?case by auto
qed

lemma strings_Join_inj:
  assumes "strings_Join us [c] = strings_Join vs [c]" "us \<noteq> []" "vs \<noteq> []"
    and "\<forall>w \<in> set us. c \<notin> set w" "\<forall>w \<in> set vs. c \<notin> set w"
  shows "us = vs"
  using assms by (metis splitOn_Join)

lemma set_Join: "set (strings_Join ws sep) \<subseteq> (\<Union>w \<in> set ws. set w) \<union> set sep"
  by (induction ws sep rule: strings_Join.induct) auto

lemma scanLines_Cons:
  "NL \<notin> set l \<Longrightarrow> int (length l) < maxScanTokenSize \<Longrightarrow>
   scanLines (l @ NL # s) = (dropCR l # fst (scanLines s), snd (scanLines s))"
  by (simp add: scanLines_def splitOn_append Let_def split: prod.splits)

section \<open>Laws of white space\<close>

text \<open>The bytes a multi-byte white-space rune continues with never start one.\<close>

definition cont :: "char \<Rightarrow> bool" where
  "cont c \<longleftrightarrow> 128 \<le> (of_char c :: nat) \<and> of_char c < (192::nat)"

definition noncont :: "string \<Rightarrow> bool" where
  "noncont s \<longleftrightarrow> s = [] \<or> \<not> cont (hd s)"

definition is_ws :: "string \<Rightarrow> bool" where
  "is_ws w \<longleftrightarrow> w \<noteq> [] \<and> ws_len w = length w"

lemma ascii_ws_not_cont: "ascii_ws c \<Longrightarrow> \<not> cont c"
  by (auto simp: ascii_ws_def cont_def)

lemma ws2_cont: "ws2 a b \<Longrightarrow> cont b \<and> \<not> cont a"
  by (auto simp: ws2_def cont_def)

lemma ws3_cont: "ws3 a b c \<Longrightarrow> cont b \<and> cont c \<and> \<not> cont a"
  unfolding ws3_def cont_def by fastforce

lemma ws_len_le: "ws_len s \<le> length s"
  by (cases s rule: ws_len.cases) (auto split: list.splits)

lemma ws_rlen_le: "ws_rlen s \<le> length s"
  by (cases s rule: ws_rlen.cases) (auto split: list.splits)

lemma ws_len_append_pos: "0 < ws_len s \<Longrightarrow> ws_len (s @ t) = ws_len s"
  by (cases s rule: ws_len.cases) (auto split: list.splits if_splits)

lemma ws_len_append: "s \<noteq> [] \<Longrightarrow> noncont t \<Longrightarrow> ws_len (s @ t) = ws_len s"
  by (cases s rule: ws_len.cases)
    (auto simp: noncont_def split: list.splits dest: ws2_cont ws3_cont)

lemma ws_len_pos_noncont: "0 < ws_len s \<Longrightarrow> noncont s"
  by (cases s rule: ws_len.cases)
    (auto simp: noncont_def split: list.splits if_splits
      dest: ascii_ws_not_cont ws2_cont ws3_cont)

lemma is_ws_noncont: "is_ws w \<Longrightarrow> noncont (w @ t)"
  using ws_len_pos_noncont[of w] by (auto simp: is_ws_def noncont_def)

lemma is_ws_take: "0 < ws_len s \<Longrightarrow> is_ws (take (ws_len s) s)"
  by (cases s rule: ws_len.cases)
    (auto simp: is_ws_def numeral_eq_Suc split: list.splits if_splits)

lemma is_ws_rtake: "0 < ws_rlen s \<Longrightarrow> is_ws (rev (take (ws_rlen s) s))"
proof (cases s rule: ws_rlen.cases)
  case (2 c t)
  assume "0 < ws_rlen s"
  with 2 show ?thesis
    by (auto simp: is_ws_def numeral_eq_Suc split: list.splits if_splits
        dest: ws2_cont ws3_cont ascii_ws_not_cont) (auto simp: ascii_ws_def ws2_def ws3_def)
qed simp

declare ws_len.simps(2) [simp del] ws_rlen.simps(2) [simp del]

lemma fields_aux_ws_append:
  assumes "is_ws w"
  shows "fields_aux cur (s @ w @ t) = fields_aux cur s @ fields_aux [] t"
proof (induction cur s rule: fields_aux.induct)
  case (1 cur)
  from assms obtain a w' where w: "w = a # w'" by (cases w) (auto simp: is_ws_def)
  from assms have "ws_len (w @ t) = length w"
    by (simp add: is_ws_def ws_len_append_pos)
  with w have "ws_len (a # w' @ t) = Suc (length w')" by simp
  with w show ?case by simp
next
  case (2 cur c s)
  have len: "ws_len (c # s @ w @ t) = ws_len (c # s)"
    using ws_len_append[of "c # s" "w @ t"] is_ws_noncont[OF assms] by simp
  show ?case
  proof (cases "ws_len (c # s)")
    case 0
    with len 2(1) show ?thesis by simp
  next
    case (Suc n)
    with ws_len_le[of "c # s"] have "n \<le> length s" by simp
    with len Suc 2(2)[OF Suc] show ?thesis by simp
  qed
qed

lemma Fields_ws_append: "is_ws w \<Longrightarrow> strings_Fields (s @ w @ t) = strings_Fields s @ strings_Fields t"
  by (simp add: strings_Fields_def fields_aux_ws_append)

lemma Fields_Nil [simp]: "strings_Fields [] = []"
  by (simp add: strings_Fields_def)

lemma Fields_trimL: "strings_Fields (trimL s) = strings_Fields s"
proof (induction s rule: trimL.induct)
  case (1 s)
  show ?case
  proof (cases "ws_len s = 0")
    case False
    then have "is_ws (take (ws_len s) s)" by (simp add: is_ws_take)
    then have "strings_Fields ([] @ take (ws_len s) s @ drop (ws_len s) s)
      = strings_Fields [] @ strings_Fields (drop (ws_len s) s)"
      by (rule Fields_ws_append)
    with 1 False show ?thesis by (simp add: trimL.simps[of s])
  qed (simp add: trimL.simps)
qed

lemma Fields_trimR: "strings_Fields (rev (trimR s)) = strings_Fields (rev s)"
proof (induction s rule: trimR.induct)
  case (1 s)
  show ?case
  proof (cases "ws_rlen s = 0")
    case False
    let ?n = "ws_rlen s"
    from False have "is_ws (rev (take ?n s))" by (simp add: is_ws_rtake)
    then have "strings_Fields (rev (drop ?n s) @ rev (take ?n s) @ [])
      = strings_Fields (rev (drop ?n s)) @ strings_Fields []"
      by (rule Fields_ws_append)
    moreover have "rev (drop ?n s) @ rev (take ?n s) = rev s"
      by (metis append_take_drop_id rev_append)
    ultimately show ?thesis using 1 False by (simp add: trimR.simps[of s])
  qed (simp add: trimR.simps)
qed

lemma Fields_TrimSpace [simp]: "strings_Fields (strings_TrimSpace s) = strings_Fields s"
  by (simp add: strings_TrimSpace_def Fields_trimR Fields_trimL)

text \<open>A field: not empty, and no white-space rune starts anywhere in it.\<close>

fun no_ws :: "string \<Rightarrow> bool" where
  "no_ws [] = True"
| "no_ws (c # s) = (ws_len (c # s) = 0 \<and> no_ws s)"

definition field :: "string \<Rightarrow> bool" where
  "field f \<longleftrightarrow> f \<noteq> [] \<and> no_ws f"

lemma no_ws_iff: "no_ws s \<longleftrightarrow> (\<forall>u v. s = u @ v \<longrightarrow> ws_len v = 0)"
proof (induction s)
  case (Cons c s)
  show ?case
  proof
    assume "no_ws (c # s)"
    with Cons show "\<forall>u v. c # s = u @ v \<longrightarrow> ws_len v = 0"
      by (auto simp: Cons_eq_append_conv)
  next
    assume all: "\<forall>u v. c # s = u @ v \<longrightarrow> ws_len v = 0"
    then have "ws_len (c # s) = 0" by blast
    moreover from all have "\<forall>u v. s = u @ v \<longrightarrow> ws_len v = 0"
      by (metis append_Cons)
    ultimately show "no_ws (c # s)" using Cons by simp
  qed
qed simp

lemma fields_aux_no_ws: "no_ws s \<Longrightarrow> fields_aux cur s = (if cur = [] \<and> s = [] then [] else [rev cur @ s])"
  by (induction s arbitrary: cur) auto

lemma Fields_field: "field f \<Longrightarrow> strings_Fields f = [f]"
  by (simp add: strings_Fields_def field_def fields_aux_no_ws)

lemma is_ws_ascii [simp]: "ascii_ws c \<Longrightarrow> is_ws [c]"
  by (simp add: is_ws_def ws_len.simps)

lemma ascii_ws_sp [simp]: "ascii_ws (CHR '' '')" "ascii_ws NL" "ascii_ws TAB" "ascii_ws CR"
  by (simp_all add: ascii_ws_def)

lemma Fields_append_ascii:
  "ascii_ws c \<Longrightarrow> strings_Fields (s @ c # t) = strings_Fields s @ strings_Fields t"
  using Fields_ws_append[of "[c]" s t] by simp

lemma Fields_Join:
  assumes "ascii_ws c"
  shows "\<forall>f \<in> set fs. field f \<Longrightarrow> strings_Fields (strings_Join fs [c]) = fs"
proof (induction fs "[c]" rule: strings_Join.induct)
  case (3 w v ws)
  then show ?case
    using assms by (simp add: Fields_append_ascii Fields_field)
qed (simp_all add: Fields_field)

lemma fields_aux_fields:
  assumes "f \<in> set (fields_aux cur s)"
    and "\<forall>u v. rev cur = u @ v \<and> v \<noteq> [] \<longrightarrow> ws_len (v @ s) = 0"
  shows "field f"
  using assms
proof (induction cur s rule: fields_aux.induct)
  case (1 cur)
  then show ?case
    by (auto simp: field_def no_ws_iff split: if_splits) (metis ws_len.simps(1))
next
  case (2 cur c s)
  have done_field: "cur \<noteq> [] \<Longrightarrow> field (rev cur)"
    unfolding field_def no_ws_iff
    by (metis "2.prems"(2) gr_zeroI rev_is_Nil_conv ws_len.simps(1) ws_len_append_pos)
  show ?case
  proof (cases "ws_len (c # s)")
    case 0
    have "\<forall>u v. rev (c # cur) = u @ v \<and> v \<noteq> [] \<longrightarrow> ws_len (v @ s) = 0"
    proof (intro allI impI, elim conjE)
      fix u v
      assume "rev (c # cur) = u @ v" "v \<noteq> []"
      then obtain v' where v: "v = v' @ [c]" and r: "rev cur = u @ v'"
        by (cases v rule: rev_cases) auto
      show "ws_len (v @ s) = 0"
        using 0 "2.prems"(2) r v by (cases "v' = []") auto
    qed
    with 0 2 show ?thesis by simp
  next
    case (Suc n)
    with 2 done_field show ?thesis by (auto split: if_splits)
  qed
qed

lemma Fields_fields: "f \<in> set (strings_Fields s) \<Longrightarrow> field f"
  using fields_aux_fields[of f "[]" s] by (simp add: strings_Fields_def)

lemma Fields_Join_Fields [simp]:
  "strings_Fields (strings_Join (strings_Fields s) '' '') = strings_Fields s"
  by (rule Fields_Join) (simp_all add: Fields_fields)

lemma field_no_NL: "field f \<Longrightarrow> NL \<notin> set f"
proof
  assume f: "field f" and "NL \<in> set f"
  then obtain u v where "f = u @ NL # v" by (meson split_list)
  with f have "ws_len (NL # v) = 0" by (auto simp: field_def no_ws_iff)
  then show False by (simp add: ws_len.simps)
qed

lemma field_ws_len: "field f \<Longrightarrow> noncont t \<Longrightarrow> ws_len (f @ t) = 0"
  by (cases f) (simp_all add: field_def ws_len_append del: append_Cons)

lemma trimR_suffix: "\<exists>u. s = u @ trimR s"
proof (induction s rule: trimR.induct)
  case (1 s)
  show ?case
  proof (cases "ws_rlen s = 0")
    case True
    then show ?thesis by (simp add: trimR.simps)
  next
    case False
    with 1 obtain u where "drop (ws_rlen s) s = u @ trimR (drop (ws_rlen s) s)" by blast
    then have "s = (take (ws_rlen s) s @ u) @ trimR (drop (ws_rlen s) s)"
      by (metis append.assoc append_take_drop_id)
    with False show ?thesis by (metis trimR.simps)
  qed
qed

lemma trimL_suffix: "\<exists>u. s = u @ trimL s"
proof (induction s rule: trimL.induct)
  case (1 s)
  show ?case
  proof (cases "ws_len s = 0")
    case True
    then show ?thesis by (simp add: trimL.simps)
  next
    case False
    with 1 obtain u where "drop (ws_len s) s = u @ trimL (drop (ws_len s) s)" by blast
    then have "s = (take (ws_len s) s @ u) @ trimL (drop (ws_len s) s)"
      by (metis append.assoc append_take_drop_id)
    with False show ?thesis by (metis trimL.simps)
  qed
qed

lemma TrimSpace_hd:
  assumes "ws_len s = 0" "strings_TrimSpace s \<noteq> []"
  shows "hd (strings_TrimSpace s) = hd s"
proof -
  from assms(1) have t: "strings_TrimSpace s = rev (trimR (rev s))"
    by (simp add: strings_TrimSpace_def trimL.simps)
  from trimR_suffix[of "rev s"] obtain u where "rev s = u @ trimR (rev s)" by blast
  then have "s = rev (trimR (rev s)) @ rev u" by (metis rev_append rev_rev_ident)
  with t assms(2) show ?thesis by (metis hd_append2)
qed

text \<open>Padding with ASCII white space.\<close>

definition blanks :: "string \<Rightarrow> bool" where
  "blanks s \<longleftrightarrow> list_all ascii_ws s"

lemma trimL_blanks: "blanks s \<Longrightarrow> trimL (s @ t) = trimL t"
proof (induction s)
  case (Cons c s)
  then have "ws_len (c # s @ t) = 1" by (simp add: blanks_def ws_len.simps)
  with Cons show ?case by (simp add: trimL.simps[of "c # s @ t"] blanks_def)
qed simp

lemma trimR_blanks: "blanks s \<Longrightarrow> trimR (s @ t) = trimR t"
proof (induction s)
  case (Cons c s)
  then have "ws_rlen (c # s @ t) = 1" by (simp add: blanks_def ws_rlen.simps)
  with Cons show ?case by (simp add: trimR.simps[of "c # s @ t"] blanks_def)
qed simp

lemma TrimSpace_blanks:
  assumes "blanks pre" "blanks post" "strings_TrimSpace n = n"
  shows "strings_TrimSpace (pre @ n @ post) = n"
proof (cases "n = []")
  case True
  have "trimL (post @ []) = trimL []" by (rule trimL_blanks[OF assms(2)])
  with True assms show ?thesis by (simp add: strings_TrimSpace_def trimL_blanks)
next
  case False
  obtain u where u: "n = u @ trimL n" using trimL_suffix by blast
  obtain v where v: "rev (trimL n) = v @ trimR (rev (trimL n))" using trimR_suffix by blast
  have "length n \<le> length (trimL n)"
    using assms(3) arg_cong[OF v, of length] unfolding strings_TrimSpace_def by (metis le_add2 length_append length_rev)
  with arg_cong[OF u, of length] have "u = []" by simp
  with u have tl: "trimL n = n" by simp
  then have tr: "trimR (rev n) = rev n" using assms(3) by (metis rev_swap strings_TrimSpace_def)
  from tl have "ws_len n = 0"
    using trimL_suffix[of "drop (ws_len n) n"] ws_len_le[of n] False
    by (subst (asm) trimL.simps) (auto split: if_splits dest: arg_cong[of _ _ length])
  moreover have "noncont post" using assms(2) ascii_ws_not_cont by (cases post) (auto simp: noncont_def blanks_def)
  ultimately have "trimL (n @ post) = n @ post" using ws_len_append[OF False] by (simp add: trimL.simps)
  moreover have "trimR (rev post @ rev n) = trimR (rev n)" by (rule trimR_blanks) (use assms(2) in \<open>simp add: blanks_def list_all_iff\<close>)
  ultimately show ?thesis using assms(1) tr by (simp add: strings_TrimSpace_def trimL_blanks)
qed

section \<open>Laws of number printing and parsing\<close>

lemma of_char_dig: "d < 16 \<Longrightarrow> of_char (dig d) = (if d < 10 then 48 + d else 87 + d)"
  by (simp add: dig_def)

lemma dec_val_dig [simp]: "d < 10 \<Longrightarrow> dec_val (dig d) = Some d"
  by (simp add: dec_val_def of_char_dig)

lemma hex_val_dig [simp]: "d < 16 \<Longrightarrow> hex_val (dig d) = Some d"
  by (simp add: hex_val_def of_char_dig)

lemma parse_digits_append:
  "parse_digits v b acc (xs @ ys) =
     (case parse_digits v b acc xs of None \<Rightarrow> None | Some a \<Rightarrow> parse_digits v b a ys)"
  by (induction xs arbitrary: acc) (auto split: option.splits)

lemma parse_nat_str: "parse_digits dec_val 10 0 (nat_str n) = Some n"
proof (induction n rule: nat_str.induct)
  case (1 n)
  then show ?case
    by (cases "n < 10") (simp_all add: nat_str.simps[of n] parse_digits_append)
qed

lemma nat_str_neq_Nil [simp]: "nat_str n \<noteq> []"
  by (simp add: nat_str.simps[of n])

lemma nat_str_digits: "c \<in> set (nat_str n) \<Longrightarrow> 48 \<le> (of_char c :: nat) \<and> of_char c \<le> (57 :: nat)"
proof (induction n rule: nat_str.induct)
  case (1 n)
  then show ?case
    by (cases "n < 10") (auto simp: nat_str.simps[of n] of_char_dig)
qed

lemma nat_str_hd: "hd (nat_str n) \<noteq> CHR ''-''" "hd (nat_str n) \<noteq> CHR ''+''"
  using nat_str_digits[of "hd (nat_str n)" n] by auto

text \<open>Printing and parsing a 64-bit integer.\<close>

lemma Atoi_Itoa: "in_i64 i \<Longrightarrow> strconv_Atoi (strconv_Itoa i) = Some i"
  by (simp add: strconv_Atoi_def strconv_Itoa_def Let_def parse_nat_str nat_str_hd)

lemma Itoa_inject: "strconv_Itoa i = strconv_Itoa j \<longleftrightarrow> i = j"
proof
  assume eq: "strconv_Itoa i = strconv_Itoa j"
  have neg: "CHR ''-'' \<notin> set (nat_str n)" for n
    using nat_str_digits[of "CHR ''-''" n] by auto
  from eq neg have "(i < 0) = (j < 0)"
    by (auto simp: strconv_Itoa_def split: if_splits) (metis list.set_intros(1))+
  with eq show "i = j"
    by (auto simp: strconv_Itoa_def split: if_splits) (metis option.inject parse_nat_str nat_0_le
        neg_0_le_iff_le linorder_le_less_linear minus_minus le_less not_less)+
qed simp

lemma Itoa_chars: "c \<in> set (strconv_Itoa i) \<Longrightarrow> c = CHR ''-'' \<or> (48 \<le> (of_char c :: nat) \<and> of_char c \<le> (57 :: nat))"
  by (auto simp: strconv_Itoa_def dest: nat_str_digits split: if_splits)

lemma Itoa_neq_Nil [simp]: "strconv_Itoa i \<noteq> []"
  by (simp add: strconv_Itoa_def)

text \<open>A string of printable ASCII characters other than the space has no white space in it.\<close>

definition graphic :: "char \<Rightarrow> bool" where
  "graphic c \<longleftrightarrow> 33 \<le> (of_char c :: nat) \<and> of_char c < (127::nat)"

lemma graphic_not_ws:
  assumes "graphic c"
  shows "\<not> ascii_ws c" "\<not> ws2 c b" "\<not> ws3 c b d" "\<not> ws2 a c" "\<not> ws3 a b c"
proof -
  show "\<not> ascii_ws c" using assms by (auto simp: graphic_def ascii_ws_def)
  show "\<not> ws2 c b" using assms by (auto simp: graphic_def ws2_def)
  show "\<not> ws3 c b d"
  proof
    assume "ws3 c b d"
    then have "c = CHR 0xE1 \<or> c = CHR 0xE2 \<or> c = CHR 0xE3" unfolding ws3_def by blast
    with assms show False by (auto simp: graphic_def)
  qed
  have "\<not> cont c" using assms by (simp add: graphic_def cont_def)
  then show "\<not> ws2 a c" "\<not> ws3 a b c" by (auto dest: ws2_cont ws3_cont)
qed

lemma graphic_ws_len: "graphic c \<Longrightarrow> ws_len (c # s) = 0"
  by (simp add: ws_len.simps graphic_not_ws split: list.splits)

lemma graphic_no_ws: "\<forall>c \<in> set s. graphic c \<Longrightarrow> no_ws s"
  by (induction s) (simp_all add: graphic_ws_len)

lemma graphic_field: "s \<noteq> [] \<Longrightarrow> \<forall>c \<in> set s. graphic c \<Longrightarrow> field s"
  by (simp add: field_def graphic_no_ws)

lemma Itoa_graphic: "\<forall>c \<in> set (strconv_Itoa i). graphic c"
  by (auto dest!: Itoa_chars simp: graphic_def)

lemma graphic_trimL: "\<forall>c \<in> set s. graphic c \<Longrightarrow> trimL s = s"
  by (cases s) (simp_all add: trimL.simps graphic_ws_len)

lemma graphic_ws_rlen: "graphic c \<Longrightarrow> ws_rlen (c # s) = 0"
  by (simp add: ws_rlen.simps graphic_not_ws split: list.splits)

lemma graphic_trimR: "\<forall>c \<in> set s. graphic c \<Longrightarrow> trimR s = s"
  by (cases s) (simp_all add: trimR.simps graphic_ws_rlen)

lemma TrimSpace_graphic: "\<forall>c \<in> set s. graphic c \<Longrightarrow> strings_TrimSpace s = s"
  by (simp add: strings_TrimSpace_def graphic_trimL graphic_trimR)

lemma TrimSpace_Itoa [simp]: "strings_TrimSpace (strconv_Itoa i) = strconv_Itoa i"
  by (simp add: TrimSpace_graphic Itoa_graphic)

lemma length_hex_digits [simp]: "length (hex_digits k n) = k"
  by (induction k arbitrary: n) auto

lemma hex_digits_graphic: "\<forall>c \<in> set (hex_digits k n). graphic c \<and> c \<noteq> CHR '',''"
proof (induction k arbitrary: n)
  case (Suc k)
  have "n mod 16 < 16" by simp
  then have "graphic (dig (n mod 16))"
    unfolding graphic_def by (subst (1 2) of_char_dig) auto
  moreover have "dig (n mod 16) \<noteq> CHR '',''"
  proof
    assume "dig (n mod 16) = CHR '',''"
    then have "(of_char (dig (n mod 16)) :: nat) = of_char (CHR '','')" by (rule arg_cong)
    then show False by (simp add: of_char_dig split: if_splits)
  qed
  ultimately show ?case using Suc by simp
qed simp

lemma parse_hex_digits: "n < 16 ^ k \<Longrightarrow> parse_digits hex_val 16 0 (hex_digits k n) = Some n"
proof (induction k arbitrary: n)
  case (Suc k)
  then have "n div 16 < 16 ^ k" by (simp add: less_mult_imp_div_less)
  with Suc.IH[of "n div 16"] show ?case by (simp add: parse_digits_append)
qed simp

lemma ParseUint_fmt_08x [simp]: "strconv_ParseUint16_32 (fmt_08x w) = Some (unat w)"
proof -
  have lt: "unat w < 2 ^ 32" using unsigned_less[of w] by simp
  then have "int (unat w) < 2 ^ 32" by (metis of_nat_less_iff of_nat_numeral of_nat_power)
  moreover have "hex_digits 8 (unat w) \<noteq> []"
    by (metis length_hex_digits list.size(3) zero_neq_numeral)
  ultimately show ?thesis
    using lt parse_hex_digits[of "unat w" 8] by (simp add: strconv_ParseUint16_32_def fmt_08x_def)
qed

end
