(* ===== verification/Go_Float.thy ===== *)
theory Go_Float
  imports Complex_Main Go_Strings
begin

text \<open>
  What the source uses of \<^verbatim>\<open>float64\<close>: IEEE 754 binary64 with rounding to nearest, ties to even. A finite
  value is the rational number it stands for (the sign of zero is never observed), so every
  definition computes. Conversion to \<^verbatim>\<open>int64\<close> outside its range is implementation specific in Go: it is a
  parameter \<open>oor\<close> of the definitions that convert.
\<close>

datatype float64 = Fin rat | PosInf | NegInf | NaN

definition pow2 :: "int \<Rightarrow> rat" where
  "pow2 k = (if 0 \<le> k then 2 ^ nat k else 1 / 2 ^ nat (- k))"

function bitlen :: "int \<Rightarrow> int" where
  "bitlen n = (if n \<le> 0 then 0 else 1 + bitlen (n div 2))"
  by pat_completeness auto
termination
  by (relation "measure nat") auto

declare bitlen.simps [simp del]

text \<open>The exponent of the leading bit of a positive rational.\<close>

definition fl_exp :: "rat \<Rightarrow> int" where
  "fl_exp x = (let (p, q) = quotient_of x; l = bitlen p - bitlen q in if pow2 l \<le> x then l else l - 1)"

definition round_even :: "rat \<Rightarrow> int" where
  "round_even x =
     (let f = \<lfloor>x\<rfloor>; d = x - of_int f in
      if d < 1 / 2 then f else if 1 / 2 < d then f + 1 else if even f then f else f + 1)"

definition fl_round :: "rat \<Rightarrow> float64" where
  "fl_round x =
     (if x = 0 then Fin 0
      else
        (let u = pow2 (max (fl_exp \<bar>x\<bar> - 52) (- 1074));
             y = of_int (round_even (x / u)) * u
         in if pow2 1024 \<le> y then PosInf else if y \<le> - pow2 1024 then NegInf else Fin y))"

text \<open>Multiplication and division by a positive constant, and conversion from and to \<^verbatim>\<open>int64\<close>.\<close>

fun fl_mulc :: "float64 \<Rightarrow> rat \<Rightarrow> float64" where
  "fl_mulc (Fin x) k = fl_round (x * k)"
| "fl_mulc PosInf k = PosInf"
| "fl_mulc NegInf k = NegInf"
| "fl_mulc NaN k = NaN"

fun fl_divc :: "float64 \<Rightarrow> rat \<Rightarrow> float64" where
  "fl_divc (Fin x) k = fl_round (x / k)"
| "fl_divc PosInf k = PosInf"
| "fl_divc NegInf k = NegInf"
| "fl_divc NaN k = NaN"

definition fl_of_int :: "int \<Rightarrow> float64" where
  "fl_of_int i = fl_round (of_int i)"

definition rat_trunc :: "rat \<Rightarrow> int" where
  "rat_trunc x = (if x < 0 then - \<lfloor>- x\<rfloor> else \<lfloor>x\<rfloor>)"

fun fl_to_int64 :: "(float64 \<Rightarrow> int) \<Rightarrow> float64 \<Rightarrow> int" where
  "fl_to_int64 oor (Fin x) = (if in_i64 (rat_trunc x) then rat_trunc x else i64 (oor (Fin x)))"
| "fl_to_int64 oor PosInf = i64 (oor PosInf)"
| "fl_to_int64 oor NegInf = i64 (oor NegInf)"
| "fl_to_int64 oor NaN = i64 (oor NaN)"

text \<open>
  \<^verbatim>\<open>strconv.ParseFloat(s, 64)\<close> on a string of decimal digits and dots: at least one digit and at most one
  dot; a value too large for the format is an error.
\<close>

definition strconv_ParseFloat :: "string \<Rightarrow> float64 option" where
  "strconv_ParseFloat s =
     (let (a, b) = (case strings_Cut s (CHR ''.'') of None \<Rightarrow> (s, []) | Some (a, b) \<Rightarrow> (a, b)) in
      if a @ b = [] then None
      else (case parse_digits dec_val 10 0 (a @ b) of
              None \<Rightarrow> None
            | Some n \<Rightarrow>
                (case fl_round (of_nat n / 10 ^ length b) of
                   Fin x \<Rightarrow> Some (Fin x)
                 | _ \<Rightarrow> None)))"

section \<open>Exactness\<close>

lemma pow2_pos: "0 < pow2 k"
  by (simp add: pow2_def)

lemma pow2_add: "pow2 (a + b) = pow2 a * pow2 b"
proof -
  have "pow2 k = 2 powi k" for k
    by (auto simp: pow2_def power_int_def field_simps)
  then show ?thesis by (simp add: power_int_add)
qed

lemma pow2_less: "a < b \<Longrightarrow> pow2 a < pow2 b"
proof -
  assume "a < b"
  then have "nat (b - a) = Suc (nat (b - a - 1))" by simp
  then have "pow2 (b - a) = 2 * 2 ^ nat (b - a - 1)" using \<open>a < b\<close> by (simp add: pow2_def)
  moreover have "(1 :: rat) \<le> 2 ^ nat (b - a - 1)" by simp
  ultimately have "1 < pow2 (b - a)" by linarith
  moreover have "pow2 b = pow2 a * pow2 (b - a)" by (simp flip: pow2_add)
  ultimately show ?thesis using pow2_pos[of a] by simp
qed

lemma pow2_mono: "pow2 a \<le> pow2 b \<longleftrightarrow> a \<le> b"
  using pow2_less[of a b] pow2_less[of b a] by (metis leD linorder_neqE order.strict_implies_order order_refl)

lemma bitlen_bounds: "0 < n \<Longrightarrow> 0 < bitlen n \<and> 2 ^ nat (bitlen n - 1) \<le> n \<and> n < 2 ^ nat (bitlen n)"
proof (induction n rule: bitlen.induct)
  case (1 n)
  show ?case
  proof (cases "n = 1")
    case True
    then show ?thesis by (simp add: bitlen.simps)
  next
    case False
    with 1 have ih: "0 < bitlen (n div 2)" "2 ^ nat (bitlen (n div 2) - 1) \<le> n div 2" "n div 2 < 2 ^ nat (bitlen (n div 2))"
      by auto
    have b: "bitlen n = 1 + bitlen (n div 2)" using 1(2) by (simp add: bitlen.simps[of n])
    have "nat (bitlen (n div 2)) = Suc (nat (bitlen (n div 2) - 1))" using ih(1) by simp
    with ih(2) have "2 ^ nat (bitlen n - 1) \<le> n" unfolding b by simp
    moreover have "nat (bitlen n) = Suc (nat (bitlen (n div 2)))" using ih(1) b by simp
    moreover have "n < 2 * x" if "n div 2 < x" for x using that by presburger
    ultimately show ?thesis using ih b by simp
  qed
qed

lemma fl_exp_le: "0 < x \<Longrightarrow> pow2 (fl_exp x) \<le> x"
proof -
  assume x: "0 < x"
  obtain p q where pq: "quotient_of x = (p, q)" by force
  have q: "0 < q" and xq: "x = of_int p / of_int q"
    using pq quotient_of_denom_pos quotient_of_div by blast+
  have p: "0 < p" using x q xq by (simp add: zero_less_divide_iff)
  let ?l = "bitlen p - bitlen q"
  have "pow2 (?l - 1) \<le> x"
  proof -
    have bp: "pow2 (bitlen p - 1) \<le> of_int p"
    proof -
      have "(of_int (2 ^ nat (bitlen p - 1)) :: rat) \<le> of_int p"
        using bitlen_bounds[OF p] by (simp only: of_int_le_iff)
      then show ?thesis using bitlen_bounds[OF p] by (simp add: pow2_def)
    qed
    have bq: "of_int q \<le> pow2 (bitlen q)"
    proof -
      have "(of_int q :: rat) \<le> of_int (2 ^ nat (bitlen q))"
        using bitlen_bounds[OF q] by (simp only: of_int_le_iff) linarith
      then show ?thesis using bitlen_bounds[OF q] by (simp add: pow2_def)
    qed
    have "pow2 (?l - 1) * of_int q \<le> pow2 (?l - 1) * pow2 (bitlen q)"
      using bq pow2_pos[of "?l - 1"] by simp
    also have "\<dots> = pow2 (bitlen p - 1)" by (simp flip: pow2_add)
    also note bp
    finally show ?thesis using q by (simp add: xq pos_le_divide_eq)
  qed
  then show ?thesis using pq by (simp add: fl_exp_def Let_def)
qed

lemma round_even_int [simp]: "round_even (of_int i) = i"
  by (simp add: round_even_def)

text \<open>Numbers with at most 53 significant bits are not rounded.\<close>

lemma fl_round_exact:
  assumes x: "x = of_int m * pow2 k" and m: "\<bar>m\<bar> < 2 ^ 53" and k: "- 1074 \<le> k" and r: "\<bar>x\<bar> < pow2 1024"
  shows "fl_round x = Fin x"
proof (cases "x = 0")
  case False
  define u where "u = max (fl_exp \<bar>x\<bar> - 52) (- 1074)"
  have "pow2 (fl_exp \<bar>x\<bar>) \<le> \<bar>x\<bar>" using False by (intro fl_exp_le) simp
  also have "\<dots> = of_int \<bar>m\<bar> * pow2 k" using pow2_pos[of k] by (simp add: x abs_mult)
  also have "\<dots> < pow2 53 * pow2 k"
  proof -
    have "(of_int \<bar>m\<bar> :: rat) < of_int (2 ^ 53)" using m by (simp only: of_int_less_iff)
    then have "(of_int \<bar>m\<bar> :: rat) < pow2 53" by (simp add: pow2_def)
    then show ?thesis using pow2_pos[of k] by simp
  qed
  finally have "pow2 (fl_exp \<bar>x\<bar>) < pow2 (53 + k)" by (simp add: pow2_add)
  then have "fl_exp \<bar>x\<bar> < 53 + k" using pow2_mono[of "53 + k" "fl_exp \<bar>x\<bar>"] by linarith
  then have uk: "u \<le> k" using k by (simp add: u_def)
  have "x / pow2 u = of_int (m * 2 ^ nat (k - u))"
  proof -
    have "pow2 k = pow2 (k - u) * pow2 u" by (simp flip: pow2_add)
    moreover have "pow2 (k - u) = of_int (2 ^ nat (k - u))" using uk by (simp add: pow2_def)
    ultimately have "x = of_int (m * 2 ^ nat (k - u)) * pow2 u" by (simp add: x)
    then show ?thesis using pow2_pos[of u] by (simp add: nonzero_divide_eq_eq)
  qed
  then have "of_int (round_even (x / pow2 u)) * pow2 u = x"
    using pow2_pos[of u] by (metis nonzero_divide_eq_eq order_less_irrefl round_even_int)
  with False r show ?thesis by (simp add: fl_round_def Let_def abs_less_iff not_le flip: u_def)
qed (simp add: fl_round_def)

lemma fl_of_int_exact: "\<bar>i\<bar> < 2 ^ 53 \<Longrightarrow> fl_of_int i = Fin (of_int i)"
proof -
  assume i: "\<bar>i\<bar> < 2 ^ 53"
  have "(of_int \<bar>i\<bar> :: rat) < of_int (2 ^ 53)" using i by (simp only: of_int_less_iff)
  also have "(of_int (2 ^ 53) :: rat) \<le> pow2 1024" using pow2_mono[of 53 1024] by (simp add: pow2_def)
  finally have "\<bar>of_int i :: rat\<bar> < pow2 1024" by simp
  then show ?thesis unfolding fl_of_int_def
    using i by (intro fl_round_exact[of _ i 0]) (simp_all add: pow2_def)
qed

lemma fl_to_int64_range: "in_i64 (fl_to_int64 oor x)"
  by (cases x) (simp_all add: i64_range)

end
