(* ===== verification/Filesystem.thy ===== *)
theory Filesystem
  imports Go_Strings
begin

text \<open>
  The part of Go's \<^verbatim>\<open>path/filepath\<close> and \<^verbatim>\<open>os\<close> packages the program uses, over a model of the host.

  A host is a \<open>world\<close>: the nodes of its file tree by cleaned path, and in \<open>w_ext\<close> whatever else
  external commands act on (module loader, systemd, NIC driver). A file is either a regular file,
  which stores what is written to it, or a knob of \<^verbatim>\<open>/proc\<close> or \<^verbatim>\<open>/sys\<close>, whose handler decides what a
  write leaves to be read back. Failures are part of the tree: a file can refuse to be read or
  modified, a directory can refuse new entries, a file system can refuse data, modes or the final
  close. Every system call of the program therefore has its error branches here.

  Paths are looked up by their text; the program builds them with \<^verbatim>\<open>filepath.Join\<close>, which cleans
  them. Symbolic links are not modelled: a link is the node it points to.
\<close>

section \<open>Paths\<close>

fun clean_step :: "bool \<Rightarrow> string list \<Rightarrow> string \<Rightarrow> string list" where
  "clean_step rooted st c =
     (if c = [] \<or> c = ''.'' then st
      else if c = ''..'' then
        (case st of
           [] \<Rightarrow> if rooted then [] else [''..'']
         | t # ts \<Rightarrow> if t = ''..'' then ''..'' # st else ts)
      else c # st)"

definition clean_comps :: "bool \<Rightarrow> string list \<Rightarrow> string list" where
  "clean_comps rooted cs = rev (foldl (clean_step rooted) [] cs)"

definition render_path :: "bool \<Rightarrow> string list \<Rightarrow> string" where
  "render_path rooted cs =
     (if rooted then CHR ''/'' # strings_Join cs ''/''
      else if cs = [] then ''.'' else strings_Join cs ''/'')"

definition rooted :: "string \<Rightarrow> bool" where
  "rooted p \<longleftrightarrow> p \<noteq> [] \<and> hd p = CHR ''/''"

definition filepath_Clean :: "string \<Rightarrow> string" where
  "filepath_Clean p =
     (if p = [] then ''.''
      else render_path (rooted p) (clean_comps (rooted p) (splitOn (CHR ''/'') p)))"

definition filepath_Join :: "string list \<Rightarrow> string" where
  "filepath_Join elems =
     (case dropWhile (\<lambda>e. e = []) elems of
        [] \<Rightarrow> []
      | es \<Rightarrow> filepath_Clean (strings_Join es ''/''))"

text \<open>\<open>upto_slash\<close> is the path up to and including its last slash.\<close>

definition upto_slash :: "string \<Rightarrow> string" where
  "upto_slash p = rev (dropWhile (\<lambda>c. c \<noteq> CHR ''/'') (rev p))"

definition filepath_Dir :: "string \<Rightarrow> string" where
  "filepath_Dir p = filepath_Clean (upto_slash p)"

definition filepath_Base :: "string \<Rightarrow> string" where
  "filepath_Base p =
     (if p = [] then ''.''
      else let q = rev (dropWhile (\<lambda>c. c = CHR ''/'') (rev p));
               b = rev (takeWhile (\<lambda>c. c \<noteq> CHR ''/'') (rev q))
           in if b = [] then ''/'' else b)"

section \<open>The host\<close>

text \<open>The failures of the file system a regular file lives on.\<close>

record fsopts =
  o_write_err :: "errno option"
  o_chmod_err :: "errno option"
  o_close_err :: "errno option"

text \<open>
  A knob's handler gets the current content and the bytes written; it returns the error of the
  write, if any, and the content left to be read.
\<close>

datatype fkind = Regular fsopts | Knob "string \<Rightarrow> string \<Rightarrow> errno option \<times> string"

record fnode =
  f_content :: string
  f_mode :: nat
  f_kind :: fkind
  f_read_err :: "(string \<times> errno) option"
  f_locked :: "errno option"

record dnode =
  d_readdir_err :: "errno option"
  d_creat_err :: "errno option"
  d_opts :: fsopts

datatype node = File fnode | Dir dnode

record 'x world =
  w_fs :: "(string \<times> node) list"
  w_ext :: 'x

definition node_at :: "'x world \<Rightarrow> string \<Rightarrow> node option" where
  "node_at w p = map_of (w_fs w) p"

definition set_node :: "string \<Rightarrow> node \<Rightarrow> 'x world \<Rightarrow> 'x world" where
  "set_node p n w = w\<lparr>w_fs := AList.update p n (w_fs w)\<rparr>"

definition del_node :: "string \<Rightarrow> 'x world \<Rightarrow> 'x world" where
  "del_node p w = w\<lparr>w_fs := AList.delete p (w_fs w)\<rparr>"

definition fsopts_ok :: fsopts where
  "fsopts_ok = \<lparr>o_write_err = None, o_chmod_err = None, o_close_err = None\<rparr>"

definition regular :: "string \<Rightarrow> node" where
  "regular c = File \<lparr>f_content = c, f_mode = 420, f_kind = Regular fsopts_ok,
                      f_read_err = None, f_locked = None\<rparr>"

definition knob :: "(string \<Rightarrow> string \<Rightarrow> errno option \<times> string) \<Rightarrow> string \<Rightarrow> node" where
  "knob h c = File \<lparr>f_content = c, f_mode = 420, f_kind = Knob h,
                     f_read_err = None, f_locked = None\<rparr>"

definition plain_dir :: node where
  "plain_dir = Dir \<lparr>d_readdir_err = None, d_creat_err = None, d_opts = fsopts_ok\<rparr>"

section \<open>System calls\<close>

text \<open>The error of naming a path that is not there: an ancestor may be a file.\<close>

definition ancestors :: "string \<Rightarrow> string list" where
  "ancestors p = map (\<lambda>i. take i p) (filter (\<lambda>i. p ! i = CHR ''/'') [1..<length p])"

fun is_file :: "node option \<Rightarrow> bool" where
  "is_file (Some (File f)) = True"
| "is_file (Some (Dir d)) = False"
| "is_file None = False"

definition absent_errno :: "'x world \<Rightarrow> string \<Rightarrow> errno" where
  "absent_errno w p = (if list_ex (\<lambda>a. is_file (node_at w a)) (ancestors p) then ENOTDIR else ENOENT)"

definition os_ReadFile :: "string \<Rightarrow> 'x world \<Rightarrow> goerror + string" where
  "os_ReadFile p w =
     (case node_at w p of
        None \<Rightarrow> Inl (PathError ''open'' p (absent_errno w p))
      | Some (Dir d) \<Rightarrow> Inl (PathError ''read'' p EISDIR)
      | Some (File f) \<Rightarrow>
          (case f_read_err f of
             Some (oper, e) \<Rightarrow> Inl (PathError oper p e)
           | None \<Rightarrow> Inr (f_content f)))"

text \<open>
  \<^verbatim>\<open>os.Open\<close> followed by a scanner over the whole file: the error of opening, or the lines and the
  error the scanner ends with. Opening a directory succeeds and reading it fails.
\<close>

definition os_OpenScan :: "string \<Rightarrow> 'x world \<Rightarrow> goerror + string list \<times> goerror option" where
  "os_OpenScan p w =
     (case node_at w p of
        None \<Rightarrow> Inl (PathError ''open'' p (absent_errno w p))
      | Some (Dir d) \<Rightarrow> Inr ([], Some (PathError ''read'' p EISDIR))
      | Some (File f) \<Rightarrow>
          (case f_read_err f of
             Some (oper, e) \<Rightarrow>
               if oper = ''open'' then Inl (PathError oper p e)
               else Inr ([], Some (PathError oper p e))
           | None \<Rightarrow>
               (let (ls, tooLong) = scanLines (f_content f)
                in Inr (ls, if tooLong then Some (ErrText ''bufio.Scanner: token too long'') else None))))"

definition os_Stat :: "string \<Rightarrow> 'x world \<Rightarrow> goerror option" where
  "os_Stat p w =
     (case node_at w p of
        None \<Rightarrow> Some (PathError ''stat'' p (absent_errno w p))
      | Some n \<Rightarrow> None)"

text \<open>The names directly below a directory, in the order \<^verbatim>\<open>os.ReadDir\<close> returns them.\<close>

definition child_name :: "string \<Rightarrow> string \<Rightarrow> string option" where
  "child_name p q =
     (let pre = (if p = ''/'' then p else p @ ''/''); r = drop (length pre) q
      in if strings_HasPrefix q pre \<and> r \<noteq> [] \<and> CHR ''/'' \<notin> set r then Some r else None)"

definition child_names :: "'x world \<Rightarrow> string \<Rightarrow> string list" where
  "child_names w p = sort (remdups (List.map_filter (\<lambda>(q, n). child_name p q) (w_fs w)))"

definition os_ReadDir :: "string \<Rightarrow> 'x world \<Rightarrow> goerror + string list" where
  "os_ReadDir p w =
     (case node_at w p of
        None \<Rightarrow> Inl (PathError ''open'' p (absent_errno w p))
      | Some (File f) \<Rightarrow> Inl (PathError ''readdirent'' p ENOTDIR)
      | Some (Dir d) \<Rightarrow>
          (case d_readdir_err d of
             Some e \<Rightarrow> Inl (PathError ''open'' p e)
           | None \<Rightarrow> Inr (child_names w p)))"

text \<open>Create an empty regular file; the parent must be a directory that takes new entries.\<close>

definition new_file :: "dnode \<Rightarrow> nat \<Rightarrow> fnode" where
  "new_file d m = \<lparr>f_content = [], f_mode = m, f_kind = Regular (d_opts d),
                   f_read_err = None, f_locked = None\<rparr>"

definition create_in :: "string \<Rightarrow> string \<Rightarrow> nat \<Rightarrow> 'x world \<Rightarrow> goerror option \<times> 'x world" where
  "create_in dir p m w =
     (case node_at w dir of
        Some (Dir d) \<Rightarrow>
          (case d_creat_err d of
             Some e \<Rightarrow> (Some (PathError ''open'' p e), w)
           | None \<Rightarrow> (None, set_node p (File (new_file d m)) w))
      | Some (File f) \<Rightarrow> (Some (PathError ''open'' p ENOTDIR), w)
      | None \<Rightarrow> (Some (PathError ''open'' p (absent_errno w p)), w))"

text \<open>
  Write the bytes to a file opened with truncation: the error and the file left behind.
\<close>

definition write_trunc :: "string \<Rightarrow> string \<Rightarrow> fnode \<Rightarrow> goerror option \<times> fnode" where
  "write_trunc p data f =
     (case f_kind f of
        Regular opts \<Rightarrow>
          (case o_write_err opts of
             Some e \<Rightarrow> (Some (PathError ''write'' p e), f\<lparr>f_content := []\<rparr>)
           | None \<Rightarrow> (map_option (PathError ''close'' p) (o_close_err opts), f\<lparr>f_content := data\<rparr>))
      | Knob h \<Rightarrow>
          (let (e, c) = h (f_content f) data
           in (map_option (PathError ''write'' p) e, f\<lparr>f_content := c\<rparr>)))"

definition write_existing :: "string \<Rightarrow> string \<Rightarrow> fnode \<Rightarrow> 'x world \<Rightarrow> goerror option \<times> 'x world" where
  "write_existing p data f w =
     (case f_locked f of
        Some e \<Rightarrow> (Some (PathError ''open'' p e), w)
      | None \<Rightarrow> (let (e, f') = write_trunc p data f in (e, set_node p (File f') w)))"

definition os_WriteFile :: "string \<Rightarrow> string \<Rightarrow> nat \<Rightarrow> 'x world \<Rightarrow> goerror option \<times> 'x world" where
  "os_WriteFile p data m w =
     (case node_at w p of
        Some (Dir d) \<Rightarrow> (Some (PathError ''open'' p EISDIR), w)
      | Some (File f) \<Rightarrow> write_existing p data f w
      | None \<Rightarrow>
          (case create_in (filepath_Dir p) p m w of
             (Some e, w') \<Rightarrow> (Some e, w')
           | (None, w') \<Rightarrow>
               (case node_at w' p of
                  Some (File f) \<Rightarrow> write_existing p data f w'
                | _ \<Rightarrow> (Some (PathError ''open'' p EIO), w'))))"

text \<open>
  \<^verbatim>\<open>os.MkdirAll\<close>: missing ancestors are made first; new directories are on the file system of
  their parent. A path that has no shorter parent (the root or \<^verbatim>\<open>.\<close>) is not created.
\<close>

function os_MkdirAll :: "string \<Rightarrow> 'x world \<Rightarrow> goerror option \<times> 'x world" where
  "os_MkdirAll p w =
     (case node_at w p of
        Some (Dir d) \<Rightarrow> (None, w)
      | Some (File f) \<Rightarrow> (Some (PathError ''mkdir'' p ENOTDIR), w)
      | None \<Rightarrow>
          (let par = filepath_Dir p in
           if length par < length p then
             (case os_MkdirAll par w of
                (Some e, w') \<Rightarrow> (Some e, w')
              | (None, w') \<Rightarrow>
                  (case node_at w' par of
                     Some (Dir d) \<Rightarrow>
                       (case d_creat_err d of
                          Some e \<Rightarrow> (Some (PathError ''mkdir'' p e), w')
                        | None \<Rightarrow> (None, set_node p (Dir d) w'))
                   | _ \<Rightarrow> (Some (PathError ''mkdir'' p ENOTDIR), w')))
           else (Some (PathError ''mkdir'' p ENOENT), w)))"
  by pat_completeness auto
termination
  by (relation "measure (\<lambda>(p, w). length p)") auto

declare os_MkdirAll.simps [simp del]

text \<open>
  \<^verbatim>\<open>os.CreateTemp(dir, pattern)\<close> takes a random name that is not in use. Which one it is does not
  matter to the program; the model takes one longer than every path of the tree.
\<close>

definition joinPath :: "string \<Rightarrow> string \<Rightarrow> string" where
  "joinPath dir name = (if strings_HasSuffix dir ''/'' then dir @ name else dir @ ''/'' @ name)"

definition tmp_path :: "'x world \<Rightarrow> string \<Rightarrow> string \<Rightarrow> string" where
  "tmp_path w dir pre =
     joinPath dir (pre @ replicate (Suc (fold max (map (length \<circ> fst) (w_fs w)) 0)) (CHR ''0''))"

definition os_CreateTemp :: "string \<Rightarrow> string \<Rightarrow> 'x world \<Rightarrow> (goerror + string) \<times> 'x world" where
  "os_CreateTemp dir pre w =
     (let p = tmp_path w dir pre in
      case create_in dir p 384 w of
        (Some e, w') \<Rightarrow> (Inl e, w')
      | (None, w') \<Rightarrow> (Inr p, w'))"

definition tmp_opts :: "'x world \<Rightarrow> string \<Rightarrow> fsopts" where
  "tmp_opts w p =
     (case node_at w p of
        Some (File f) \<Rightarrow> (case f_kind f of Regular opts \<Rightarrow> opts | Knob h \<Rightarrow> fsopts_ok)
      | _ \<Rightarrow> fsopts_ok)"

definition upd_file :: "string \<Rightarrow> (fnode \<Rightarrow> fnode) \<Rightarrow> 'x world \<Rightarrow> 'x world" where
  "upd_file p g w = (case node_at w p of Some (File f) \<Rightarrow> set_node p (File (g f)) w | _ \<Rightarrow> w)"

definition tmp_Write :: "string \<Rightarrow> string \<Rightarrow> 'x world \<Rightarrow> goerror option \<times> 'x world" where
  "tmp_Write p data w =
     (case o_write_err (tmp_opts w p) of
        Some e \<Rightarrow> (Some (PathError ''write'' p e), w)
      | None \<Rightarrow> (None, upd_file p (f_content_update (\<lambda>_. data)) w))"

definition tmp_Chmod :: "string \<Rightarrow> nat \<Rightarrow> 'x world \<Rightarrow> goerror option \<times> 'x world" where
  "tmp_Chmod p m w =
     (case o_chmod_err (tmp_opts w p) of
        Some e \<Rightarrow> (Some (PathError ''chmod'' p e), w)
      | None \<Rightarrow> (None, upd_file p (f_mode_update (\<lambda>_. m)) w))"

definition tmp_Close :: "string \<Rightarrow> 'x world \<Rightarrow> goerror option" where
  "tmp_Close p w = map_option (PathError ''close'' p) (o_close_err (tmp_opts w p))"

text \<open>
  \<^verbatim>\<open>os.Rename\<close> of a file within its directory: the target is replaced as a whole, unless it is a
  directory or may not be modified.
\<close>

definition os_Rename :: "string \<Rightarrow> string \<Rightarrow> 'x world \<Rightarrow> goerror option \<times> 'x world" where
  "os_Rename src p w =
     (let err = (\<lambda>e. Some (PathError ''rename'' (src @ '' '' @ p) e)) in
      case node_at w src of
        None \<Rightarrow> (err ENOENT, w)
      | Some n \<Rightarrow>
          (case node_at w p of
             Some (Dir d) \<Rightarrow> (err EEXIST, w)
           | Some (File f) \<Rightarrow>
               (case f_locked f of
                  Some e \<Rightarrow> (err e, w)
                | None \<Rightarrow> (None, set_node p n (del_node src w)))
           | None \<Rightarrow> (None, set_node p n (del_node src w))))"

definition os_Remove :: "string \<Rightarrow> 'x world \<Rightarrow> 'x world" where
  "os_Remove p w = (case node_at w p of Some (File f) \<Rightarrow> del_node p w | _ \<Rightarrow> w)"

section \<open>Laws of paths\<close>

text \<open>A plain component names an entry of a directory.\<close>

definition plain_comp :: "string \<Rightarrow> bool" where
  "plain_comp c \<longleftrightarrow> c \<noteq> [] \<and> c \<noteq> ''.'' \<and> c \<noteq> ''..'' \<and> CHR ''/'' \<notin> set c"

lemma plain_comp_no_slash: "plain_comp c \<Longrightarrow> CHR ''/'' \<notin> set c"
  by (simp add: plain_comp_def)

lemma clean_step_plain: "plain_comp c \<Longrightarrow> clean_step r st c = c # st"
  by (simp add: plain_comp_def)

declare clean_step.simps [simp del]

lemma foldl_clean_plain:
  "\<forall>c \<in> set cs. plain_comp c \<Longrightarrow> foldl (clean_step r) st cs = rev cs @ st"
  by (induction cs arbitrary: st) (simp_all add: clean_step_plain)

lemma clean_comps_append_plain:
  "\<forall>c \<in> set ys. plain_comp c \<Longrightarrow> clean_comps r (xs @ ys) = clean_comps r xs @ ys"
  by (simp add: clean_comps_def foldl_clean_plain)

lemma clean_comps_skip_empty:
  "clean_comps r (filter (\<lambda>c. c \<noteq> []) cs) = clean_comps r cs"
proof -
  have "foldl (clean_step r) st (filter (\<lambda>c. c \<noteq> []) cs) = foldl (clean_step r) st cs" for st
    by (induction cs arbitrary: st) (simp_all add: clean_step.simps)
  then show ?thesis by (simp add: clean_comps_def)
qed

definition comp_ok :: "string \<Rightarrow> bool" where
  "comp_ok c \<longleftrightarrow> c \<noteq> [] \<and> c \<noteq> ''.'' \<and> CHR ''/'' \<notin> set c"

lemma comp_ok_dotdot [simp]: "comp_ok ''..''"
  by (simp add: comp_ok_def)

lemma plain_comp_ok: "plain_comp c \<Longrightarrow> comp_ok c"
  by (simp add: plain_comp_def comp_ok_def)

lemma clean_step_ok:
  assumes "\<forall>c \<in> set st. comp_ok c" "CHR ''/'' \<notin> set c"
  shows "\<forall>c \<in> set (clean_step r st c). comp_ok c"
proof -
  have "comp_ok c" if "c \<noteq> []" "c \<noteq> ''.''" using that assms(2) by (simp add: comp_ok_def)
  then show ?thesis
    using assms(1) by (cases st) (auto simp: clean_step.simps)
qed

lemma foldl_clean_ok:
  assumes "\<forall>c \<in> set st. comp_ok c"
    and "\<forall>c \<in> set cs. CHR ''/'' \<notin> set c"
  shows "\<forall>c \<in> set (foldl (clean_step r) st cs). comp_ok c"
  using assms
proof (induction cs arbitrary: st)
  case (Cons c cs)
  then show ?case using clean_step_ok[of st c r] by simp
qed simp

lemma clean_comps_ok:
  "\<forall>c \<in> set cs. CHR ''/'' \<notin> set c \<Longrightarrow>
   \<forall>c \<in> set (clean_comps r cs). comp_ok c"
  unfolding clean_comps_def set_rev by (rule foldl_clean_ok) simp_all

lemma render_path_inj:
  assumes eq: "render_path r xs = render_path r ys"
    and xs: "\<forall>c \<in> set xs. comp_ok c"
    and ys: "\<forall>c \<in> set ys. comp_ok c"
  shows "xs = ys"
proof -
  have single: "strings_Join zs ''/'' = [] \<Longrightarrow> zs = []"
    if "\<forall>c \<in> set zs. c \<noteq> []" for zs
    using that by (cases zs rule: remdups_adj.cases) auto
  have dot: "strings_Join zs ''/'' \<noteq> ''.''"
    if "\<forall>c \<in> set zs. comp_ok c" for zs
  proof
    assume "strings_Join zs ''/'' = ''.''"
    with that show False
      by (cases zs rule: remdups_adj.cases) (auto simp: append_eq_Cons_conv comp_ok_def)
  qed
  have slash: "\<forall>w \<in> set zs. CHR ''/'' \<notin> set w" "\<forall>c \<in> set zs. c \<noteq> []"
    if "\<forall>c \<in> set zs. comp_ok c" for zs
    using that by (simp_all add: comp_ok_def)
  have empty: "render_path r zs = render_path r [] \<Longrightarrow> zs = []" if "\<forall>c \<in> set zs. comp_ok c" for zs
    using single[OF slash(2)[OF that]] dot[OF that] by (auto simp: render_path_def split: if_splits)
  show ?thesis
  proof (cases "xs = [] \<or> ys = []")
    case True
    with eq empty[OF xs] empty[OF ys] show ?thesis by auto
  next
    case False
    with eq have "strings_Join xs ''/'' = strings_Join ys ''/''"
      by (simp add: render_path_def split: if_splits)
    with False show ?thesis
      using strings_Join_inj slash(1)[OF xs] slash(1)[OF ys] by blast
  qed
qed

lemma strings_Join_append:
  "xs \<noteq> [] \<Longrightarrow> ys \<noteq> [] \<Longrightarrow> strings_Join (xs @ ys) sep = strings_Join xs sep @ sep @ strings_Join ys sep"
  by (induction xs sep rule: strings_Join.induct) (simp_all add: strings_Join_Cons)

text \<open>Joining plain components below a root only appends them to the cleaned root.\<close>

lemma filepath_Join_plain:
  assumes "root \<noteq> []" "\<forall>c \<in> set cs. plain_comp c"
  shows "filepath_Join (root # cs) =
    render_path (rooted root) (clean_comps (rooted root) (splitOn (CHR ''/'') root) @ cs)"
proof (cases "cs = []")
  case True
  with assms show ?thesis by (simp add: filepath_Join_def filepath_Clean_def)
next
  case False
  let ?j = "strings_Join (root # cs) ''/''"
  from False have j: "?j = root @ CHR ''/'' # strings_Join cs ''/''"
    by (simp add: strings_Join_Cons)
  with assms have ne: "?j \<noteq> []" "rooted ?j = rooted root" by (simp_all add: rooted_def)
  have "splitOn (CHR ''/'') ?j = splitOn (CHR ''/'') root @ cs"
    using False assms(2) by (simp add: j splitOn_append_full splitOn_Join plain_comp_no_slash)
  with ne assms show ?thesis
    by (simp add: filepath_Join_def filepath_Clean_def clean_comps_append_plain)
qed

text \<open>The parent of a path is shorter than the path, or it is the root or the current directory.\<close>

definition comps_size :: "string list \<Rightarrow> nat" where
  "comps_size cs = sum_list (map (\<lambda>c. Suc (length c)) cs)"

lemma clean_step_choice: "clean_step r st c \<in> {st, c # st, tl st}"
proof (cases "c = ''..''")
  case True
  then show ?thesis
    by (cases st) (simp_all only: clean_step.simps list.case list.sel, simp_all)
next
  case False
  then show ?thesis by (simp only: clean_step.simps if_False split: if_split) simp
qed

lemma clean_step_Nil: "clean_step r st [] = st"
  by (simp only: clean_step.simps) simp

lemma comps_size_rev: "comps_size (rev xs) = comps_size xs"
  by (induction xs) (simp_all add: comps_size_def)

lemma comps_size_tl: "comps_size (tl st) \<le> comps_size st"
  by (cases st) (simp_all add: comps_size_def)

lemma comps_size_filter: "comps_size (filter P xs) \<le> comps_size xs"
  by (induction xs) (auto simp: comps_size_def)

lemma comps_size_clean: "comps_size (clean_comps r cs) \<le> comps_size (filter (\<lambda>c. c \<noteq> []) cs)"
proof -
  have "comps_size (foldl (clean_step r) st cs) \<le> comps_size st + comps_size (filter (\<lambda>c. c \<noteq> []) cs)" for st
  proof (induction cs arbitrary: st)
    case (Cons c cs)
    have "comps_size (clean_step r st c) \<le> comps_size st + (if c = [] then 0 else Suc (length c))"
    proof (cases "c = []")
      case False
      then show ?thesis
        using clean_step_choice[of r st c] comps_size_tl[of st] by (auto simp: comps_size_def)
    qed (simp add: clean_step_Nil)
    with Cons[of "clean_step r st c"] show ?case
      by (auto simp: comps_size_def split: if_splits)
  qed (simp add: comps_size_def)
  from this[of "[]"] show ?thesis
    by (simp add: clean_comps_def comps_size_rev) (simp add: comps_size_def)
qed

lemma length_Join_slash: "cs \<noteq> [] \<Longrightarrow> Suc (length (strings_Join cs ''/'')) = comps_size cs"
  by (induction cs "''/''" rule: strings_Join.induct) (simp_all add: comps_size_def)

lemma filepath_Dir_cases:
  "length (filepath_Dir p) < length p \<or> filepath_Dir p = ''.'' \<or> filepath_Dir p = ''/''"
proof (cases "upto_slash p = [] \<or> upto_slash p = ''/''")
  case True
  then show ?thesis
    by (auto simp: filepath_Dir_def filepath_Clean_def rooted_def render_path_def clean_comps_def
        clean_step_Nil)
next
  case False
  let ?u = "upto_slash p"
  let ?cs = "clean_comps (rooted ?u) (splitOn (CHR ''/'') ?u)"
  let ?ne = "filter (\<lambda>c. c \<noteq> []) (splitOn (CHR ''/'') ?u)"
  let ?r = "dropWhile (\<lambda>c. c \<noteq> CHR ''/'') (rev p)"
  from False have r: "?r \<noteq> []" by (simp add: upto_slash_def)
  with hd_dropWhile[OF r] have "?r = CHR ''/'' # tl ?r" by (cases ?r) auto
  then have "?u = rev (tl ?r) @ ''/''" unfolding upto_slash_def by (metis rev.simps(2))
  with False obtain v where u: "?u = v @ ''/''" and v: "v \<noteq> []" by auto
  have sp: "splitOn (CHR ''/'') ?u = splitOn (CHR ''/'') v @ [[]]"
    using splitOn_append_full[of "CHR ''/''" v "[]"] by (simp add: u)
  have size_v: "comps_size (splitOn (CHR ''/'') v) = Suc (length v)"
    using length_Join_slash[of "splitOn (CHR ''/'') v"] by simp
  have ne: "comps_size ?ne + (if rooted ?u then 1 else 0) \<le> Suc (length v)"
  proof (cases "rooted ?u")
    case True
    with u v obtain v' where v': "v = CHR ''/'' # v'" by (cases v) (auto simp: rooted_def)
    from comps_size_filter[of "\<lambda>c. c \<noteq> []" "splitOn (CHR ''/'') v'"] size_v True show ?thesis
      unfolding sp v' by (simp add: comps_size_def)
  next
    case False
    from comps_size_filter[of "\<lambda>c. c \<noteq> []" "splitOn (CHR ''/'') v"] size_v False show ?thesis
      unfolding sp by simp
  qed
  have "length (filepath_Clean ?u) < length ?u"
  proof (cases "?cs = []")
    case True
    with u v show ?thesis by (cases v) (auto simp: filepath_Clean_def render_path_def)
  next
    case cs: False
    have "comps_size ?cs \<le> comps_size ?ne" by (rule comps_size_clean)
    with ne length_Join_slash[OF cs] cs u show ?thesis
      by (auto simp: filepath_Clean_def render_path_def split: if_splits)
  qed
  moreover have "length ?u \<le> length p"
    unfolding upto_slash_def by (metis length_dropWhile_le length_rev)
  ultimately show ?thesis by (simp add: filepath_Dir_def)
qed

text \<open>The parents of an absolute path are its prefixes.\<close>

lemma clean_comps_rooted_plain:
  assumes "\<forall>c \<in> set cs. CHR ''/'' \<notin> set c"
  shows "\<forall>c \<in> set (clean_comps True cs). plain_comp c"
proof -
  have step: "\<forall>c \<in> set (clean_step True st c). plain_comp c"
    if "\<forall>c \<in> set st. plain_comp c" "CHR ''/'' \<notin> set c" for st c
  proof (cases "c = ''..''")
    case True
    with that(1) show ?thesis
      by (cases st) (simp_all only: clean_step.simps, simp_all add: plain_comp_def)
  next
    case False
    with that show ?thesis
      by (simp only: clean_step.simps if_False split: if_split) (simp add: plain_comp_def)
  qed
  have "\<forall>c \<in> set (foldl (clean_step True) st cs). plain_comp c"
    if "\<forall>c \<in> set st. plain_comp c" for st
    using assms that
  proof (induction cs arbitrary: st)
    case (Cons c cs)
    then show ?case using step[of st c] by simp
  qed simp
  from this[of "[]"] show ?thesis by (simp add: clean_comps_def)
qed

lemma upto_slash_append: "CHR ''/'' \<notin> set c \<Longrightarrow> upto_slash (u @ ''/'' @ c) = u @ ''/''"
proof -
  assume "CHR ''/'' \<notin> set c"
  then have "dropWhile (\<lambda>x. x \<noteq> CHR ''/'') (rev c @ CHR ''/'' # rev u) = CHR ''/'' # rev u"
    by (subst dropWhile_append2) auto
  then show ?thesis by (simp add: upto_slash_def)
qed

lemma Clean_render_slash:
  assumes "\<forall>c \<in> set cs. plain_comp c"
  shows "filepath_Clean (render_path True cs @ ''/'') = render_path True cs"
proof -
  have "splitOn (CHR ''/'') (render_path True cs @ ''/'') = splitOn (CHR ''/'') (render_path True cs) @ [[]]"
    using splitOn_append_full[of "CHR ''/''" "render_path True cs" "[]"] by simp
  moreover have "splitOn (CHR ''/'') (render_path True cs) = [] # (if cs = [] then [[]] else cs)"
    using assms by (auto simp: render_path_def splitOn_Join plain_comp_no_slash)
  ultimately have "filter (\<lambda>c. c \<noteq> []) (splitOn (CHR ''/'') (render_path True cs @ ''/'')) = cs"
    using assms by (auto simp: plain_comp_def intro!: filter_True)
  then have "clean_comps True (splitOn (CHR ''/'') (render_path True cs @ ''/'')) = clean_comps True ([] @ cs)"
    by (metis append_Nil clean_comps_skip_empty)
  also have "\<dots> = cs" using assms by (subst clean_comps_append_plain) (simp_all add: clean_comps_def)
  finally show ?thesis by (simp add: filepath_Clean_def rooted_def render_path_def)
qed

lemma Dir_render:
  assumes "\<forall>c \<in> set (cs @ [c]). plain_comp c"
  shows "filepath_Dir (render_path True (cs @ [c])) = render_path True cs"
proof (cases "cs = []")
  case True
  have "upto_slash ([] @ ''/'' @ c) = [] @ ''/''"
    using assms by (intro upto_slash_append) (simp add: plain_comp_no_slash)
  with True show ?thesis
    by (simp add: filepath_Dir_def render_path_def filepath_Clean_def rooted_def clean_comps_def clean_step_Nil)
next
  case False
  have r: "render_path True (cs @ [c]) = render_path True cs @ ''/'' @ c"
    using False by (simp add: render_path_def strings_Join_append)
  have "upto_slash (render_path True (cs @ [c])) = render_path True cs @ ''/''"
    unfolding r using assms by (intro upto_slash_append) (simp add: plain_comp_no_slash)
  with assms show ?thesis by (simp add: filepath_Dir_def Clean_render_slash)
qed

section \<open>Laws of the file tree\<close>

lemma node_at_set [simp]: "node_at (set_node p n w) q = (if q = p then Some n else node_at w q)"
  by (simp add: node_at_def set_node_def)

lemma node_at_del [simp]: "node_at (del_node p w) q = (if q = p then None else node_at w q)"
  by (simp add: node_at_def del_node_def)

lemma ext_set_del [simp]: "w_ext (set_node p n w) = w_ext w" "w_ext (del_node p w) = w_ext w"
  by (simp_all add: set_node_def del_node_def)

lemma set_node_twice [simp]: "set_node p n (set_node p m w) = set_node p n w"
  by (simp add: set_node_def)

lemma create_in_plain [fs_simps]:
  "node_at w dir = Some plain_dir \<Longrightarrow>
   create_in dir p m w = (None, set_node p (File \<lparr>f_content = [], f_mode = m, f_kind = Regular fsopts_ok,
     f_read_err = None, f_locked = None\<rparr>) w)"
  by (simp add: create_in_def plain_dir_def new_file_def)

lemma os_WriteFile_create [fs_simps]:
  "node_at w p = None \<Longrightarrow> node_at w (filepath_Dir p) = Some plain_dir \<Longrightarrow>
   os_WriteFile p data m w = (None, set_node p (File \<lparr>f_content = data, f_mode = m,
     f_kind = Regular fsopts_ok, f_read_err = None, f_locked = None\<rparr>) w)"
  by (simp add: os_WriteFile_def fs_simps write_existing_def write_trunc_def fsopts_ok_def)

lemma fold_max_ge: "(x::nat) \<in> set xs \<Longrightarrow> x \<le> fold max xs a"
  and fold_max_acc: "a \<le> fold max (xs :: nat list) a"
proof -
  show acc: "a \<le> fold max (xs :: nat list) a" for a xs
  proof (induction xs arbitrary: a)
    case (Cons y ys)
    from Cons[of "max y a"] show ?case by simp
  qed simp
  show "x \<in> set xs \<Longrightarrow> x \<le> fold max xs a"
  proof (induction xs arbitrary: a)
    case (Cons y ys)
    then show ?case using acc[of "max y a" ys] by (auto intro: order_trans)
  qed simp
qed

text \<open>The temporary name is fresh.\<close>

lemma tmp_path_fresh: "node_at w (tmp_path w dir pre) = None"
proof -
  let ?m = "fold max (map (length \<circ> fst) (w_fs w)) 0"
  have "length q \<le> ?m" if "q \<in> fst ` set (w_fs w)" for q
    using that by (intro fold_max_ge) auto
  moreover have "?m < length (tmp_path w dir pre)"
    by (simp add: tmp_path_def joinPath_def)
  ultimately have "tmp_path w dir pre \<notin> fst ` set (w_fs w)" by (meson not_less)
  then show ?thesis by (simp add: node_at_def map_of_eq_None_iff)
qed

end
