(* ===== verification/Sysutil.thy ===== *)
theory Sysutil
  imports Filesystem
begin

text \<open>
  Package \<^verbatim>\<open>internal/sysutil\<close>: the rooted environment, sysctl access below \<^verbatim>\<open>/proc/sys\<close>, interface,
  distribution and memory detection, the atomic file writer and the backup of edited files.

  An operation that only reads takes the world and returns its result; one that writes returns
  the result and the new world. A command runner is a parameter of the operations that use it.
\<close>

section \<open>env.go\<close>

record Env =
  Root :: string

definition New :: Env where
  "New = \<lparr>Root = ''/''\<rparr>"

definition Path :: "Env \<Rightarrow> string list \<Rightarrow> string" where
  "Path e elem =
     (let root = Root e; root = (if root = [] then ''/'' else root)
      in filepath_Join (root # elem))"

section \<open>cmd.go\<close>

text \<open>
  \<^verbatim>\<open>sysutil.Runner\<close>: runs a command with arguments, may change the world, and returns its standard
  output and its error. \<^verbatim>\<open>ExecRunner\<close> is built on a parameter \<open>exec\<close> for the process itself, which
  returns standard output, standard error and the error of \<^verbatim>\<open>cmd.Run\<close> (a timeout is one of them).
\<close>

type_synonym 'x runner = "string \<Rightarrow> string list \<Rightarrow> 'x world \<Rightarrow> (string \<times> goerror option) \<times> 'x world"

definition ExecRunner_Run ::
  "(string \<Rightarrow> string list \<Rightarrow> 'x world \<Rightarrow> (string \<times> string \<times> goerror option) \<times> 'x world) \<Rightarrow> 'x runner" where
  "ExecRunner_Run exec name args w =
     (case exec name args w of
        ((stdout, stderr, Some err), w') \<Rightarrow>
          ((stdout, Some (CmdError (name @ '' ['' @ strings_Join args '' '' @ '']: '' @ errText err
              @ '' (stderr: '' @ stderr @ '')''))), w')
      | ((stdout, stderr, None), w') \<Rightarrow> ((stdout, None), w'))"

section \<open>procsys.go\<close>

definition SysctlPath :: "Env \<Rightarrow> string \<Rightarrow> string" where
  "SysctlPath e key =
     (let key = strings_ReplaceAll key ''..'' [];
          key = strings_ReplaceAll key ''/'' [];
          elem = splitOn (CHR ''.'') key
      in Path e ([''proc'', ''sys''] @ elem))"

definition ReadSysctl :: "Env \<Rightarrow> string \<Rightarrow> 'x world \<Rightarrow> goerror + string" where
  "ReadSysctl e key w =
     (case os_ReadFile (SysctlPath e key) w of
        Inl err \<Rightarrow> Inl err
      | Inr data \<Rightarrow> Inr (strings_TrimSpace data))"

definition WriteSysctl :: "Env \<Rightarrow> string \<Rightarrow> string \<Rightarrow> 'x world \<Rightarrow> goerror option \<times> 'x world" where
  "WriteSysctl e key value w =
     (let path = SysctlPath e key in
      case os_Stat path w of
        Some err \<Rightarrow> (Some (Errorf (''sysctl '' @ key @ '' not available on this kernel'') err), w)
      | None \<Rightarrow> os_WriteFile path value 420 w)"

definition SysctlExists :: "Env \<Rightarrow> string \<Rightarrow> 'x world \<Rightarrow> bool" where
  "SysctlExists e key w = (os_Stat (SysctlPath e key) w = None)"

section \<open>netdev.go\<close>

fun primary_loop :: "Env \<Rightarrow> 'x world \<Rightarrow> string list \<Rightarrow> string \<Rightarrow> string" where
  "primary_loop e w [] fallback = fallback"
| "primary_loop e w (name # names) fallback =
     (if name = ''lo'' then primary_loop e w names fallback
      else let fallback = (if fallback = [] then name else fallback)
           in if os_Stat (Path e [''sys'', ''class'', ''net'', name, ''device'']) w = None then name
              else primary_loop e w names fallback)"

definition PrimaryInterface :: "Env \<Rightarrow> 'x world \<Rightarrow> string" where
  "PrimaryInterface e w =
     (case os_ReadDir (Path e [''sys'', ''class'', ''net'']) w of
        Inl err \<Rightarrow> []
      | Inr entries \<Rightarrow> primary_loop e w entries [])"

section \<open>distro.go\<close>

record Distro =
  d_ID :: string
  d_VersionID :: string

definition IsAmazonLinux2 :: "Distro \<Rightarrow> bool" where
  "IsAmazonLinux2 d \<longleftrightarrow> d_ID d = ''amzn'' \<and> strings_HasPrefix (d_VersionID d) ''2''"

definition IsAmazonLinux2023 :: "Distro \<Rightarrow> bool" where
  "IsAmazonLinux2023 d \<longleftrightarrow> d_ID d = ''amzn'' \<and> strings_HasPrefix (d_VersionID d) ''2023''"

definition IsUbuntu :: "Distro \<Rightarrow> bool" where
  "IsUbuntu d \<longleftrightarrow> d_ID d = ''ubuntu''"

definition distro_line :: "string \<Rightarrow> Distro \<Rightarrow> Distro" where
  "distro_line line d =
     (case strings_Cut line (CHR ''='') of
        None \<Rightarrow> d
      | Some (key, value) \<Rightarrow>
          (let value = strings_Trim value [DQ] in
           if key = ''ID'' then d\<lparr>d_ID := value\<rparr>
           else if key = ''VERSION_ID'' then d\<lparr>d_VersionID := value\<rparr>
           else d))"

definition DetectDistro :: "Env \<Rightarrow> 'x world \<Rightarrow> Distro \<times> goerror option" where
  "DetectDistro e w =
     (let d0 = \<lparr>d_ID = [], d_VersionID = []\<rparr> in
      case os_OpenScan (Path e [''etc'', ''os-release'']) w of
        Inl err \<Rightarrow> (d0, Some err)
      | Inr (ls, serr) \<Rightarrow> (fold distro_line ls d0, serr))"

definition KernelVersion :: "Env \<Rightarrow> 'x world \<Rightarrow> goerror + string" where
  "KernelVersion e w = ReadSysctl e ''kernel.osrelease'' w"

definition CgroupV2Unified :: "Env \<Rightarrow> 'x world \<Rightarrow> bool" where
  "CgroupV2Unified e w =
     (os_Stat (Path e [''sys'', ''fs'', ''cgroup'', ''cgroup.controllers'']) w = None)"

text \<open>The error of \<^verbatim>\<open>strconv.ParseInt\<close>: out of range if the text is a number, else a syntax error.\<close>

definition numError :: "string \<Rightarrow> string \<Rightarrow> goerror" where
  "numError fn s =
     (let ds = (if s \<noteq> [] \<and> (hd s = CHR ''-'' \<or> hd s = CHR ''+'') then tl s else s) in
      ErrText (''strconv.'' @ fn @ '': parsing '' @ fmt_q s @ '': ''
        @ (if ds \<noteq> [] \<and> parse_digits dec_val 10 0 ds \<noteq> None then ''value out of range''
           else ''invalid syntax'')))"

fun meminfo_loop :: "string list \<Rightarrow> goerror option \<Rightarrow> goerror + int" where
  "meminfo_loop [] serr = (case serr of Some err \<Rightarrow> Inl err | None \<Rightarrow> Inr 0)"
| "meminfo_loop (l # ls) serr =
     (let fields = strings_Fields l in
      if 2 \<le> length fields \<and> fields ! 0 = ''MemTotal:'' then
        (case strconv_Atoi (fields ! 1) of
           Some v \<Rightarrow> Inr v
         | None \<Rightarrow> Inl (numError ''ParseInt'' (fields ! 1)))
      else meminfo_loop ls serr)"

definition ParseMemInfoTotalKiB :: "Env \<Rightarrow> 'x world \<Rightarrow> goerror + int" where
  "ParseMemInfoTotalKiB e w =
     (case os_OpenScan (Path e [''proc'', ''meminfo'']) w of
        Inl err \<Rightarrow> Inl err
      | Inr (ls, serr) \<Rightarrow> meminfo_loop ls serr)"

section \<open>atomic.go\<close>

definition ReadFileString :: "string \<Rightarrow> 'x world \<Rightarrow> goerror + string" where
  "ReadFileString path w = os_ReadFile path w"

text \<open>
  \<^verbatim>\<open>WriteFileIfChanged\<close>, in the order of the source: the comparison, the parent directory and the
  temporary file (\<open>write_atomic\<close>), and the steps on the temporary file (\<open>install_tmp\<close>), whose
  deferred removal runs on every path.
\<close>

definition install_tmp :: "string \<Rightarrow> string \<Rightarrow> string \<Rightarrow> nat \<Rightarrow> 'x world \<Rightarrow> (goerror + bool) \<times> 'x world" where
  "install_tmp tmp path content mode w =
     (case tmp_Write tmp content w of
        (Some err, w1) \<Rightarrow> (Inl (Errorf (''writing temp file for '' @ path) err), w1)
      | (None, w1) \<Rightarrow>
      (case tmp_Chmod tmp mode w1 of
        (Some err, w2) \<Rightarrow> (Inl (Errorf (''chmod temp file for '' @ path) err), w2)
      | (None, w2) \<Rightarrow>
      (case tmp_Close tmp w2 of
        Some err \<Rightarrow> (Inl (Errorf (''closing temp file for '' @ path) err), w2)
      | None \<Rightarrow>
      (case os_Rename tmp path w2 of
        (Some err, w3) \<Rightarrow> (Inl (Errorf (''renaming temp file into '' @ path) err), w3)
      | (None, w3) \<Rightarrow> (Inr True, w3)))))"

definition write_atomic :: "string \<Rightarrow> string \<Rightarrow> nat \<Rightarrow> 'x world \<Rightarrow> (goerror + bool) \<times> 'x world" where
  "write_atomic path content mode w =
     (case os_MkdirAll (filepath_Dir path) w of
        (Some err, w1) \<Rightarrow> (Inl (Errorf (''creating parent dir for '' @ path) err), w1)
      | (None, w1) \<Rightarrow>
      (case os_CreateTemp (filepath_Dir path) (''.'' @ filepath_Base path @ ''.tmp-'') w1 of
        (Inl err, w2) \<Rightarrow> (Inl (Errorf (''creating temp file for '' @ path) err), w2)
      | (Inr tmp, w2) \<Rightarrow>
          (let (r, w3) = install_tmp tmp path content mode w2 in (r, os_Remove tmp w3))))"

definition WriteFileIfChanged :: "string \<Rightarrow> string \<Rightarrow> nat \<Rightarrow> 'x world \<Rightarrow> (goerror + bool) \<times> 'x world" where
  "WriteFileIfChanged path content mode w =
     (case os_ReadFile path w of
        Inr existing \<Rightarrow>
          if existing = content then (Inr False, w) else write_atomic path content mode w
      | Inl err \<Rightarrow>
          if \<not> os_IsNotExist err then (Inl (Errorf (''reading '' @ path) err), w)
          else write_atomic path content mode w)"

definition backupPath :: "string \<Rightarrow> string" where
  "backupPath path = path @ ''.node-configurator.orig''"

definition BackupFile :: "string \<Rightarrow> 'x world \<Rightarrow> goerror option \<times> 'x world" where
  "BackupFile path w =
     (case os_ReadFile path w of
        Inl err \<Rightarrow>
          if os_IsNotExist err then (None, w)
          else (Some (Errorf (''reading '' @ path @ '' for backup'') err), w)
      | Inr data \<Rightarrow>
          (if os_Stat (backupPath path) w = None then (None, w)
           else os_WriteFile (backupPath path) data 420 w))"

section \<open>What an operation leaves alone\<close>

text \<open>
  \<open>only_touches P w w'\<close>: going from \<open>w\<close> to \<open>w'\<close> changed no node outside \<open>P\<close>, except that missing
  parent directories of files in \<open>P\<close> were made. It is the frame condition of every writing
  operation; \<open>up_chain p\<close> is \<open>p\<close> with the directories above it.
\<close>

definition up_chain :: "string \<Rightarrow> string set" where
  "up_chain p = {q. \<exists>n. q = (filepath_Dir ^^ n) p}"

definition made_dir :: "node option \<Rightarrow> node option \<Rightarrow> bool" where
  "made_dir a b \<longleftrightarrow> a = None \<and> (\<exists>d. b = Some (Dir d))"

definition only_touches :: "string set \<Rightarrow> 'x world \<Rightarrow> 'x world \<Rightarrow> bool" where
  "only_touches P w w' \<longleftrightarrow>
     w_ext w' = w_ext w \<and>
     (\<forall>q. q \<notin> P \<longrightarrow> node_at w' q = node_at w q \<or>
        (\<exists>p \<in> P. q \<in> up_chain p) \<and> made_dir (node_at w q) (node_at w' q))"

text \<open>The stricter frame of an operation that makes no directories.\<close>

definition only_writes :: "string set \<Rightarrow> 'x world \<Rightarrow> 'x world \<Rightarrow> bool" where
  "only_writes P w w' \<longleftrightarrow> w_ext w' = w_ext w \<and> (\<forall>q. q \<notin> P \<longrightarrow> node_at w' q = node_at w q)"

lemma only_writes_refl [simp, intro]: "only_writes P w w"
  by (simp add: only_writes_def)

lemma only_writes_trans [trans]:
  "only_writes P u v \<Longrightarrow> only_writes P v w \<Longrightarrow> only_writes P u w"
  by (simp add: only_writes_def)

lemma only_writes_mono: "only_writes P u v \<Longrightarrow> P \<subseteq> Q \<Longrightarrow> only_writes Q u v"
  unfolding only_writes_def by blast

lemma only_writes_set [intro]: "p \<in> P \<Longrightarrow> only_writes P w (set_node p n w)"
  by (auto simp: only_writes_def)

lemma only_writes_touches: "only_writes P w w' \<Longrightarrow> only_touches P w w'"
  by (simp add: only_writes_def only_touches_def)

lemma only_writes_node: "only_writes P w w' \<Longrightarrow> q \<notin> P \<Longrightarrow> node_at w' q = node_at w q"
  by (simp add: only_writes_def)

lemma os_ReadFile_cong:
  "node_at w' p = node_at w p \<Longrightarrow> (os_ReadFile p w' = Inr c) = (os_ReadFile p w = Inr c)"
  by (simp add: os_ReadFile_def split: option.splits node.splits)

lemma os_Stat_cong: "node_at w' p = node_at w p \<Longrightarrow> (os_Stat p w' = None) = (os_Stat p w = None)"
  by (simp add: os_Stat_def split: option.splits)

lemma up_chain_self [simp, intro]: "p \<in> up_chain p"
  unfolding up_chain_def by (auto intro: exI[of _ 0])

lemma up_chain_Dir: "q \<in> up_chain (filepath_Dir p) \<Longrightarrow> q \<in> up_chain p"
  unfolding up_chain_def by (auto simp: funpow_swap1 intro: exI[of _ "Suc n" for n])

lemma only_touches_refl [simp, intro]: "only_touches P w w"
  by (simp add: only_touches_def)

lemma only_touches_trans [trans]:
  "only_touches P u v \<Longrightarrow> only_touches P v w \<Longrightarrow> only_touches P u w"
  unfolding only_touches_def made_dir_def by (metis option.distinct(1))

lemma only_touches_mono: "only_touches P u v \<Longrightarrow> P \<subseteq> Q \<Longrightarrow> only_touches Q u v"
  unfolding only_touches_def by blast

lemma only_touches_set [intro]: "p \<in> P \<Longrightarrow> only_touches P w (set_node p n w)"
  by (auto simp: only_touches_def)

lemma only_touches_node:
  "only_touches P w w' \<Longrightarrow> node_at w q = Some n \<Longrightarrow> q \<notin> P \<Longrightarrow> node_at w' q = Some n"
  by (auto simp: only_touches_def made_dir_def)

lemma only_touches_same:
  "only_touches P w w' \<Longrightarrow> \<forall>p \<in> P. q \<notin> up_chain p \<Longrightarrow> node_at w' q = node_at w q"
  unfolding only_touches_def by (metis up_chain_self)

lemma only_touches_read:
  "only_touches P w w' \<Longrightarrow> os_ReadFile q w = Inr c \<Longrightarrow> q \<notin> P \<Longrightarrow> os_ReadFile q w' = Inr c"
  by (auto simp: os_ReadFile_def split: option.splits node.splits dest: only_touches_node)

lemma only_touches_scan:
  assumes "only_touches P w w'" "os_OpenScan q w = Inr x" "q \<notin> P"
  shows "os_OpenScan q w' = Inr x"
proof -
  from assms(2) obtain n where n: "node_at w q = Some n"
    by (auto simp: os_OpenScan_def split: option.splits)
  from only_touches_node[OF assms(1) n assms(3)] n assms(2) show ?thesis
    by (simp add: os_OpenScan_def)
qed

lemma os_OpenScan_cong: "node_at w' p = node_at w p \<Longrightarrow> (os_OpenScan p w' = Inr x) = (os_OpenScan p w = Inr x)"
  by (simp add: os_OpenScan_def split: option.splits node.splits)

text \<open>Making directories only adds directories along the chain.\<close>

lemma os_MkdirAll_chain:
  "os_MkdirAll p w = (r, w') \<Longrightarrow> w_ext w' = w_ext w \<and>
   (node_at w' q = node_at w q \<or> q \<in> up_chain p \<and> made_dir (node_at w q) (node_at w' q))"
proof (induction p w arbitrary: r w' rule: os_MkdirAll.induct)
  case (1 p w)
  show ?case
  proof (cases "node_at w p")
    case None
    show ?thesis
    proof (cases "length (filepath_Dir p) < length p")
      case True
      obtain r1 w1 where m: "os_MkdirAll (filepath_Dir p) w = (r1, w1)" by force
      have IH: "w_ext w1 = w_ext w" "node_at w1 q = node_at w q \<or>
          q \<in> up_chain p \<and> made_dir (node_at w q) (node_at w1 q)"
        using "1.IH"[OF None refl True m] up_chain_Dir by blast+
      from "1.prems" None True m have "w' = w1 \<or> (\<exists>d. w' = set_node p (Dir d) w1)"
        by (auto simp: os_MkdirAll.simps[of p w] split: option.splits node.splits)
      then show ?thesis
      proof
        assume "\<exists>d. w' = set_node p (Dir d) w1"
        with IH None show ?thesis by (cases "q = p") (auto simp: made_dir_def)
      qed (use IH in simp)
    next
      case False
      with "1.prems" None show ?thesis by (simp add: os_MkdirAll.simps[of p w])
    qed
  next
    case (Some n)
    with "1.prems" show ?thesis by (cases n) (simp_all add: os_MkdirAll.simps[of p w])
  qed
qed

lemma os_MkdirAll_touches: "os_MkdirAll p w = (r, w') \<Longrightarrow> only_touches {p} w w'"
  using os_MkdirAll_chain[of p w r w'] by (simp add: only_touches_def)

lemma os_MkdirAll_Dir_touches: "os_MkdirAll (filepath_Dir p) w = (r, w') \<Longrightarrow> only_touches {p} w w'"
  using os_MkdirAll_chain[of "filepath_Dir p" w r w'] up_chain_Dir by (auto simp: only_touches_def)

lemma os_MkdirAll_longer:
  "os_MkdirAll q w = (r, w') \<Longrightarrow> length q < length p \<Longrightarrow> node_at w' p = node_at w p"
proof (induction q w arbitrary: r w' rule: os_MkdirAll.induct)
  case (1 q w)
  show ?case
  proof (cases "node_at w q")
    case None
    show ?thesis
    proof (cases "length (filepath_Dir q) < length q")
      case True
      obtain r1 w1 where m: "os_MkdirAll (filepath_Dir q) w = (r1, w1)" by force
      have "node_at w1 p = node_at w p"
        using "1.IH"[OF None refl True m] True "1.prems"(2) by simp
      with "1.prems" None True m show ?thesis
        by (auto simp: os_MkdirAll.simps[of q w] split: option.splits node.splits)
    next
      case False
      with "1.prems" None show ?thesis by (simp add: os_MkdirAll.simps[of q w])
    qed
  next
    case (Some n)
    with "1.prems" show ?thesis by (cases n) (simp_all add: os_MkdirAll.simps[of q w])
  qed
qed

lemma Dir_dot_slash: "filepath_Dir ''.'' = ''.''" "filepath_Dir ''/'' = ''/''"
  by (simp_all add: filepath_Dir_def upto_slash_def filepath_Clean_def rooted_def render_path_def
      clean_comps_def clean_step_Nil)

lemma os_MkdirAll_parent:
  assumes "os_MkdirAll (filepath_Dir p) w = (r, w')"
  shows "node_at w' p = node_at w p"
proof (cases "length (filepath_Dir p) < length p")
  case True
  with assms show ?thesis by (rule os_MkdirAll_longer)
next
  case False
  with filepath_Dir_cases[of p] have "filepath_Dir p = ''.'' \<or> filepath_Dir p = ''/''" by blast
  then have "filepath_Dir (filepath_Dir p) = filepath_Dir p" by (auto simp: Dir_dot_slash)
  with assms show ?thesis
    by (auto simp: os_MkdirAll.simps[of "filepath_Dir p" w] split: option.splits node.splits)
qed

text \<open>A temporary file is never the file it stands in for.\<close>

lemma Base_of_suffix:
  assumes "last n \<noteq> CHR ''/''" "n \<noteq> []" "length (filepath_Base (x @ n)) < length n"
  shows "CHR ''/'' \<in> set n"
proof (rule ccontr)
  assume no: "CHR ''/'' \<notin> set n"
  let ?P = "\<lambda>c. c \<noteq> CHR ''/''"
  have n: "n = butlast n @ [last n]" using assms(2) by simp
  have dw: "dropWhile (\<lambda>c. c = CHR ''/'') (rev (x @ n)) = rev (x @ n)"
    by (subst (1 2) n) (simp add: assms(1))
  have tw: "takeWhile ?P (rev (x @ n)) = rev n @ takeWhile ?P (rev x)"
    using no by (auto simp: takeWhile_append)
  have "filepath_Base (x @ n) = rev (takeWhile ?P (rev (x @ n)))"
    unfolding filepath_Base_def Let_def dw rev_rev_ident tw using assms(2) by simp
  with tw assms(3) show False by simp
qed

lemma Base_no_slash: "p \<noteq> [] \<Longrightarrow> last p \<noteq> CHR ''/'' \<Longrightarrow> CHR ''/'' \<notin> set (filepath_Base p)"
  by (cases p rule: rev_cases) (auto simp: filepath_Base_def Let_def dest: set_takeWhileD)

lemma tmp_path_neq: "tmp_path w dir (''.'' @ filepath_Base p @ ''.tmp-'') \<noteq> p"
proof
  let ?z = "replicate (Suc (fold max (map (length \<circ> fst) (w_fs w)) 0)) (CHR ''0'')"
  let ?n = "(''.'' @ filepath_Base p @ ''.tmp-'') @ ?z"
  assume eq: "tmp_path w dir (''.'' @ filepath_Base p @ ''.tmp-'') = p"
  have z: "?z \<noteq> []" "last ?z = CHR ''0''" by (simp_all only: last_replicate) simp_all
  have n: "?n \<noteq> []" "last ?n = CHR ''0''"
    using z(2) last_appendR[OF z(1)] by (simp, metis)
  from eq obtain x where p: "x @ ?n = p"
    unfolding tmp_path_def joinPath_def by (metis append.assoc)
  with n have last: "p \<noteq> []" "last p = CHR ''0''" by (metis append_is_Nil_conv, metis last_appendR)
  have "CHR ''/'' \<in> set ?n"
    by (rule Base_of_suffix[of _ x]) (use n p in \<open>simp_all del: replicate_Suc\<close>)
  then have "CHR ''/'' \<in> set (filepath_Base p)" by (auto simp del: replicate_Suc)
  with last Base_no_slash[of p] show False by simp
qed

lemma create_in_fail: "create_in dir p m w = (Some e, w') \<Longrightarrow> w' = w"
  by (auto simp: create_in_def split: option.splits node.splits)

lemma create_in_ok:
  "create_in dir p m w = (None, w') \<Longrightarrow> \<exists>d. w' = set_node p (File (new_file d m)) w"
  by (auto simp: create_in_def split: option.splits node.splits)

lemma CreateTemp_fail: "os_CreateTemp dir pre w = (Inl e, w') \<Longrightarrow> w' = w"
  by (auto simp: os_CreateTemp_def Let_def split: prod.splits option.splits dest: create_in_fail)

lemma CreateTemp_ok:
  assumes "os_CreateTemp dir pre w = (Inr tmp, w')"
  shows "tmp = tmp_path w dir pre \<and> (\<exists>d. w' = set_node tmp (File (new_file d 384)) w)"
  using assms
  by (auto simp: os_CreateTemp_def Let_def split: prod.splits option.splits dest: create_in_ok)

text \<open>The steps on the temporary file touch only it, until the rename replaces the target.\<close>

lemma install_tmp_cases:
  assumes tmp: "node_at w tmp = Some (File f)" "f_kind f = Regular opts"
    and r: "install_tmp tmp path content mode w = (r, w')"
  shows "(\<exists>e. r = Inl e \<and> (\<exists>f'. node_at w' tmp = Some (File f')) \<and> w_ext w' = w_ext w \<and>
            (\<forall>q. q \<noteq> tmp \<longrightarrow> node_at w' q = node_at w q)) \<or>
         (r = Inr True \<and> w_ext w' = w_ext w \<and>
            (\<forall>q. node_at w' q =
               (if q = path then Some (File (f\<lparr>f_content := content, f_mode := mode\<rparr>))
                else if q = tmp then None else node_at w q)))"
  using tmp r
  by (cases "node_at w path"; cases "path = tmp")
    (auto simp: install_tmp_def tmp_Write_def tmp_Chmod_def tmp_Close_def tmp_opts_def upd_file_def
      os_Rename_def Let_def split: option.splits node.splits)

text \<open>The atomic write: on an error the target is as before, otherwise it is a fresh regular file.\<close>

definition fresh_file :: "string \<Rightarrow> nat \<Rightarrow> fnode \<Rightarrow> bool" where
  "fresh_file content mode f \<longleftrightarrow>
     f_content f = content \<and> f_mode f = mode \<and> f_read_err f = None \<and> f_locked f = None \<and>
     (\<exists>opts. f_kind f = Regular opts)"

lemma write_atomic_cases:
  assumes "write_atomic path content mode w = (r, w')"
  shows "only_touches {path} w w' \<and>
    ((\<exists>e. r = Inl e \<and> node_at w' path = node_at w path) \<or>
     (r = Inr True \<and> (\<exists>f. node_at w' path = Some (File f) \<and> fresh_file content mode f)))"
proof -
  let ?dir = "filepath_Dir path"
  obtain r1 w1 where m: "os_MkdirAll ?dir w = (r1, w1)" by force
  note t1 = os_MkdirAll_Dir_touches[OF m] and p1 = os_MkdirAll_parent[OF m]
  show ?thesis
  proof (cases r1)
    case (Some e)
    with assms m t1 p1 show ?thesis
      by (auto simp: write_atomic_def intro: only_touches_mono)
  next
    case None
    let ?pre = "''.'' @ filepath_Base path @ ''.tmp-''"
    obtain r2 w2 where c: "os_CreateTemp ?dir ?pre w1 = (r2, w2)" by force
    show ?thesis
    proof (cases r2)
      case (Inl e)
      with assms m None c have "w' = w1" "\<exists>e. r = Inl e"
        by (auto simp: write_atomic_def dest: CreateTemp_fail)
      with t1 p1 show ?thesis by (auto intro: only_touches_mono)
    next
      case (Inr tmp)
      from CreateTemp_ok[OF c[unfolded Inr]] obtain d where
        tmp: "tmp = tmp_path w1 ?dir ?pre" and w2: "w2 = set_node tmp (File (new_file d 384)) w1"
        by blast
      have fresh: "node_at w1 tmp = None" and neq: "tmp \<noteq> path"
        unfolding tmp by (rule tmp_path_fresh, rule tmp_path_neq)
      obtain r3 w3 where i: "install_tmp tmp path content mode w2 = (r3, w3)" by force
      with assms m None c Inr have w': "r = r3" "w' = os_Remove tmp w3"
        by (auto simp: write_atomic_def)
      have f2: "node_at w2 tmp = Some (File (new_file d 384))" "f_kind (new_file d 384) = Regular (d_opts d)"
        by (simp_all add: w2 new_file_def)
      from install_tmp_cases[OF f2 i] have
        "(\<exists>e. r = Inl e) \<and> (\<forall>q. node_at w' q = node_at w1 q) \<and> w_ext w' = w_ext w1 \<or>
         r = Inr True \<and> w_ext w' = w_ext w1 \<and>
         (\<forall>q. node_at w' q = (if q = path then
            Some (File ((new_file d 384)\<lparr>f_content := content, f_mode := mode\<rparr>)) else node_at w1 q))"
        using w' fresh neq by (auto simp: os_Remove_def w2 split: option.splits node.splits)
      with t1 p1 show ?thesis
        by (auto simp: only_touches_def fresh_file_def new_file_def)
    qed
  qed
qed

lemma WriteFileIfChanged_touches:
  "WriteFileIfChanged path content mode w = (r, w') \<Longrightarrow> only_touches {path} w w'"
  using write_atomic_cases[of path content mode w r w']
  by (auto simp: WriteFileIfChanged_def split: sum.splits if_splits)

lemma WriteFileIfChanged_ok:
  "WriteFileIfChanged path content mode w = (Inr b, w') \<Longrightarrow> os_ReadFile path w' = Inr content"
  using write_atomic_cases[of path content mode w "Inr b" w']
  by (auto simp: WriteFileIfChanged_def fresh_file_def os_ReadFile_def[of path w']
      split: sum.splits if_splits)

lemma WriteFileIfChanged_failed:
  "WriteFileIfChanged path content mode w = (Inl e, w') \<Longrightarrow> node_at w' path = node_at w path"
  using write_atomic_cases[of path content mode w "Inl e" w']
  by (auto simp: WriteFileIfChanged_def split: sum.splits if_splits)

lemma WriteFileIfChanged_same:
  "os_ReadFile path w = Inr content \<Longrightarrow> WriteFileIfChanged path content mode w = (Inr False, w)"
  by (simp add: WriteFileIfChanged_def)

text \<open>
  C2. Whatever fails while \<^verbatim>\<open>WriteFileIfChanged\<close> runs, the target file is never seen half written: on
  an error its node is exactly the old one. On success it reads back as the wanted content, the
  reported flag says whether it differed before, and a second call writes nothing. In both cases
  no other file changes, no temporary file is left, and at most missing directories are made.
\<close>

theorem WriteFileIfChanged_atomic:
  "case WriteFileIfChanged path content mode w of
     (Inl e, w') \<Rightarrow> node_at w' path = node_at w path \<and> only_touches {path} w w'
   | (Inr changed, w') \<Rightarrow>
       os_ReadFile path w' = Inr content \<and>
       changed = (os_ReadFile path w \<noteq> Inr content) \<and>
       WriteFileIfChanged path content mode w' = (Inr False, w') \<and>
       only_touches {path} w w'"
proof (cases "WriteFileIfChanged path content mode w")
  case (Pair r w')
  note touches = WriteFileIfChanged_touches[OF Pair]
  show ?thesis
  proof (cases r)
    case (Inl e)
    with Pair touches show ?thesis by (simp add: WriteFileIfChanged_failed)
  next
    case (Inr b)
    with Pair have read: "os_ReadFile path w' = Inr content" by (simp add: WriteFileIfChanged_ok)
    have "b = (os_ReadFile path w \<noteq> Inr content)"
      using Pair Inr write_atomic_cases[of path content mode w r w']
      by (auto simp: WriteFileIfChanged_def split: sum.splits if_splits)
    with Pair Inr touches read show ?thesis
      by (simp add: WriteFileIfChanged_same)
  qed
qed


section \<open>Backups\<close>

lemma os_WriteFile_writes: "os_WriteFile p data m w = (r, w') \<Longrightarrow> only_writes {p} w w'"
  by (auto simp: os_WriteFile_def write_existing_def only_writes_def create_in_def
      split: option.splits node.splits prod.splits if_splits)

lemma os_WriteFile_touches: "os_WriteFile p data m w = (r, w') \<Longrightarrow> only_touches {p} w w'"
  by (rule only_writes_touches) (rule os_WriteFile_writes)

lemma write_existing_regular:
  assumes "write_existing p data f w = (None, w')" "f_kind f = Regular opts"
  shows "node_at w' p = Some (File (f\<lparr>f_content := data\<rparr>))"
  using assms by (auto simp: write_existing_def write_trunc_def split: option.splits prod.splits)

lemma os_WriteFile_new:
  assumes "os_WriteFile p data m w = (None, w')" "node_at w p = None"
  shows "os_ReadFile p w' = Inr data"
proof -
  from assms obtain w1 where c: "create_in (filepath_Dir p) p m w = (None, w1)"
    by (auto simp: os_WriteFile_def split: prod.splits option.splits)
  then obtain d where w1: "w1 = set_node p (File (new_file d m)) w" by (auto dest: create_in_ok)
  with assms c have "write_existing p data (new_file d m) w1 = (None, w')"
    by (simp add: os_WriteFile_def)
  then have "node_at w' p = Some (File ((new_file d m)\<lparr>f_content := data\<rparr>))"
    by (rule write_existing_regular) (simp add: new_file_def)
  then show ?thesis by (simp add: os_ReadFile_def new_file_def)
qed

lemma backupPath_neq: "backupPath p \<noteq> p"
  by (simp add: backupPath_def)

lemma BackupFile_touches: "BackupFile path w = (r, w') \<Longrightarrow> only_touches {backupPath path} w w'"
  by (auto simp: BackupFile_def split: sum.splits if_splits dest: os_WriteFile_touches)

lemma os_Stat_None: "os_Stat p w = None \<longleftrightarrow> node_at w p \<noteq> None"
  by (auto simp: os_Stat_def split: option.splits)

lemma BackupFile_keeps: "node_at w (backupPath path) \<noteq> None \<Longrightarrow> snd (BackupFile path w) = w"
  by (auto simp: BackupFile_def os_Stat_None split: sum.splits)

lemma BackupFile_saves:
  assumes "BackupFile path w = (None, w')" "os_ReadFile path w = Inr data"
    "node_at w (backupPath path) = None"
  shows "os_ReadFile (backupPath path) w' = Inr data"
  using assms by (auto simp: BackupFile_def os_Stat_None intro: os_WriteFile_new)

text \<open>
  C33. A backup holds the content the file had before its first modification: a successful first
  \<^verbatim>\<open>BackupFile\<close> saves the content then read, and after any later change of the host that leaves the
  backup alone, calling it again changes nothing at all.
\<close>

theorem BackupFile_first_original:
  assumes "BackupFile path w = (None, w1)" "os_ReadFile path w = Inr original"
    and "node_at w (backupPath path) = None"
    and "only_touches {path} w1 w2"
  shows "os_ReadFile (backupPath path) w2 = Inr original \<and> snd (BackupFile path w2) = w2"
proof -
  have saved: "os_ReadFile (backupPath path) w1 = Inr original"
    using assms(1-3) by (rule BackupFile_saves)
  have read2: "os_ReadFile (backupPath path) w2 = Inr original"
    using only_touches_read[OF assms(4) saved] by (simp add: backupPath_neq)
  then have "node_at w2 (backupPath path) \<noteq> None"
    by (auto simp: os_ReadFile_def split: option.splits)
  with read2 show ?thesis by (simp add: BackupFile_keeps)
qed

text \<open>A small host for examples: a directory with a regular file.\<close>

definition etc_world :: "string \<Rightarrow> unit world" where
  "etc_world fstab =
     \<lparr>w_fs = [(''/'', plain_dir), (''/etc'', plain_dir), (''/etc/fstab'', regular fstab)], w_ext = ()\<rparr>"

lemma Dir_etc: "filepath_Dir (backupPath ''/etc/fstab'') = ''/etc''"
  by (simp add: backupPath_def filepath_Dir_def upto_slash_def filepath_Clean_def rooted_def
      render_path_def clean_comps_def clean_step.simps)

theorem BackupFile_first_original_witness:
  "\<exists>w1. BackupFile ''/etc/fstab'' (etc_world ''a b c'') = (None, w1) \<and>
     os_ReadFile (backupPath ''/etc/fstab'') (set_node ''/etc/fstab'' (regular ''x'') w1) = Inr ''a b c''"
proof -
  let ?w = "etc_world ''a b c''" and ?p = "''/etc/fstab''"
  let ?w1 = "snd (BackupFile ?p ?w)"
  have absent: "node_at ?w (backupPath ?p) = None"
    by (simp add: etc_world_def node_at_def backupPath_def)
  have read: "os_ReadFile ?p ?w = Inr ''a b c''"
    by (simp add: os_ReadFile_def etc_world_def node_at_def regular_def)
  have "node_at ?w (filepath_Dir (backupPath ?p)) = Some plain_dir"
    by (simp add: Dir_etc etc_world_def node_at_def)
  with absent read have "fst (BackupFile ?p ?w) = None"
    by (simp add: BackupFile_def os_Stat_None fs_simps)
  then have run: "BackupFile ?p ?w = (None, ?w1)" by (simp add: prod_eq_iff)
  have "os_ReadFile (backupPath ?p) (set_node ?p (regular ''x'') ?w1) = Inr ''a b c''"
    using BackupFile_first_original[OF run read absent, of "set_node ?p (regular ''x'') ?w1"]
    by blast
  with run show ?thesis by blast
qed

section \<open>Sysctl paths\<close>

text \<open>A sysctl key as the kernel documents them: dot-separated names, none of them empty.\<close>

definition sysctl_key :: "string \<Rightarrow> bool" where
  "sysctl_key key \<longleftrightarrow>
     CHR ''/'' \<notin> set key \<and> (\<forall>c \<in> set (splitOn (CHR ''.'') key). c \<noteq> [])"

lemma ReplaceAll_slash: "strings_ReplaceAll s ''/'' [] = filter (\<lambda>c. c \<noteq> CHR ''/'') s"
proof (induction s)
  case (Cons c s)
  then show ?case
    by (simp add: strings_ReplaceAll.simps[of "c # s"] strings_HasPrefix_def)
qed (simp add: strings_ReplaceAll.simps)

lemma root_comps_Join:
  assumes "root \<noteq> []" "\<forall>c \<in> set cs. CHR ''/'' \<notin> set c \<and> (c \<noteq> [] \<longrightarrow> plain_comp c)" "cs \<noteq> []"
  shows "filepath_Join (root # cs) =
    render_path (rooted root) (clean_comps (rooted root) (splitOn (CHR ''/'') root) @ filter (\<lambda>c. c \<noteq> []) cs)"
proof -
  let ?j = "strings_Join (root # cs) ''/''"
  have j: "?j = root @ CHR ''/'' # strings_Join cs ''/''"
    using assms(3) by (simp add: strings_Join_Cons)
  with assms(1) have ne: "?j \<noteq> []" "rooted ?j = rooted root" by (simp_all add: rooted_def)
  have sp: "splitOn (CHR ''/'') ?j = splitOn (CHR ''/'') root @ cs"
    using assms by (simp add: j splitOn_append_full splitOn_Join)
  have "clean_comps r (splitOn (CHR ''/'') root @ cs)
      = clean_comps r (splitOn (CHR ''/'') root) @ filter (\<lambda>c. c \<noteq> []) cs" for r
  proof -
    have "clean_comps r (splitOn (CHR ''/'') root @ cs)
        = clean_comps r (filter (\<lambda>c. c \<noteq> []) (splitOn (CHR ''/'') root @ cs))"
      by (simp only: clean_comps_skip_empty)
    also have "\<dots> = clean_comps r (filter (\<lambda>c. c \<noteq> []) (splitOn (CHR ''/'') root)) @ filter (\<lambda>c. c \<noteq> []) cs"
      unfolding filter_append using assms(2) by (intro clean_comps_append_plain) auto
    finally show ?thesis by (simp only: clean_comps_skip_empty)
  qed
  with ne sp assms(1) show ?thesis
    by (simp add: filepath_Join_def filepath_Clean_def)
qed

definition env_root :: "Env \<Rightarrow> string" where
  "env_root e = (if Root e = [] then ''/'' else Root e)"

definition root_comps :: "Env \<Rightarrow> string list" where
  "root_comps e = clean_comps (rooted (env_root e)) (splitOn (CHR ''/'') (env_root e))"

lemma env_root_neq_Nil [simp]: "env_root e \<noteq> []"
  by (simp add: env_root_def)

lemma root_comps_ok: "\<forall>c \<in> set (root_comps e). comp_ok c"
  unfolding root_comps_def by (rule clean_comps_ok) (auto dest: splitOn_no_sep)

lemma Path_plain:
  "\<forall>c \<in> set cs. plain_comp c \<Longrightarrow> Path e cs = render_path (rooted (env_root e)) (root_comps e @ cs)"
  using filepath_Join_plain[of "env_root e" cs]
  by (simp add: Path_def Let_def env_root_def root_comps_def)

lemma Path_inj:
  assumes "\<forall>c \<in> set xs. plain_comp c" "\<forall>c \<in> set ys. plain_comp c" "Path e xs = Path e ys"
  shows "xs = ys"
proof -
  have "root_comps e @ xs = root_comps e @ ys"
    using assms root_comps_ok[of e]
    by (intro render_path_inj[of "rooted (env_root e)"]) (auto simp: Path_plain intro: plain_comp_ok)
  then show ?thesis by simp
qed

lemma Path_slashes: "cs \<noteq> [] \<Longrightarrow> Path e [strings_Join cs ''/''] = Path e cs"
  by (simp add: Path_def Let_def filepath_Join_def strings_Join_Cons)

lemma plain_comp_suffix: "plain_comp c \<Longrightarrow> CHR ''/'' \<notin> set s \<Longrightarrow> 3 \<le> length s \<Longrightarrow> plain_comp (c @ s)"
  by (auto simp: plain_comp_def append_eq_Cons_conv)

lemma strings_Join_last: "strings_Join (cs @ [c]) sep @ s = strings_Join (cs @ [c @ s]) sep"
proof (induction cs)
  case (Cons a cs)
  then show ?case by (simp add: strings_Join_Cons)
qed simp

lemma Path_suffix:
  assumes "\<forall>c \<in> set cs. plain_comp c" "plain_comp c" "CHR ''/'' \<notin> set s" "3 \<le> length s"
  shows "Path e (cs @ [c]) @ s = Path e (cs @ [c @ s])"
  using assms plain_comp_suffix[OF assms(2-4)]
  by (simp add: Path_plain render_path_def strings_Join_last[symmetric] flip: append_assoc)

lemma backupPath_Path:
  assumes "\<forall>c \<in> set cs. plain_comp c" "plain_comp c"
  shows "backupPath (Path e (cs @ [c])) = Path e (cs @ [c @ ''.node-configurator.orig''])"
  unfolding backupPath_def by (rule Path_suffix[OF assms]) simp_all

text \<open>With an absolute root, the directories above a path are given by its prefixes.\<close>

lemma root_comps_plain: "rooted (env_root e) \<Longrightarrow> \<forall>c \<in> set (root_comps e). plain_comp c"
  unfolding root_comps_def by (simp, intro clean_comps_rooted_plain) (auto dest: splitOn_no_sep)

lemma up_chain_render:
  assumes "\<forall>c \<in> set cs. plain_comp c" "q \<in> up_chain (render_path True cs)"
  shows "\<exists>n. q = render_path True (take n cs)"
proof -
  from assms(2) obtain n where q: "q = (filepath_Dir ^^ n) (render_path True cs)"
    by (auto simp: up_chain_def)
  have "\<exists>m. (filepath_Dir ^^ n) (render_path True cs) = render_path True (take m cs)"
  proof (induction n)
    case 0
    then show ?case by (auto intro: exI[of _ "length cs"])
  next
    case (Suc n)
    then obtain m where m: "(filepath_Dir ^^ n) (render_path True cs) = render_path True (take m cs)"
      by blast
    show ?case
    proof (cases "take m cs" rule: rev_cases)
      case Nil
      with m have "(filepath_Dir ^^ Suc n) (render_path True cs) = render_path True (take 0 cs)"
        by (simp add: render_path_def Dir_dot_slash)
      then show ?thesis by blast
    next
      case (snoc ys y)
      then have "\<forall>c \<in> set (ys @ [y]). plain_comp c" using assms(1) by (metis in_set_takeD)
      with m snoc have "(filepath_Dir ^^ Suc n) (render_path True cs) = render_path True ys"
        by (simp add: Dir_render)
      moreover have "ys = take (length ys) cs"
        using snoc by (metis append_eq_conv_conj append_take_drop_id append.assoc)
      ultimately show ?thesis by metis
    qed
  qed
  with q show ?thesis by simp
qed

lemma Path_up_chain:
  assumes root: "rooted (env_root e)"
    and xs: "\<forall>c \<in> set xs. plain_comp c" and ys: "\<forall>c \<in> set ys. plain_comp c"
    and up: "Path e xs \<in> up_chain (Path e ys)"
  shows "\<exists>n. xs = take n ys"
proof -
  let ?rc = "root_comps e"
  note rc = root_comps_plain[OF root]
  from up root ys xs have "render_path True (?rc @ xs) \<in> up_chain (render_path True (?rc @ ys))"
    by (simp add: Path_plain)
  moreover have "\<forall>c \<in> set (?rc @ ys). plain_comp c" using rc ys by auto
  ultimately obtain n where n: "render_path True (?rc @ xs) = render_path True (take n (?rc @ ys))"
    using up_chain_render by blast
  have "?rc @ xs = take n (?rc @ ys)"
    by (rule render_path_inj[OF n]) (use rc xs ys in \<open>auto intro: plain_comp_ok dest!: in_set_takeD\<close>)
  then have "?rc @ xs = take n ?rc @ take (n - length ?rc) ys" by simp
  moreover from this have "length ?rc \<le> n"
    by (metis append_Nil2 diff_is_0_eq length_append length_take linorder_not_le min.absorb4
        nat_le_linear not_add_less1 take_0)
  ultimately show ?thesis by auto
qed

definition sysctl_elems :: "string \<Rightarrow> string list" where
  "sysctl_elems key =
     filter (\<lambda>c. c \<noteq> [])
       (splitOn (CHR ''.'') (strings_ReplaceAll (strings_ReplaceAll key ''..'' []) ''/'' []))"

lemma plain_comp_proc_sys: "plain_comp ''proc''" "plain_comp ''sys''"
  by (simp_all add: plain_comp_def)

lemma sysctl_elems_plain: "\<forall>c \<in> set (sysctl_elems key). plain_comp c"
proof
  fix c
  let ?k = "strings_ReplaceAll (strings_ReplaceAll key ''..'' []) ''/'' []"
  assume c: "c \<in> set (sysctl_elems key)"
  then have mem: "c \<in> set (splitOn (CHR ''.'') ?k)" "c \<noteq> []" by (auto simp: sysctl_elems_def)
  then have "CHR ''.'' \<notin> set c" "set c \<subseteq> set ?k"
    by (auto dest: splitOn_no_sep splitOn_elem_subset)
  with mem(2) show "plain_comp c" by (auto simp: plain_comp_def ReplaceAll_slash)
qed

lemma SysctlPath_elems: "SysctlPath e key = Path e ([''proc'', ''sys''] @ sysctl_elems key)"
proof -
  let ?k = "strings_ReplaceAll (strings_ReplaceAll key ''..'' []) ''/'' []"
  let ?el = "splitOn (CHR ''.'') ?k"
  have el: "\<forall>c \<in> set ?el. CHR ''/'' \<notin> set c \<and> (c \<noteq> [] \<longrightarrow> plain_comp c)"
  proof
    fix c assume c: "c \<in> set ?el"
    then have "CHR ''/'' \<notin> set c"
      using splitOn_elem_subset[OF c] by (auto simp: ReplaceAll_slash)
    moreover have "c \<noteq> [] \<longrightarrow> plain_comp c"
      using c sysctl_elems_plain[of key] by (auto simp: sysctl_elems_def)
    ultimately show "CHR ''/'' \<notin> set c \<and> (c \<noteq> [] \<longrightarrow> plain_comp c)" ..
  qed
  have "SysctlPath e key = filepath_Join (env_root e # [''proc'', ''sys''] @ ?el)"
    by (simp add: SysctlPath_def Path_def env_root_def Let_def)
  also have "\<dots> = render_path (rooted (env_root e))
      (clean_comps (rooted (env_root e)) (splitOn (CHR ''/'') (env_root e)) @
       filter (\<lambda>c. c \<noteq> []) ([''proc'', ''sys''] @ ?el))"
    using el by (intro root_comps_Join) (auto simp: plain_comp_proc_sys)
  also have "\<dots> = Path e ([''proc'', ''sys''] @ sysctl_elems key)"
    using sysctl_elems_plain[of key]
    by (subst Path_plain) (auto simp: root_comps_def sysctl_elems_def plain_comp_proc_sys)
  finally show ?thesis .
qed

lemma Path_prefix:
  assumes "\<forall>c \<in> set xs. plain_comp c" "\<forall>c \<in> set ys. plain_comp c" "xs \<noteq> []"
  shows "Path e (xs @ ys) = Path e xs \<and> ys = [] \<or>
         strings_HasPrefix (Path e (xs @ ys)) (Path e xs @ ''/'')"
proof (cases "ys = []")
  case False
  have "Path e (xs @ ys) = Path e xs @ ''/'' @ strings_Join ys ''/''"
    using assms False strings_Join_append[of "root_comps e @ xs" ys "''/''"]
    by (subst (1 2) Path_plain) (auto simp: render_path_def)
  then show ?thesis by (simp add: strings_HasPrefix_def)
qed simp

text \<open>
  C32. No sysctl key, however malformed, leads out of \<^verbatim>\<open>/proc/sys\<close>: the path of every key is
  \<^verbatim>\<open>/proc/sys\<close> below the root, followed by plain names (not empty, no slash, not \<^verbatim>\<open>.\<close> or \<^verbatim>\<open>..\<close>), so
  its text is that of \<^verbatim>\<open>/proc/sys\<close> itself or starts with it and a slash.
\<close>

theorem SysctlPath_contained:
  "\<exists>cs. list_all plain_comp cs \<and> SysctlPath e key = Path e ([''proc'', ''sys''] @ cs) \<and>
     (SysctlPath e key = Path e [''proc'', ''sys''] \<or>
      strings_HasPrefix (SysctlPath e key) (Path e [''proc'', ''sys''] @ ''/''))"
proof (intro exI conjI)
  show "list_all plain_comp (sysctl_elems key)"
    using sysctl_elems_plain by (simp add: list_all_iff)
  show "SysctlPath e key = Path e ([''proc'', ''sys''] @ sysctl_elems key)"
    by (rule SysctlPath_elems)
  show "SysctlPath e key = Path e [''proc'', ''sys''] \<or>
      strings_HasPrefix (SysctlPath e key) (Path e [''proc'', ''sys''] @ ''/'')"
    unfolding SysctlPath_elems
    using Path_prefix[of "[''proc'', ''sys'']" "sysctl_elems key" e] sysctl_elems_plain[of key]
    by (auto simp: plain_comp_proc_sys)
qed

lemma ReplaceAll_dots_id:
  "\<forall>c \<in> set (tl (splitOn (CHR ''.'') s)). c \<noteq> [] \<Longrightarrow> strings_ReplaceAll s ''..'' [] = s"
proof (induction s)
  case (Cons x s)
  have no: "\<not> strings_HasPrefix (x # s) ''..''"
  proof
    assume "strings_HasPrefix (x # s) ''..''"
    then have "x = CHR ''.''" and "s \<noteq> [] \<and> hd s = CHR ''.''"
      by (auto simp: strings_HasPrefix_def take_Cons' split: if_splits) (cases s; auto)+
    with Cons.prems show False by (cases s) auto
  qed
  have "\<forall>c \<in> set (tl (splitOn (CHR ''.'') s)). c \<noteq> []"
    using Cons.prems by (cases "splitOn (CHR ''.'') s") (auto split: if_splits)
  with Cons.IH no show ?case by (simp add: strings_ReplaceAll.simps[of "x # s"])
qed (simp add: strings_ReplaceAll.simps)

lemma sysctl_elems_key: "sysctl_key key \<Longrightarrow> sysctl_elems key = splitOn (CHR ''.'') key"
proof -
  assume k: "sysctl_key key"
  then have "strings_ReplaceAll key ''..'' [] = key"
    by (intro ReplaceAll_dots_id) (auto simp: sysctl_key_def dest: list.set_sel(2)[OF splitOn_neq_Nil])
  moreover have "filter (\<lambda>c. c \<noteq> CHR ''/'') key = key"
    using k by (intro filter_True) (auto simp: sysctl_key_def)
  ultimately show ?thesis
    using k by (simp add: sysctl_elems_def ReplaceAll_slash sysctl_key_def)
qed

lemma SysctlPath_inj:
  assumes "sysctl_key k" "sysctl_key l" "SysctlPath e k = SysctlPath e l"
  shows "k = l"
proof -
  have "[''proc'', ''sys''] @ sysctl_elems k = [''proc'', ''sys''] @ sysctl_elems l"
    using assms(3) sysctl_elems_plain[of k] sysctl_elems_plain[of l]
    by (intro Path_inj[of _ _ e]) (auto simp: SysctlPath_elems plain_comp_proc_sys)
  then have "splitOn (CHR ''.'') k = splitOn (CHR ''.'') l"
    using assms(1,2) by (simp add: sysctl_elems_key)
  then show ?thesis by (metis Join_splitOn)
qed

end
