(* ===== verification/Facts.thy ===== *)
theory Facts
  imports Go_Float Sysutil
begin

text \<open>
  Package \<^verbatim>\<open>internal/facts\<close>: what is known of the instance. The parts the source only calls are
  parameters, collected in the record \<open>Outside\<close>: the instance metadata service, the EC2 API, the
  number of CPUs and the architecture of the running binary, the clock, and the text form of the
  cache file (\<^verbatim>\<open>encoding/json\<close>).
\<close>

section \<open>facts.go: the record\<close>

record Facts =
  InstanceID :: string
  InstanceType :: string
  Family :: string
  Region :: string
  AvailabilityZone :: string
  Arch :: string
  VCPUs :: int
  MemMiB :: int
  NetworkBandwidthGbps :: float64
  EnaSupport :: bool
  MaxENIs :: int
  Ipv4AddressesPerENI :: int
  NvmeInstanceStore :: bool
  BareMetal :: bool
  Hypervisor :: string
  fa_Distro :: Distro
  fa_KernelVersion :: string
  fa_Source :: string
  Warnings :: "string list"

definition zeroFacts :: Facts where
  "zeroFacts = \<lparr>InstanceID = [], InstanceType = [], Family = [], Region = [], AvailabilityZone = [],
     Arch = [], VCPUs = 0, MemMiB = 0, NetworkBandwidthGbps = Fin 0, EnaSupport = False, MaxENIs = 0,
     Ipv4AddressesPerENI = 0, NvmeInstanceStore = False, BareMetal = False, Hypervisor = [],
     fa_Distro = \<lparr>d_ID = [], d_VersionID = []\<rparr>, fa_KernelVersion = [], fa_Source = [], Warnings = []\<rparr>"

definition MaxNeighborEntries :: "Facts \<Rightarrow> int" where
  "MaxNeighborEntries f =
     (let enis = (if MaxENIs f \<le> 0 then 1 else MaxENIs f);
          ips = (if Ipv4AddressesPerENI f \<le> 0 then 1 else Ipv4AddressesPerENI f)
      in i64 (enis * ips))"

section \<open>ec2meta.go\<close>

text \<open>The three values the source tells apart: any other value counts as not supported.\<close>

datatype Support = SupportUnsupported | SupportSupported | SupportRequired

record NetworkInfo =
  ni_EnaSupport :: Support
  ni_MaximumNetworkInterfaces :: "int option"
  ni_Ipv4AddressesPerInterface :: "int option"
  ni_NetworkCards :: "float64 option list"
  ni_NetworkPerformance :: "string option"

text \<open>A missing nested structure and a missing value in it are the two levels of \<open>option\<close>.\<close>

record InstanceTypeInfo =
  it_VCpuInfo :: "int option option"
  it_MemoryInfo :: "int option option"
  it_BareMetal :: "bool option"
  it_Hypervisor :: string
  it_NvmeSupport :: "Support option"
  it_NetworkInfo :: "NetworkInfo option"

text \<open>The first longest run of digits and dots, as \<^verbatim>\<open>[\d.]+\<close> finds it.\<close>

definition num_char :: "char \<Rightarrow> bool" where
  "num_char c \<longleftrightarrow> c = CHR ''.'' \<or> dec_val c \<noteq> None"

definition networkPerformanceNumberRe :: "string \<Rightarrow> string" where
  "networkPerformanceNumberRe s = takeWhile num_char (dropWhile (\<lambda>c. \<not> num_char c) s)"

definition parseNetworkPerformanceGbps :: "string \<Rightarrow> float64" where
  "parseNetworkPerformanceGbps s =
     (let match = networkPerformanceNumberRe s in
      if match = [] then Fin 0
      else (case strconv_ParseFloat match of None \<Rightarrow> Fin 0 | Some v \<Rightarrow> v))"

definition bandwidthFromNetworkInfo :: "NetworkInfo \<Rightarrow> float64" where
  "bandwidthFromNetworkInfo ni =
     (let performance = (case ni_NetworkPerformance ni of
                           Some s \<Rightarrow> parseNetworkPerformanceGbps s
                         | None \<Rightarrow> Fin 0) in
      case ni_NetworkCards ni of
        Some b # _ \<Rightarrow> b
      | _ \<Rightarrow> performance)"

definition applyInstanceTypeInfo :: "Facts \<Rightarrow> InstanceTypeInfo \<Rightarrow> Facts" where
  "applyInstanceTypeInfo f info =
     (let f = (case it_VCpuInfo info of Some (Some n) \<Rightarrow> f\<lparr>VCPUs := n\<rparr> | _ \<Rightarrow> f);
          f = (case it_MemoryInfo info of Some (Some m) \<Rightarrow> f\<lparr>MemMiB := m\<rparr> | _ \<Rightarrow> f);
          f = (case it_BareMetal info of Some b \<Rightarrow> f\<lparr>BareMetal := b\<rparr> | None \<Rightarrow> f);
          f = f\<lparr>Hypervisor := it_Hypervisor info\<rparr>;
          f = (case it_NvmeSupport info of
                 Some SupportSupported \<Rightarrow> f\<lparr>NvmeInstanceStore := True\<rparr>
               | Some SupportRequired \<Rightarrow> f\<lparr>NvmeInstanceStore := True\<rparr>
               | _ \<Rightarrow> f)
      in case it_NetworkInfo info of
           None \<Rightarrow> f
         | Some ni \<Rightarrow>
             (let f = (if ni_EnaSupport ni = SupportUnsupported then f else f\<lparr>EnaSupport := True\<rparr>);
                  f = (case ni_MaximumNetworkInterfaces ni of Some n \<Rightarrow> f\<lparr>MaxENIs := n\<rparr> | None \<Rightarrow> f);
                  f = (case ni_Ipv4AddressesPerInterface ni of Some n \<Rightarrow> f\<lparr>Ipv4AddressesPerENI := n\<rparr> | None \<Rightarrow> f)
              in f\<lparr>NetworkBandwidthGbps := bandwidthFromNetworkInfo ni\<rparr>))"

section \<open>What is outside\<close>

record IdentityDocument =
  doc_InstanceID :: string
  doc_InstanceType :: string
  doc_Region :: string
  doc_AvailabilityZone :: string
  doc_Architecture :: string

record cacheEnvelope =
  ce_Facts :: Facts
  ce_CachedAt :: int

record Outside =
  imds_Identity :: "goerror + IdentityDocument"
  aws_LoadConfig :: "string \<Rightarrow> goerror option"
  ec2_DescribeInstanceTypes :: "string \<Rightarrow> string \<Rightarrow> goerror + InstanceTypeInfo list"
  runtime_NumCPU :: int
  runtime_GOARCH :: string
  time_Now :: int
  json_MarshalCache :: "cacheEnvelope \<Rightarrow> goerror + string"
  json_UnmarshalCache :: "string \<Rightarrow> goerror + cacheEnvelope"

definition fetchInstanceTypeInfo :: "Outside \<Rightarrow> string \<Rightarrow> string \<Rightarrow> goerror + InstanceTypeInfo" where
  "fetchInstanceTypeInfo out region instanceType =
     (case ec2_DescribeInstanceTypes out region instanceType of
        Inl err \<Rightarrow> Inl (Errorf (''EC2 DescribeInstanceTypes('' @ instanceType @ '')'') err)
      | Inr [] \<Rightarrow> Inl (ErrText (''EC2 DescribeInstanceTypes('' @ instanceType @ ''): no results returned''))
      | Inr (info # _) \<Rightarrow> Inr info)"

definition gatherInstanceTypeInfo :: "Outside \<Rightarrow> string \<Rightarrow> string \<Rightarrow> goerror + Facts" where
  "gatherInstanceTypeInfo out region instanceType =
     (case aws_LoadConfig out region of
        Some err \<Rightarrow> Inl (Errorf ''loading AWS config'' err)
      | None \<Rightarrow>
          (case fetchInstanceTypeInfo out region instanceType of
             Inl err \<Rightarrow> Inl err
           | Inr info \<Rightarrow> Inr (applyInstanceTypeInfo zeroFacts info)))"

section \<open>imds.go\<close>

definition fetchIdentityDocument :: "Outside \<Rightarrow> goerror + IdentityDocument" where
  "fetchIdentityDocument out =
     (case imds_Identity out of
        Inl err \<Rightarrow> Inl (Errorf ''IMDS GetInstanceIdentityDocument'' err)
      | Inr doc \<Rightarrow> Inr doc)"

definition gatherIdentity :: "Outside \<Rightarrow> goerror + Facts" where
  "gatherIdentity out =
     (case fetchIdentityDocument out of
        Inl err \<Rightarrow> Inl err
      | Inr doc \<Rightarrow>
          Inr (zeroFacts\<lparr>InstanceID := doc_InstanceID doc, InstanceType := doc_InstanceType doc,
                 Region := doc_Region doc, AvailabilityZone := doc_AvailabilityZone doc,
                 Arch := doc_Architecture doc\<rparr>))"

section \<open>local.go\<close>

definition normalizeArch :: "string \<Rightarrow> string" where
  "normalizeArch goarch = (if goarch = ''amd64'' then ''x86_64'' else goarch)"

definition primaryLinkSpeedGbps :: "Env \<Rightarrow> 'x world \<Rightarrow> float64" where
  "primaryLinkSpeedGbps env w =
     (let iface = PrimaryInterface env w in
      if iface = [] then Fin 0
      else (case os_ReadFile (Path env [''sys'', ''class'', ''net'', iface, ''speed'']) w of
              Inl err \<Rightarrow> Fin 0
            | Inr data \<Rightarrow>
                (case strconv_Atoi (strings_TrimSpace data) of
                   None \<Rightarrow> Fin 0
                 | Some mbps \<Rightarrow> if mbps \<le> 0 then Fin 0 else fl_divc (fl_of_int mbps) 1000)))"

text \<open>
  \<^verbatim>\<open>(?i)instance storage\<close>: letters match in either case, and \<^verbatim>\<open>s\<close> also matches the long s, which folds to it.
\<close>

definition to_lower :: "char \<Rightarrow> char" where
  "to_lower c = (let k = of_char c :: nat in if 65 \<le> k \<and> k \<le> 90 then char_of (k + 32) else c)"

fun ci_prefix :: "string \<Rightarrow> string \<Rightarrow> bool" where
  "ci_prefix [] s = True"
| "ci_prefix (p # ps) [] = False"
| "ci_prefix (p # ps) (x # xs) =
     (to_lower x = p \<and> ci_prefix ps xs
      \<or> p = CHR ''s'' \<and> x = CHR 0xC5 \<and> (case xs of y # ys \<Rightarrow> y = CHR 0xBF \<and> ci_prefix ps ys | [] \<Rightarrow> False))"

fun ci_contains :: "string \<Rightarrow> string \<Rightarrow> bool" where
  "ci_contains p [] = ci_prefix p []"
| "ci_contains p (x # xs) = (ci_prefix p (x # xs) \<or> ci_contains p xs)"

definition nvmeInstanceStoreModelRe :: "string \<Rightarrow> bool" where
  "nvmeInstanceStoreModelRe s = ci_contains ''instance storage'' s"

definition nvme_controller_local :: "Env \<Rightarrow> 'x world \<Rightarrow> string \<Rightarrow> bool" where
  "nvme_controller_local env w c =
     (case os_ReadFile (Path env [''sys'', ''class'', ''nvme'', c, ''model'']) w of
        Inl err \<Rightarrow> False
      | Inr model \<Rightarrow> nvmeInstanceStoreModelRe model)"

definition detectNvmeInstanceStore :: "Env \<Rightarrow> 'x world \<Rightarrow> bool" where
  "detectNvmeInstanceStore env w =
     (case os_ReadDir (Path env [''sys'', ''class'', ''nvme'']) w of
        Inl err \<Rightarrow> False
      | Inr controllers \<Rightarrow> list_ex (nvme_controller_local env w) controllers)"

definition LocalFallback :: "Outside \<Rightarrow> Env \<Rightarrow> 'x world \<Rightarrow> Facts" where
  "LocalFallback out env w =
     (let f = zeroFacts\<lparr>fa_Source := ''local-fallback'', VCPUs := runtime_NumCPU out,
                        Arch := normalizeArch (runtime_GOARCH out)\<rparr>;
          f = (case ParseMemInfoTotalKiB env w of Inr kib \<Rightarrow> f\<lparr>MemMiB := go_quot kib 1024\<rparr> | Inl err \<Rightarrow> f)
      in f\<lparr>NetworkBandwidthGbps := primaryLinkSpeedGbps env w,
           NvmeInstanceStore := detectNvmeInstanceStore env w\<rparr>)"

section \<open>cache.go\<close>

definition DefaultCachePath :: string where
  "DefaultCachePath = ''/var/lib/node-configurator/facts.json''"

text \<open>\<^verbatim>\<open>time.Since\<close>: a duration saturates at the ends of the 64-bit range.\<close>

definition time_Since :: "Outside \<Rightarrow> int \<Rightarrow> int" where
  "time_Since out t = max (- (2 ^ 63)) (min (2 ^ 63 - 1) (time_Now out - t))"

definition loadCache :: "Outside \<Rightarrow> Env \<Rightarrow> string \<Rightarrow> string \<Rightarrow> int \<Rightarrow> 'x world \<Rightarrow> Facts option" where
  "loadCache out env path wantInstanceID ttl w =
     (case os_ReadFile (Path env [path]) w of
        Inl err \<Rightarrow> None
      | Inr data \<Rightarrow>
          (case json_UnmarshalCache out data of
             Inl err \<Rightarrow> None
           | Inr envlp \<Rightarrow>
               if wantInstanceID = [] \<or> InstanceID (ce_Facts envlp) \<noteq> wantInstanceID then None
               else if 0 < ttl \<and> ttl < time_Since out (ce_CachedAt envlp) then None
               else Some (ce_Facts envlp)))"

definition saveCache :: "Outside \<Rightarrow> Env \<Rightarrow> string \<Rightarrow> Facts \<Rightarrow> 'x world \<Rightarrow> goerror option \<times> 'x world" where
  "saveCache out env path f w =
     (case json_MarshalCache out \<lparr>ce_Facts = f, ce_CachedAt = time_Now out\<rparr> of
        Inl err \<Rightarrow> (Some err, w)
      | Inr data \<Rightarrow>
          (let full = Path env [path] in
           case os_MkdirAll (filepath_Dir full) w of
             (Some err, w1) \<Rightarrow> (Some err, w1)
           | (None, w1) \<Rightarrow> os_WriteFile full data 420 w1))"

section \<open>facts.go: gathering\<close>

record Gatherer =
  g_Env :: "Env option"
  g_CachePath :: string
  g_CacheTTL :: int
  g_Refresh :: bool

definition gatherer_env :: "Gatherer \<Rightarrow> Env" where
  "gatherer_env g = (case g_Env g of Some e \<Rightarrow> e | None \<Rightarrow> New)"

definition gatherer_cachePath :: "Gatherer \<Rightarrow> string" where
  "gatherer_cachePath g = (if g_CachePath g \<noteq> [] then g_CachePath g else DefaultCachePath)"

definition familyFromInstanceType :: "string \<Rightarrow> string" where
  "familyFromInstanceType instanceType =
     (case strings_Cut instanceType (CHR ''.'') of Some (family, _) \<Rightarrow> family | None \<Rightarrow> instanceType)"

text \<open>The kernel version is \<^verbatim>\<open>""\<close> when it cannot be read; the distribution keeps what was parsed.\<close>

definition hostFacts :: "Env \<Rightarrow> 'x world \<Rightarrow> Facts \<Rightarrow> Facts" where
  "hostFacts env w f =
     f\<lparr>fa_Distro := fst (DetectDistro env w),
       fa_KernelVersion := (case KernelVersion env w of Inl err \<Rightarrow> [] | Inr k \<Rightarrow> k)\<rparr>"

definition fromFallback :: "Outside \<Rightarrow> Env \<Rightarrow> 'x world \<Rightarrow> goerror \<Rightarrow> Facts \<Rightarrow> Facts" where
  "fromFallback out env w err f =
     (let l = LocalFallback out env w;
          f = f\<lparr>VCPUs := VCPUs l, MemMiB := MemMiB l, NetworkBandwidthGbps := NetworkBandwidthGbps l,
                NvmeInstanceStore := NvmeInstanceStore l, fa_Source := ''local-fallback''\<rparr>;
          f = hostFacts env w f
      in f\<lparr>Warnings := Warnings f @ [''EC2 DescribeInstanceTypes unavailable, family-specific tuning is approximate (check ec2:DescribeInstanceTypes IAM permission): '' @ errText err]\<rparr>)"

definition enrich :: "Facts \<Rightarrow> Facts \<Rightarrow> Facts" where
  "enrich f enrichment =
     f\<lparr>VCPUs := VCPUs enrichment, MemMiB := MemMiB enrichment,
       NetworkBandwidthGbps := NetworkBandwidthGbps enrichment, EnaSupport := EnaSupport enrichment,
       MaxENIs := MaxENIs enrichment, Ipv4AddressesPerENI := Ipv4AddressesPerENI enrichment,
       NvmeInstanceStore := NvmeInstanceStore enrichment, BareMetal := BareMetal enrichment,
       Hypervisor := Hypervisor enrichment, fa_Source := ''ec2-api''\<rparr>"

definition gatherFresh :: "Outside \<Rightarrow> Gatherer \<Rightarrow> Facts \<Rightarrow> 'x world \<Rightarrow> (Facts \<times> goerror option) \<times> 'x world" where
  "gatherFresh out g identity w =
     (let env = gatherer_env g in
      case gatherInstanceTypeInfo out (Region identity) (InstanceType identity) of
        Inl err \<Rightarrow> ((fromFallback out env w err identity, None), w)
      | Inr enrichment \<Rightarrow>
          (let f = hostFacts env w (enrich identity enrichment) in
           case saveCache out env (gatherer_cachePath g) f w of
             (Some err, w') \<Rightarrow> ((f\<lparr>Warnings := Warnings f @ [''caching facts: '' @ errText err]\<rparr>, None), w')
           | (None, w') \<Rightarrow> ((f, None), w')))"

definition Gather :: "Outside \<Rightarrow> Gatherer \<Rightarrow> 'x world \<Rightarrow> (Facts \<times> goerror option) \<times> 'x world" where
  "Gather out g w =
     (let env = gatherer_env g in
      case gatherIdentity out of
        Inl err \<Rightarrow>
          (let f = hostFacts env w (LocalFallback out env w)
           in ((f\<lparr>Warnings := Warnings f @ [''IMDS unavailable, using local-only facts: '' @ errText err]\<rparr>, None), w))
      | Inr identity \<Rightarrow>
          (let identity = identity\<lparr>Family := familyFromInstanceType (InstanceType identity)\<rparr> in
           case (if \<not> g_Refresh g
                 then loadCache out env (gatherer_cachePath g) (InstanceID identity) (g_CacheTTL g) w
                 else None) of
             Some cached \<Rightarrow> ((hostFacts env w cached, None), w)
           | None \<Rightarrow> gatherFresh out g identity w))"

section \<open>Gathering never fails\<close>

lemma hostFacts_host [simp]:
  "fa_Distro (hostFacts env w f) = fst (DetectDistro env w)"
  "fa_KernelVersion (hostFacts env w f) = (case KernelVersion env w of Inl err \<Rightarrow> [] | Inr k \<Rightarrow> k)"
  "fa_Source (hostFacts env w f) = fa_Source f" "InstanceID (hostFacts env w f) = InstanceID f"
  "Warnings (hostFacts env w f) = Warnings f"
  by (simp_all add: hostFacts_def)

lemma saveCache_touches: "saveCache out env path f w = (e, w') \<Longrightarrow> only_touches {Path env [path]} w w'"
  by (auto simp: saveCache_def Let_def split: sum.splits prod.splits option.splits
      dest!: os_MkdirAll_Dir_touches os_WriteFile_touches intro: only_touches_trans)

lemma LocalFallback_source [simp]: "fa_Source (LocalFallback out env w) = ''local-fallback''"
  by (simp add: LocalFallback_def Let_def zeroFacts_def split: sum.split)

definition host_facts_of :: "Env \<Rightarrow> 'x world \<Rightarrow> Facts \<Rightarrow> bool" where
  "host_facts_of env w f \<longleftrightarrow>
     fa_Distro f = fst (DetectDistro env w) \<and>
     fa_KernelVersion f = (case KernelVersion env w of Inl err \<Rightarrow> [] | Inr k \<Rightarrow> k)"

lemma gatherFresh_total:
  assumes "gatherFresh out g identity w = ((f, e), w')"
  shows "e = None \<and> host_facts_of (gatherer_env g) w f \<and>
    only_touches {Path (gatherer_env g) [gatherer_cachePath g]} w w' \<and>
    fa_Source f = (case gatherInstanceTypeInfo out (Region identity) (InstanceType identity) of
      Inl _ \<Rightarrow> ''local-fallback'' | Inr _ \<Rightarrow> ''ec2-api'')"
  using assms
  by (auto simp: gatherFresh_def fromFallback_def Let_def enrich_def host_facts_of_def
      split: sum.splits prod.splits option.splits dest: saveCache_touches)

lemma Gather_cases:
  assumes "Gather out g w = ((f, e), w')"
  shows "e = None \<and> host_facts_of (gatherer_env g) w f \<and>
    only_touches {Path (gatherer_env g) [gatherer_cachePath g]} w w'"
proof (cases "gatherIdentity out")
  case (Inl err)
  with assms show ?thesis by (auto simp: Gather_def Let_def host_facts_of_def)
next
  case (Inr identity)
  let ?id = "identity\<lparr>Family := familyFromInstanceType (InstanceType identity)\<rparr>"
  show ?thesis
  proof (cases "if \<not> g_Refresh g
      then loadCache out (gatherer_env g) (gatherer_cachePath g) (InstanceID ?id) (g_CacheTTL g) w else None")
    case None
    with Inr assms have "gatherFresh out g ?id w = ((f, e), w')" by (simp add: Gather_def)
    then show ?thesis using gatherFresh_total by blast
  next
    case (Some c)
    with Inr assms have "f = hostFacts (gatherer_env g) w c" "e = None" "w' = w" by (auto simp: Gather_def)
    then show ?thesis by (simp add: host_facts_of_def)
  qed
qed

text \<open>
  C10. Gathering facts cannot fail: whatever the metadata service, the EC2 API, the cache and the host
  answer, \<^verbatim>\<open>Gather\<close> returns no error; the distribution and kernel it reports are always those of the
  running host, never cached ones; and at most the cache file (with its directories) is touched.
\<close>

theorem Gather_total:
  "case Gather out g w of ((f, e), w') \<Rightarrow>
     e = None \<and>
     fa_Distro f = fst (DetectDistro (gatherer_env g) w) \<and>
     fa_KernelVersion f = (case KernelVersion (gatherer_env g) w of Inl err \<Rightarrow> [] | Inr k \<Rightarrow> k) \<and>
     only_touches {Path (gatherer_env g) [gatherer_cachePath g]} w w'"
proof (cases "Gather out g w")
  case (Pair fe w')
  then obtain f e where "Gather out g w = ((f, e), w')" by (cases fe) simp
  from Gather_cases[OF this] this show ?thesis by (simp add: host_facts_of_def)
qed

section \<open>The cache\<close>

text \<open>What the text form is relied on for: what was encoded decodes to itself.\<close>

definition codec_ok :: "Outside \<Rightarrow> bool" where
  "codec_ok out \<longleftrightarrow> (\<forall>e data. json_MarshalCache out e = Inr data \<longrightarrow> json_UnmarshalCache out data = Inr e)"

text \<open>The cache file is absent or an ordinary, readable file.\<close>

definition plain_file :: "string \<Rightarrow> 'x world \<Rightarrow> bool" where
  "plain_file p w \<longleftrightarrow>
     (case node_at w p of
        None \<Rightarrow> True
      | Some (File f) \<Rightarrow> f_read_err f = None \<and> (case f_kind f of Regular opts \<Rightarrow> True | Knob h \<Rightarrow> False)
      | Some (Dir d) \<Rightarrow> False)"

lemma os_WriteFile_plain:
  assumes "os_WriteFile p data m w = (None, w')" "plain_file p w"
  shows "os_ReadFile p w' = Inr data"
proof (cases "node_at w p")
  case None
  with assms(1) show ?thesis by (rule os_WriteFile_new)
next
  case (Some n)
  with assms obtain f opts where f: "n = File f" "f_read_err f = None" "f_kind f = Regular opts"
    "write_existing p data f w = (None, w')"
    by (auto simp: plain_file_def os_WriteFile_def split: node.splits fkind.splits)
  from write_existing_regular[OF f(4,3)] f(2) show ?thesis by (simp add: os_ReadFile_def)
qed

lemma saveCache_read:
  assumes "saveCache out env path f w = (None, w')" "plain_file (Path env [path]) w"
  shows "\<exists>data. json_MarshalCache out \<lparr>ce_Facts = f, ce_CachedAt = time_Now out\<rparr> = Inr data \<and>
    os_ReadFile (Path env [path]) w' = Inr data"
proof -
  from assms(1) obtain data w1 where m: "json_MarshalCache out \<lparr>ce_Facts = f, ce_CachedAt = time_Now out\<rparr> = Inr data"
    and mk: "os_MkdirAll (filepath_Dir (Path env [path])) w = (None, w1)"
    and wr: "os_WriteFile (Path env [path]) data 420 w1 = (None, w')"
    by (auto simp: saveCache_def Let_def split: sum.splits prod.splits option.splits)
  have "plain_file (Path env [path]) w1"
    using assms(2) os_MkdirAll_parent[OF mk] by (simp add: plain_file_def)
  from os_WriteFile_plain[OF wr this] m show ?thesis by blast
qed

text \<open>
  C30. The cache returns what was saved, to the same instance only: after a successful \<^verbatim>\<open>saveCache\<close>, a later
  \<^verbatim>\<open>loadCache\<close> (with the clock at \<open>now\<close>) finds the facts exactly when it asks for their instance, that
  instance has an identity, and the time to live is unlimited or has not passed.
\<close>

theorem cache_roundtrip:
  assumes "saveCache out env path f w = (None, w')" "codec_ok out" "plain_file (Path env [path]) w"
  shows "loadCache (out\<lparr>time_Now := now\<rparr>) env path wantID ttl w' =
    (if wantID \<noteq> [] \<and> InstanceID f = wantID \<and> (ttl \<le> 0 \<or> time_Since (out\<lparr>time_Now := now\<rparr>) (time_Now out) \<le> ttl)
     then Some f else None)"
proof -
  from saveCache_read[OF assms(1,3)] obtain data where
    d: "json_MarshalCache out \<lparr>ce_Facts = f, ce_CachedAt = time_Now out\<rparr> = Inr data"
      "os_ReadFile (Path env [path]) w' = Inr data" by blast
  with assms(2) have "json_UnmarshalCache out data = Inr \<lparr>ce_Facts = f, ce_CachedAt = time_Now out\<rparr>"
    by (simp add: codec_ok_def)
  with d(2) show ?thesis by (auto simp: loadCache_def)
qed

text \<open>A codec that only knows one set of facts, taken at time zero.\<close>

definition m6i_facts :: Facts where
  "m6i_facts = zeroFacts\<lparr>InstanceID := ''i-1'', InstanceType := ''m6i.large''\<rparr>"

definition demo_outside :: Outside where
  "demo_outside = \<lparr>imds_Identity = Inl (ErrText ''no IMDS''), aws_LoadConfig = (\<lambda>_. None),
     ec2_DescribeInstanceTypes = (\<lambda>_ _. Inl (ErrText ''denied'')), runtime_NumCPU = 2,
     runtime_GOARCH = ''amd64'', time_Now = 0,
     json_MarshalCache = (\<lambda>e. if e = \<lparr>ce_Facts = m6i_facts, ce_CachedAt = 0\<rparr> then Inr ''m6i'' else Inl (ErrText ''json'')),
     json_UnmarshalCache = (\<lambda>s. if s = ''m6i'' then Inr \<lparr>ce_Facts = m6i_facts, ce_CachedAt = 0\<rparr> else Inl (ErrText ''json''))\<rparr>"

definition var_world :: "unit world" where
  "var_world = \<lparr>w_fs = [(''/'', plain_dir), (''/var'', plain_dir)], w_ext = ()\<rparr>"

theorem cache_roundtrip_witness:
  "\<exists>w'. saveCache demo_outside New DefaultCachePath m6i_facts var_world = (None, w') \<and>
     loadCache (demo_outside\<lparr>time_Now := 5\<rparr>) New DefaultCachePath ''i-1'' 10 w' = Some m6i_facts \<and>
     loadCache (demo_outside\<lparr>time_Now := 5\<rparr>) New DefaultCachePath ''i-2'' 10 w' = None"
proof -
  let ?s = "saveCache demo_outside New DefaultCachePath m6i_facts var_world"
  have "fst ?s = None" by code_simp
  then have s: "?s = (None, snd ?s)" by (simp add: prod_eq_iff)
  have c: "codec_ok demo_outside" by (auto simp: codec_ok_def demo_outside_def split: if_splits)
  have p: "plain_file (Path New [DefaultCachePath]) var_world" by code_simp
  have i: "InstanceID m6i_facts = ''i-1''" by (simp add: m6i_facts_def)
  have t: "time_Since (demo_outside\<lparr>time_Now := 5\<rparr>) (time_Now demo_outside) \<le> 10" by code_simp
  show ?thesis
    using cache_roundtrip[OF s c p, of 5 "''i-1''" 10] cache_roundtrip[OF s c p, of 5 "''i-2''" 10] s i t
    by auto
qed

text \<open>
  \<^verbatim>\<open>IsAmazonLinux2\<close>, which is meant to tell Amazon Linux 2 from Amazon Linux 2023, also holds there.
\<close>

lemma IsAmazonLinux2_overlap: "IsAmazonLinux2023 d \<Longrightarrow> IsAmazonLinux2 d"
  by (cases "d_VersionID d") (auto simp: IsAmazonLinux2023_def IsAmazonLinux2_def strings_HasPrefix_def)

end
