(* ===== verification/Resource.thy ===== *)
theory Resource
  imports Sysutil
begin

text \<open>
  Package \<^verbatim>\<open>internal/resource\<close>, file \<^verbatim>\<open>resource.go\<close>: statuses, results and the interface every
  resource implements. A value of the Go interface is a record of its three methods over the
  host. The contracts the engine relies on are the locales at the end; every resource theory
  interprets them on its own definitions.
\<close>

datatype Status =
    StatusUnchanged | StatusWouldChange | StatusChanged | StatusFailed | StatusSkipped
  | StatusRebootRequired

fun statusText :: "Status \<Rightarrow> string" where
  "statusText StatusUnchanged = ''unchanged''"
| "statusText StatusWouldChange = ''would_change''"
| "statusText StatusChanged = ''changed''"
| "statusText StatusFailed = ''failed''"
| "statusText StatusSkipped = ''skipped''"
| "statusText StatusRebootRequired = ''reboot_required''"

definition Status_Changed :: "Status \<Rightarrow> bool" where
  "Status_Changed s \<longleftrightarrow> s = StatusChanged \<or> s = StatusWouldChange"

record Result =
  r_Name :: string
  r_Status :: Status
  r_Detail :: string

definition Result_String :: "Result \<Rightarrow> string" where
  "Result_String r =
     (if r_Detail r = [] then fmt_padRight 28 (r_Name r) @ '' '' @ statusText (r_Status r)
      else fmt_padRight 28 (r_Name r) @ '' '' @ fmt_padRight 16 (statusText (r_Status r)) @ '' '' @ r_Detail r)"

abbreviation mkResult :: "string \<Rightarrow> Status \<Rightarrow> string \<Rightarrow> Result" where
  "mkResult n s d \<equiv> \<lparr>r_Name = n, r_Status = s, r_Detail = d\<rparr>"

text \<open>
  The interface \<^verbatim>\<open>Resource\<close>. \<open>Check\<close> also returns the world, since some resources run a command
  to look at the host.
\<close>

record 'w Resource =
  res_Name :: string
  res_Check :: "'w \<Rightarrow> (Result \<times> goerror option) \<times> 'w"
  res_Apply :: "'w \<Rightarrow> goerror option \<times> 'w"

definition joinDetails :: "string list \<Rightarrow> string" where
  "joinDetails fragments = strings_Join (filter (\<lambda>f. f \<noteq> []) fragments) ''; ''"

text \<open>The first field of every line that has one, as the loops over \<^verbatim>\<open>/proc\<close> tables collect it.\<close>

fun first_field :: "string \<Rightarrow> string list" where
  "first_field l = (case strings_Fields l of [] \<Rightarrow> [] | f # _ \<Rightarrow> [f])"

section \<open>Contracts\<close>

abbreviation chk_result :: "'w Resource \<Rightarrow> 'w \<Rightarrow> Result" where
  "chk_result r w \<equiv> fst (fst (res_Check r w))"

abbreviation chk_error :: "'w Resource \<Rightarrow> 'w \<Rightarrow> goerror option" where
  "chk_error r w \<equiv> snd (fst (res_Check r w))"

abbreviation chk_status :: "'w Resource \<Rightarrow> 'w \<Rightarrow> Status" where
  "chk_status r w \<equiv> r_Status (chk_result r w)"

text \<open>
  What the report relies on: a result carries the name of its resource, it is \<^verbatim>\<open>failed\<close> exactly
  when \<^verbatim>\<open>Check\<close> returned an error, and \<^verbatim>\<open>Check\<close> never claims to have changed anything.
\<close>

locale resource_iface =
  fixes r :: "'w Resource"
  assumes result_name: "r_Name (chk_result r w) = res_Name r"
    and failed_iff_error: "chk_status r w = StatusFailed \<longleftrightarrow> chk_error r w \<noteq> None"
    and check_not_changed: "chk_status r w \<noteq> StatusChanged"

text \<open>
  What idempotent convergence relies on, for hosts that satisfy \<open>ok\<close>: \<^verbatim>\<open>Check\<close> leaves the host
  alone, and after a successful \<^verbatim>\<open>Apply\<close> the next \<^verbatim>\<open>Check\<close> finds nothing to do, provided \<open>side\<close>, which
  stands for what \<^verbatim>\<open>Apply\<close> does not bring about by itself.
\<close>

locale settling_resource = resource_iface r for r :: "'w Resource" +
  fixes ok :: "'w \<Rightarrow> bool" and side :: "'w \<Rightarrow> bool"
  assumes check_pure: "ok w \<Longrightarrow> snd (res_Check r w) = w"
    and apply_ok: "ok w \<Longrightarrow> res_Apply r w = (None, w') \<Longrightarrow> ok w'"
    and apply_settles: "ok w \<Longrightarrow> res_Apply r w = (None, w') \<Longrightarrow> side w' \<Longrightarrow>
      chk_error r w' = None \<and> chk_status r w' \<noteq> StatusWouldChange"

text \<open>The usual case, in which \<^verbatim>\<open>Apply\<close> brings about everything \<^verbatim>\<open>Check\<close> asks for.\<close>

locale convergent_resource = resource_iface r for r :: "'w Resource" +
  fixes ok :: "'w \<Rightarrow> bool"
  assumes check_pure: "ok w \<Longrightarrow> snd (res_Check r w) = w"
    and apply_ok: "ok w \<Longrightarrow> res_Apply r w = (None, w') \<Longrightarrow> ok w'"
    and apply_settles: "ok w \<Longrightarrow> res_Apply r w = (None, w') \<Longrightarrow>
      chk_error r w' = None \<and> chk_status r w' \<noteq> StatusWouldChange"

sublocale convergent_resource \<subseteq> settling: settling_resource r ok "\<lambda>w. True"
  by unfold_locales (auto simp: check_pure apply_ok apply_settles)

section \<open>Commands in a row\<close>

text \<open>
  \<open>runs run cs w w'\<close>: running the commands \<open>cs\<close> one after another, all of them with success, takes the host
  from \<open>w\<close> to \<open>w'\<close>.
\<close>

inductive runs :: "'x runner \<Rightarrow> (string \<times> string list) list \<Rightarrow> 'x world \<Rightarrow> 'x world \<Rightarrow> bool" for run where
  runs_Nil [intro]: "runs run [] w w"
| runs_Cons [intro]: "run name args w = ((out, None), w1) \<Longrightarrow> runs run cs w1 w' \<Longrightarrow> runs run ((name, args) # cs) w w'"

inductive_simps runs_Nil_iff [simp]: "runs run [] w w'"
inductive_simps runs_Cons_iff: "runs run ((name, args) # cs) w w'"

lemma runs_append: "runs run (cs @ ds) w w' \<longleftrightarrow> (\<exists>v. runs run cs w v \<and> runs run ds v w')"
  by (induction cs arbitrary: w) (auto simp: runs_Cons_iff, blast+)

lemma runs_frame:
  assumes "runs run cs w w'" "P w" "\<And>name args v out v'. (name, args) \<in> set cs \<Longrightarrow> run name args v = ((out, None), v') \<Longrightarrow> P v \<Longrightarrow> P v'"
  shows "P w'"
  using assms
proof (induction rule: runs.induct)
  case (runs_Cons name args w out w1 cs w')
  have "P w1" by (rule runs_Cons.prems(2)[OF _ runs_Cons.hyps(1) runs_Cons.prems(1)]) simp
  then show ?case by (rule runs_Cons.IH) (rule runs_Cons.prems(2), simp_all)
qed

end
