(* ===== verification/Sysctl_Resource.thy ===== *)
theory Sysctl_Resource
  imports Resource
begin

text \<open>
  \<^verbatim>\<open>internal/resource/sysctl.go\<close>: a bundle of sysctl settings converged against the live kernel
  and persisted to a drop-in file. The settings map is an association list that holds each key
  once; \<open>mget\<close> is Go's map read with its zero value.
\<close>

type_synonym strmap = "(string \<times> string) list"

definition mget :: "strmap \<Rightarrow> string \<Rightarrow> string" where
  "mget m k = (case map_of m k of Some v \<Rightarrow> v | None \<Rightarrow> [])"

record SysctlResource =
  sr_Env :: Env
  sr_Settings :: strmap
  sr_PersistFile :: string

definition sortedKeys :: "strmap \<Rightarrow> string list" where
  "sortedKeys m = sort (remdups (map fst m))"

definition normalizeSysctlValue :: "string \<Rightarrow> string" where
  "normalizeSysctlValue s = strings_Join (strings_Fields s) '' ''"

definition managedHeader :: string where
  "managedHeader = ''# Managed by node-configurator. Local edits will be overwritten.'' @ [NL]"

definition renderSysctlFile :: "strmap \<Rightarrow> string" where
  "renderSysctlFile settings =
     managedHeader @ concat (map (\<lambda>key. key @ '' = '' @ mget settings key @ [NL]) (sortedKeys settings))"

definition sysctl_persistNeeded :: "SysctlResource \<Rightarrow> 'x world \<Rightarrow> bool" where
  "sysctl_persistNeeded r w =
     (if sr_PersistFile r = [] then False
      else (case ReadFileString (sr_PersistFile r) w of
              Inl err \<Rightarrow> True
            | Inr existing \<Rightarrow> existing \<noteq> renderSysctlFile (sr_Settings r)))"

fun diffLive_loop ::
  "SysctlResource \<Rightarrow> 'x world \<Rightarrow> string list \<Rightarrow> string list \<Rightarrow> string list \<Rightarrow> goerror + string list \<times> string list" where
  "diffLive_loop r w [] drift skipped = Inr (drift, skipped)"
| "diffLive_loop r w (key # keys) drift skipped =
     (let want = mget (sr_Settings r) key in
      if \<not> SysctlExists (sr_Env r) key w then diffLive_loop r w keys drift (skipped @ [key])
      else (case ReadSysctl (sr_Env r) key w of
              Inl readErr \<Rightarrow> Inl (Errorf (''reading sysctl '' @ key) readErr)
            | Inr cur \<Rightarrow>
                diffLive_loop r w keys
                  (if normalizeSysctlValue cur \<noteq> normalizeSysctlValue want
                   then drift @ [key @ '': '' @ fmt_q cur @ '' -> '' @ fmt_q want] else drift)
                  skipped))"

definition diffLive :: "SysctlResource \<Rightarrow> 'x world \<Rightarrow> goerror + string list \<times> string list" where
  "diffLive r w = diffLive_loop r w (sortedKeys (sr_Settings r)) [] []"

definition SysctlResource_Check :: "SysctlResource \<Rightarrow> 'x world \<Rightarrow> Result \<times> goerror option" where
  "SysctlResource_Check r w =
     (case diffLive r w of
        Inl err \<Rightarrow> (mkResult ''sysctl'' StatusFailed (errText err), Some err)
      | Inr (drift, skipped) \<Rightarrow>
          (let persistDrift = sysctl_persistNeeded r w in
           if drift = [] \<and> \<not> persistDrift then
             (let detail = (if skipped \<noteq> [] then
                  strconv_Itoa (int (length skipped)) @ '' key(s) not present on this kernel, skipped: ''
                    @ strings_Join skipped '', '' else [])
              in (mkResult ''sysctl'' StatusUnchanged detail, None))
           else
             (let detail = strings_Join drift '', '';
                  detail = (if persistDrift then joinDetails [detail, ''drop-in file out of date''] else detail)
              in (mkResult ''sysctl'' StatusWouldChange detail, None))))"

fun sysctl_apply_loop :: "SysctlResource \<Rightarrow> string list \<Rightarrow> 'x world \<Rightarrow> goerror option \<times> 'x world" where
  "sysctl_apply_loop r [] w = (None, w)"
| "sysctl_apply_loop r (key # keys) w =
     (let want = mget (sr_Settings r) key in
      if \<not> SysctlExists (sr_Env r) key w then sysctl_apply_loop r keys w
      else (case ReadSysctl (sr_Env r) key w of
              Inr cur \<Rightarrow>
                if normalizeSysctlValue cur = normalizeSysctlValue want then sysctl_apply_loop r keys w
                else (case WriteSysctl (sr_Env r) key want w of
                        (Some err, w') \<Rightarrow> (Some (Errorf (''applying sysctl '' @ key @ ''='' @ want) err), w')
                      | (None, w') \<Rightarrow> sysctl_apply_loop r keys w')
            | Inl readErr \<Rightarrow>
                (case WriteSysctl (sr_Env r) key want w of
                   (Some err, w') \<Rightarrow> (Some (Errorf (''applying sysctl '' @ key @ ''='' @ want) err), w')
                 | (None, w') \<Rightarrow> sysctl_apply_loop r keys w')))"

definition SysctlResource_Apply :: "SysctlResource \<Rightarrow> 'x world \<Rightarrow> goerror option \<times> 'x world" where
  "SysctlResource_Apply r w =
     (case sysctl_apply_loop r (sortedKeys (sr_Settings r)) w of
        (Some err, w') \<Rightarrow> (Some err, w')
      | (None, w') \<Rightarrow>
          (if sr_PersistFile r \<noteq> [] then
             (case WriteFileIfChanged (sr_PersistFile r) (renderSysctlFile (sr_Settings r)) 420 w' of
                (Inl err, w'') \<Rightarrow>
                  (Some (Errorf (''persisting sysctl drop-in '' @ sr_PersistFile r) err), w'')
              | (Inr _, w'') \<Rightarrow> (None, w''))
           else (None, w')))"

definition sysctlResource :: "SysctlResource \<Rightarrow> 'x world Resource" where
  "sysctlResource r =
     \<lparr>res_Name = ''sysctl'', res_Check = (\<lambda>w. (SysctlResource_Check r w, w)),
      res_Apply = SysctlResource_Apply r\<rparr>"

section \<open>Reading\<close>

lemma set_sortedKeys [simp]: "set (sortedKeys m) = fst ` set m"
  by (simp add: sortedKeys_def)

lemma distinct_sortedKeys [simp]: "distinct (sortedKeys m)"
  by (simp add: sortedKeys_def)

lemma normalize_TrimSpace [simp]: "normalizeSysctlValue (strings_TrimSpace s) = normalizeSysctlValue s"
  by (simp add: normalizeSysctlValue_def)

lemma normalize_idem [simp]: "normalizeSysctlValue (normalizeSysctlValue s) = normalizeSysctlValue s"
  by (simp add: normalizeSysctlValue_def)

text \<open>A key is settled when it is absent, or its live value equals the wanted one up to spacing.\<close>

definition key_settled :: "SysctlResource \<Rightarrow> 'x world \<Rightarrow> string \<Rightarrow> bool" where
  "key_settled r w key \<longleftrightarrow>
     SysctlExists (sr_Env r) key w \<longrightarrow>
     (\<exists>cur. ReadSysctl (sr_Env r) key w = Inr cur \<and>
       normalizeSysctlValue cur = normalizeSysctlValue (mget (sr_Settings r) key))"

definition key_unreadable :: "SysctlResource \<Rightarrow> 'x world \<Rightarrow> string \<Rightarrow> bool" where
  "key_unreadable r w key \<longleftrightarrow>
     SysctlExists (sr_Env r) key w \<and> (\<exists>e. ReadSysctl (sr_Env r) key w = Inl e)"

lemma diffLive_loop_Inl:
  "(\<exists>e. diffLive_loop r w keys drift skipped = Inl e) \<longleftrightarrow> list_ex (key_unreadable r w) keys"
  by (induction keys arbitrary: drift skipped)
    (auto simp: key_unreadable_def Let_def split: sum.splits)

lemma diffLive_loop_Inr:
  "diffLive_loop r w keys drift skipped = Inr (d, s) \<Longrightarrow>
   (d = [] \<longleftrightarrow> drift = [] \<and> list_all (key_settled r w) keys) \<and>
   s = skipped @ filter (\<lambda>k. \<not> SysctlExists (sr_Env r) k w) keys"
proof (induction keys arbitrary: drift skipped)
  case (Cons k keys)
  show ?case
  proof (cases "SysctlExists (sr_Env r) k w")
    case False
    with Cons.prems have "diffLive_loop r w keys drift (skipped @ [k]) = Inr (d, s)" by simp
    from Cons.IH[OF this] False show ?thesis by (simp add: key_settled_def)
  next
    case True
    with Cons.prems obtain cur where cur: "ReadSysctl (sr_Env r) k w = Inr cur"
      by (auto simp: Let_def split: sum.splits)
    let ?want = "mget (sr_Settings r) k"
    let ?drift = "if normalizeSysctlValue cur \<noteq> normalizeSysctlValue ?want
      then drift @ [k @ '': '' @ fmt_q cur @ '' -> '' @ fmt_q ?want] else drift"
    from Cons.prems True cur have "diffLive_loop r w keys ?drift skipped = Inr (d, s)"
      by (simp add: Let_def)
    from Cons.IH[OF this] True cur show ?thesis by (simp add: key_settled_def)
  qed
qed simp

lemma diffLive_settled:
  assumes "list_all (key_settled r w) keys"
  shows "diffLive_loop r w keys [] skipped =
    Inr ([], skipped @ filter (\<lambda>k. \<not> SysctlExists (sr_Env r) k w) keys)"
  using assms by (induction keys arbitrary: skipped) (auto simp: key_settled_def)


lemma SysctlResource_Check_cases:
  "r_Status (fst (SysctlResource_Check r w)) =
     (if list_ex (key_unreadable r w) (sortedKeys (sr_Settings r)) then StatusFailed
      else if list_all (key_settled r w) (sortedKeys (sr_Settings r)) \<and> \<not> sysctl_persistNeeded r w
           then StatusUnchanged else StatusWouldChange)"
proof (cases "diffLive r w")
  case (Inl e)
  then have "list_ex (key_unreadable r w) (sortedKeys (sr_Settings r))"
    using diffLive_loop_Inl[of r w] by (auto simp: diffLive_def)
  with Inl show ?thesis by (simp add: SysctlResource_Check_def)
next
  case (Inr p)
  obtain d s where p: "p = (d, s)" by force
  from Inr have "\<not> list_ex (key_unreadable r w) (sortedKeys (sr_Settings r))"
    using diffLive_loop_Inl[of r w "sortedKeys (sr_Settings r)" "[]" "[]"] by (simp add: diffLive_def)
  moreover from Inr p have "d = [] \<longleftrightarrow> list_all (key_settled r w) (sortedKeys (sr_Settings r))"
    using diffLive_loop_Inr[of r w] by (auto simp: diffLive_def)
  ultimately show ?thesis using Inr p by (auto simp: SysctlResource_Check_def Let_def)
qed

lemma SysctlResource_Check_error:
  "snd (SysctlResource_Check r w) \<noteq> None \<longleftrightarrow> r_Status (fst (SysctlResource_Check r w)) = StatusFailed"
  by (auto simp: SysctlResource_Check_def Let_def split: sum.splits prod.splits)

lemma SysctlResource_Check_name: "r_Name (fst (SysctlResource_Check r w)) = ''sysctl''"
  by (auto simp: SysctlResource_Check_def Let_def split: sum.splits prod.splits)

interpretation sysctl: resource_iface "sysctlResource r" for r :: SysctlResource
proof unfold_locales
  fix w :: "'a world"
  show "r_Name (chk_result (sysctlResource r) w) = res_Name (sysctlResource r)"
    by (simp add: sysctlResource_def SysctlResource_Check_name)
  show "(chk_status (sysctlResource r) w = StatusFailed) = (chk_error (sysctlResource r) w \<noteq> None)"
    by (simp only: sysctlResource_def Resource.simps fst_conv snd_conv SysctlResource_Check_error)
  show "chk_status (sysctlResource r) w \<noteq> StatusChanged"
    by (simp add: sysctlResource_def SysctlResource_Check_cases)
qed

section \<open>Writing\<close>

text \<open>
  What the kernel is relied on for: a key's file can be read, and a write it accepts reads back as
  the value written, up to the spacing between its fields. Regular files do this by themselves.
\<close>

definition file_echoes :: "string \<Rightarrow> fnode \<Rightarrow> bool" where
  "file_echoes v f \<longleftrightarrow> f_read_err f = None \<and>
     (case f_kind f of
        Regular opts \<Rightarrow> True
      | Knob h \<Rightarrow> \<forall>old c. h old v = (None, c) \<longrightarrow> normalizeSysctlValue c = normalizeSysctlValue v)"

definition sysctl_echoes :: "SysctlResource \<Rightarrow> 'x world \<Rightarrow> bool" where
  "sysctl_echoes r w \<longleftrightarrow>
     (\<forall>key \<in> fst ` set (sr_Settings r). \<forall>n. node_at w (SysctlPath (sr_Env r) key) = Some n \<longrightarrow>
        (\<exists>f. n = File f \<and> file_echoes (mget (sr_Settings r) key) f))"

text \<open>Distinct keys of the bundle have distinct files, none of them the drop-in file.\<close>

definition sysctl_separate :: "SysctlResource \<Rightarrow> bool" where
  "sysctl_separate r \<longleftrightarrow>
     inj_on (SysctlPath (sr_Env r)) (fst ` set (sr_Settings r)) \<and>
     (\<forall>key \<in> fst ` set (sr_Settings r). SysctlPath (sr_Env r) key \<notin> up_chain (sr_PersistFile r))"

lemma sysctl_separateI:
  assumes root: "rooted (env_root (sr_Env r))"
    and keys: "\<forall>key \<in> fst ` set (sr_Settings r). sysctl_key key"
    and pf: "sr_PersistFile r = Path (sr_Env r) cs" "\<forall>c \<in> set cs. plain_comp c"
      "cs \<noteq> []" "hd cs \<noteq> ''proc''"
  shows "sysctl_separate r"
  unfolding sysctl_separate_def
proof (intro conjI ballI)
  show "inj_on (SysctlPath (sr_Env r)) (fst ` set (sr_Settings r))"
    using keys SysctlPath_inj by (meson inj_onI)
  fix key
  show "SysctlPath (sr_Env r) key \<notin> up_chain (sr_PersistFile r)"
  proof
    assume "SysctlPath (sr_Env r) key \<in> up_chain (sr_PersistFile r)"
    moreover have "\<forall>c \<in> set ([''proc'', ''sys''] @ sysctl_elems key). plain_comp c"
      using sysctl_elems_plain[of key] plain_comp_proc_sys by simp
    ultimately obtain n where "[''proc'', ''sys''] @ sysctl_elems key = take n cs"
      using Path_up_chain[OF root _ pf(2)] by (auto simp only: SysctlPath_elems pf(1))
    with pf(3,4) show False by (cases n; cases cs) auto
  qed
qed

lemma write_existing_touches: "write_existing p data f w = (e, w') \<Longrightarrow> only_touches {p} w w'"
  by (auto simp: write_existing_def split: option.splits prod.splits)

lemma write_trunc_keeps:
  "write_trunc p data f = (e, f') \<Longrightarrow>
   f_kind f' = f_kind f \<and> f_read_err f' = f_read_err f \<and> f_locked f' = f_locked f \<and> f_mode f' = f_mode f"
  by (auto simp: write_trunc_def split: fkind.splits option.splits prod.splits)

lemma write_trunc_echo:
  assumes "write_trunc p v f = (None, f')" "file_echoes v f"
  shows "normalizeSysctlValue (f_content f') = normalizeSysctlValue v"
  using assms by (auto simp: write_trunc_def file_echoes_def split: fkind.splits option.splits prod.splits)

lemma WriteSysctl_echo:
  assumes "WriteSysctl e key v w = (None, w')"
    and "node_at w (SysctlPath e key) = Some (File f)" "file_echoes v f"
  shows "\<exists>f'. node_at w' (SysctlPath e key) = Some (File f') \<and> file_echoes u f' = file_echoes u f \<and>
     normalizeSysctlValue (f_content f') = normalizeSysctlValue v"
proof -
  from assms(1,2) have "write_existing (SysctlPath e key) v f w = (None, w')"
    by (simp add: WriteSysctl_def os_Stat_def os_WriteFile_def)
  then obtain f' where f': "write_trunc (SysctlPath e key) v f = (None, f')"
      "w' = set_node (SysctlPath e key) (File f') w"
    by (auto simp: write_existing_def split: option.splits prod.splits)
  then show ?thesis
    using write_trunc_keeps[OF f'(1)] write_trunc_echo[OF f'(1) assms(3)]
    by (auto simp: file_echoes_def)
qed

lemma WriteSysctl_writes: "WriteSysctl e key v w = (r, w') \<Longrightarrow> only_writes {SysctlPath e key} w w'"
  by (auto simp: WriteSysctl_def Let_def split: option.splits dest: os_WriteFile_writes)

lemma SysctlExists_iff: "SysctlExists e key w \<longleftrightarrow> node_at w (SysctlPath e key) \<noteq> None"
  by (simp add: SysctlExists_def os_Stat_None)

lemma key_settled_cong:
  "node_at w' (SysctlPath (sr_Env r) k) = node_at w (SysctlPath (sr_Env r) k) \<Longrightarrow>
   key_settled r w' k = key_settled r w k"
  by (auto simp: key_settled_def SysctlExists_iff ReadSysctl_def os_ReadFile_def
      split: option.splits node.splits)

text \<open>One round of the loop settles its key, keeps the kernel honest and touches nothing else.\<close>

lemma sysctl_step_settles:
  assumes echo: "sysctl_echoes r w" and key: "key \<in> fst ` set (sr_Settings r)"
    and sep: "inj_on (SysctlPath (sr_Env r)) (fst ` set (sr_Settings r))"
    and w: "WriteSysctl (sr_Env r) key (mget (sr_Settings r) key) w = (None, w1)"
    and ex: "SysctlExists (sr_Env r) key w"
  shows "key_settled r w1 key \<and> sysctl_echoes r w1"
proof -
  let ?p = "SysctlPath (sr_Env r) key"
  from ex echo key obtain f where f: "node_at w ?p = Some (File f)" "file_echoes (mget (sr_Settings r) key) f"
    by (auto simp: SysctlExists_iff sysctl_echoes_def)
  from WriteSysctl_echo[OF w f, of "mget (sr_Settings r) key"] f(2) obtain f' where
    f': "node_at w1 ?p = Some (File f')" "file_echoes (mget (sr_Settings r) key) f'"
      "normalizeSysctlValue (f_content f') = normalizeSysctlValue (mget (sr_Settings r) key)"
    by blast
  then have "key_settled r w1 key"
    by (simp add: key_settled_def ReadSysctl_def os_ReadFile_def file_echoes_def)
  moreover have "sysctl_echoes r w1"
    unfolding sysctl_echoes_def
  proof (intro ballI allI impI)
    fix k n
    assume k: "k \<in> fst ` set (sr_Settings r)" and n: "node_at w1 (SysctlPath (sr_Env r) k) = Some n"
    show "\<exists>f. n = File f \<and> file_echoes (mget (sr_Settings r) k) f"
    proof (cases "k = key")
      case True
      with n f' show ?thesis by auto
    next
      case False
      with sep k key have "SysctlPath (sr_Env r) k \<noteq> ?p" by (auto dest: inj_onD)
      with n only_writes_node[OF WriteSysctl_writes[OF w]] echo k show ?thesis
        by (auto simp: sysctl_echoes_def)
    qed
  qed
  ultimately show ?thesis ..
qed

lemma sysctl_apply_loop_writes:
  "sysctl_apply_loop r keys w = (e, w') \<Longrightarrow> only_writes (SysctlPath (sr_Env r) ` set keys) w w'"
proof (induction keys arbitrary: w)
  case (Cons k keys)
  obtain e1 w1 where ws: "WriteSysctl (sr_Env r) k (mget (sr_Settings r) k) w = (e1, w1)" by force
  have step: "only_writes (SysctlPath (sr_Env r) ` set (k # keys)) w w1"
    using WriteSysctl_writes[OF ws] by (rule only_writes_mono) simp
  have rest: "only_writes (SysctlPath (sr_Env r) ` set (k # keys)) u w'"
    if "sysctl_apply_loop r keys u = (e, w')" for u
    using Cons.IH[OF that] by (rule only_writes_mono) auto
  from Cons.prems ws have "w' = w1 \<or> sysctl_apply_loop r keys w1 = (e, w') \<or> sysctl_apply_loop r keys w = (e, w')"
    by (auto simp: Let_def split: if_splits sum.splits option.splits)
  then show ?case using step rest only_writes_trans by blast
qed simp

lemma sysctl_apply_loop_settles:
  assumes "sysctl_apply_loop r keys w = (None, w')" "distinct keys"
    and "set keys \<subseteq> fst ` set (sr_Settings r)" "sysctl_echoes r w"
    and sep: "inj_on (SysctlPath (sr_Env r)) (fst ` set (sr_Settings r))"
  shows "list_all (key_settled r w') keys \<and> sysctl_echoes r w'"
  using assms(1-4)
proof (induction keys arbitrary: w)
  case (Cons k keys)
  have k: "k \<in> fst ` set (sr_Settings r)" using Cons.prems(3) by simp
  have keep: "key_settled r w' k"
    if "sysctl_apply_loop r keys u = (None, w')" "key_settled r u k" for u
  proof -
    have "SysctlPath (sr_Env r) k \<notin> SysctlPath (sr_Env r) ` set keys"
      using sep k Cons.prems(2,3) by (auto dest: inj_onD)
    with only_writes_node[OF sysctl_apply_loop_writes[OF that(1)]] that(2) show ?thesis
      by (simp add: key_settled_cong[of w' r k u])
  qed
  obtain e1 w1 where ws: "WriteSysctl (sr_Env r) k (mget (sr_Settings r) k) w = (e1, w1)" by force
  consider (idle) "sysctl_apply_loop r keys w = (None, w')" "key_settled r w k"
    | (wrote) "sysctl_apply_loop r keys w1 = (None, w')" "e1 = None" "SysctlExists (sr_Env r) k w"
    using Cons.prems(1) ws
    by (auto simp: Let_def key_settled_def split: if_splits sum.splits option.splits)
  then show ?case
  proof cases
    case idle
    with Cons keep show ?thesis by simp
  next
    case wrote
    with sysctl_step_settles[OF Cons.prems(4) k sep] ws have
      "key_settled r w1 k" "sysctl_echoes r w1" by simp_all
    with wrote Cons keep show ?thesis by simp
  qed
qed simp

lemma SysctlResource_Apply_settles:
  assumes ap: "SysctlResource_Apply r w = (None, w')"
    and echo: "sysctl_echoes r w" and sep: "sysctl_separate r"
  shows "r_Status (fst (SysctlResource_Check r w')) = StatusUnchanged \<and> sysctl_echoes r w'"
proof -
  let ?keys = "sortedKeys (sr_Settings r)" and ?pf = "sr_PersistFile r"
  from ap obtain w1 where loop: "sysctl_apply_loop r ?keys w = (None, w1)"
    and rest: "?pf = [] \<and> w' = w1 \<or>
      ?pf \<noteq> [] \<and> (\<exists>b. WriteFileIfChanged ?pf (renderSysctlFile (sr_Settings r)) 420 w1 = (Inr b, w'))"
    by (auto simp: SysctlResource_Apply_def split: prod.splits option.splits sum.splits if_splits)
  from sysctl_apply_loop_settles[OF loop] echo sep
  have s1: "list_all (key_settled r w1) ?keys" "sysctl_echoes r w1"
    by (simp_all add: sysctl_separate_def)
  have same: "node_at w' (SysctlPath (sr_Env r) k) = node_at w1 (SysctlPath (sr_Env r) k)"
    if "k \<in> fst ` set (sr_Settings r)" for k
  proof -
    have notin: "SysctlPath (sr_Env r) k \<notin> up_chain ?pf" using that sep by (auto simp: sysctl_separate_def)
    from rest show ?thesis
    proof
      assume "?pf \<noteq> [] \<and> (\<exists>b. WriteFileIfChanged ?pf (renderSysctlFile (sr_Settings r)) 420 w1 = (Inr b, w'))"
      then have "only_touches {?pf} w1 w'" using WriteFileIfChanged_touches by blast
      then show ?thesis by (rule only_touches_same) (simp add: notin)
    qed simp
  qed
  then have settled: "list_all (key_settled r w') ?keys" "sysctl_echoes r w'"
    using s1 key_settled_cong[of w' r _ w1] by (auto simp: list_all_iff sysctl_echoes_def)
  have "\<not> sysctl_persistNeeded r w'"
    using rest
    by (auto simp: sysctl_persistNeeded_def ReadFileString_def dest: WriteFileIfChanged_ok)
  moreover have "\<not> list_ex (key_unreadable r w') ?keys"
    using settled(1) by (auto simp: list_all_iff list_ex_iff key_unreadable_def key_settled_def)
  ultimately show ?thesis using settled by (simp add: SysctlResource_Check_cases)
qed

interpretation sysctl: convergent_resource "sysctlResource r" "\<lambda>w. sysctl_separate r \<and> sysctl_echoes r w"
  for r :: SysctlResource
proof unfold_locales
  fix w w' :: "'a world"
  assume "sysctl_separate r \<and> sysctl_echoes r w"
  then show "snd (res_Check (sysctlResource r) w) = w" by (simp add: sysctlResource_def)
  assume "res_Apply (sysctlResource r) w = (None, w')"
  then have "SysctlResource_Apply r w = (None, w')" by (simp add: sysctlResource_def)
  with \<open>sysctl_separate r \<and> sysctl_echoes r w\<close> SysctlResource_Apply_settles[of r w w']
  have st: "r_Status (fst (SysctlResource_Check r w')) = StatusUnchanged" "sysctl_echoes r w'" by simp_all
  then show "sysctl_separate r \<and> sysctl_echoes r w'"
    using \<open>sysctl_separate r \<and> sysctl_echoes r w\<close> by simp
  show "chk_error (sysctlResource r) w' = None \<and> chk_status (sysctlResource r) w' \<noteq> StatusWouldChange"
    using st SysctlResource_Check_error[of r w'] by (simp add: sysctlResource_def)
qed

section \<open>Properties\<close>

text \<open>
  C22. What the sysctl \<^verbatim>\<open>Check\<close> reports, exactly: \<^verbatim>\<open>failed\<close> if some existing key cannot be read,
  \<^verbatim>\<open>unchanged\<close> if every existing key holds the wanted value up to spacing and the drop-in file is
  up to date, \<^verbatim>\<open>would_change\<close> otherwise. Keys the kernel does not have never count as drift.
\<close>

theorem SysctlResource_Check_exact:
  "r_Status (fst (SysctlResource_Check r w)) =
     (if list_ex (key_unreadable r w) (sortedKeys (sr_Settings r)) then StatusFailed
      else if list_all (key_settled r w) (sortedKeys (sr_Settings r)) \<and> \<not> sysctl_persistNeeded r w
           then StatusUnchanged else StatusWouldChange)"
  by (rule SysctlResource_Check_cases)

text \<open>
  C5. Sysctl convergence: on a kernel whose files can be read and echo an accepted value up to
  spacing, a successful \<^verbatim>\<open>Apply\<close> makes the next \<^verbatim>\<open>Check\<close> report \<^verbatim>\<open>unchanged\<close>.
\<close>

theorem SysctlResource_converges:
  assumes "SysctlResource_Apply r w = (None, w')" "sysctl_echoes r w" "sysctl_separate r"
  shows "r_Status (fst (SysctlResource_Check r w')) = StatusUnchanged"
  using SysctlResource_Apply_settles[OF assms] ..

text \<open>
  A kernel that renders multi-value settings with tabs, as Linux does for \<^verbatim>\<open>net.ipv4.tcp_rmem\<close>.
\<close>

definition tabs_knob :: "string \<Rightarrow> string \<Rightarrow> errno option \<times> string" where
  "tabs_knob old v = (None, strings_Join (strings_Fields v) [TAB] @ [NL])"

definition rmem_resource :: SysctlResource where
  "rmem_resource =
     \<lparr>sr_Env = New, sr_Settings = [(''net.tcp_rmem'', ''4096 131072 6291456'')],
      sr_PersistFile = Path New [''etc'', ''99.conf'']\<rparr>"

definition rmem_world :: "unit world" where
  "rmem_world =
     \<lparr>w_fs = [(''/'', plain_dir), (''/proc/sys/net/tcp_rmem'', knob tabs_knob ''4096'')], w_ext = ()\<rparr>"

lemma tabs_knob_echoes: "tabs_knob old v = (None, c) \<Longrightarrow> normalizeSysctlValue c = normalizeSysctlValue v"
proof -
  assume "tabs_knob old v = (None, c)"
  then have "strings_Fields c = strings_Fields (strings_Join (strings_Fields v) [TAB] @ NL # [])"
    by (simp add: tabs_knob_def)
  also have "\<dots> = strings_Fields v"
    by (subst Fields_append_ascii) (simp_all add: Fields_Join Fields_fields)
  finally show ?thesis by (simp add: normalizeSysctlValue_def)
qed

theorem SysctlResource_converges_witness:
  "\<exists>w'. SysctlResource_Apply rmem_resource rmem_world = (None, w') \<and>
     r_Status (fst (SysctlResource_Check rmem_resource rmem_world)) = StatusWouldChange \<and>
     r_Status (fst (SysctlResource_Check rmem_resource w')) = StatusUnchanged"
proof -
  let ?w' = "snd (SysctlResource_Apply rmem_resource rmem_world)"
  have "fst (SysctlResource_Apply rmem_resource rmem_world) = None" by code_simp
  then have ap: "SysctlResource_Apply rmem_resource rmem_world = (None, ?w')"
    by (simp add: prod_eq_iff)
  have path: "SysctlPath New ''net.tcp_rmem'' = ''/proc/sys/net/tcp_rmem''" by code_simp
  have echo: "sysctl_echoes rmem_resource rmem_world"
    using tabs_knob_echoes
    by (auto simp: sysctl_echoes_def rmem_resource_def rmem_world_def path node_at_def knob_def
        file_echoes_def)
  have "sysctl_separate rmem_resource"
    by (rule sysctl_separateI[where cs = "[''etc'', ''99.conf'']"])
      (auto simp: rmem_resource_def New_def env_root_def rooted_def sysctl_key_def plain_comp_def)
  from SysctlResource_converges[OF ap echo this]
  have "r_Status (fst (SysctlResource_Check rmem_resource ?w')) = StatusUnchanged" .
  moreover have "r_Status (fst (SysctlResource_Check rmem_resource rmem_world)) = StatusWouldChange"
    by code_simp
  ultimately show ?thesis using ap by blast
qed

end
