(* ===== verification/Profile.thy ===== *)
theory Profile
  imports Facts Sysctl_Resource
begin

text \<open>
  Package \<^verbatim>\<open>internal/profile\<close>: the desired state of a host, computed from its facts and the operator's
  overrides. It is pure data and formulas. Integers are 64 bits wide and wrap; \<open>oor\<close> is the value Go
  leaves open when a \<^verbatim>\<open>float64\<close> outside the range of \<^verbatim>\<open>int64\<close> is converted.
\<close>

section \<open>types.go\<close>

record LimitsSpec =
  l_NoFile :: "64 word"
  l_NProc :: "64 word"

record MountSpec =
  m_Name :: string
  m_Device :: string
  m_Path :: string
  m_FSType :: string
  m_Options :: string
  m_FstabPersist :: bool

record HugePagesSpec =
  hp_Enabled :: bool
  hp_Count2M :: int

record IRQSpec =
  irq_Enabled :: bool

record NICSpec =
  n_RingBufferMax :: bool
  n_RPS :: bool
  n_XPS :: bool

record IOSchedulerSpec =
  ios_Enabled :: bool
  ios_Scheduler :: string

record SwapSpec =
  swap_Disable :: bool

record Profile =
  p_Sysctls :: strmap
  p_Modules :: "string list"
  p_Limits :: LimitsSpec
  p_Mounts :: "MountSpec list"
  p_HugePages :: HugePagesSpec
  p_IRQ :: IRQSpec
  p_NIC :: NICSpec
  p_CPUGovernor :: string
  p_IOScheduler :: IOSchedulerSpec
  p_Swap :: SwapSpec

definition set_sysctl :: "string \<Rightarrow> string \<Rightarrow> Profile \<Rightarrow> Profile" where
  "set_sysctl k v p = p\<lparr>p_Sysctls := AList.update k v (p_Sysctls p)\<rparr>"

section \<open>base.go\<close>

definition baseSysctls :: strmap where
  "baseSysctls =
     [(''vm.max_map_count'', ''262144''), (''vm.swappiness'', ''0''),
      (''fs.inotify.max_user_watches'', ''1048576''), (''fs.inotify.max_user_instances'', ''8192''),
      (''fs.nr_open'', ''1048576''), (''net.ipv4.ip_forward'', ''1''),
      (''net.core.bpf_jit_enable'', ''1''), (''net.core.bpf_jit_harden'', ''0''),
      (''kernel.unprivileged_bpf_disabled'', ''1''), (''kernel.panic'', ''10''),
      (''kernel.panic_on_oops'', ''1'')]"

definition newBaseProfile :: "Facts \<Rightarrow> Profile" where
  "newBaseProfile f =
     \<lparr>p_Sysctls = baseSysctls, p_Modules = [], p_Limits = \<lparr>l_NoFile = 1048576, l_NProc = 0\<rparr>, p_Mounts = [],
      p_HugePages = \<lparr>hp_Enabled = False, hp_Count2M = 0\<rparr>, p_IRQ = \<lparr>irq_Enabled = 1 < VCPUs f\<rparr>,
      p_NIC = \<lparr>n_RingBufferMax = True, n_RPS = True, n_XPS = True\<rparr>, p_CPUGovernor = ''performance'',
      p_IOScheduler = \<lparr>ios_Enabled = True, ios_Scheduler = ''none''\<rparr>, p_Swap = \<lparr>swap_Disable = True\<rparr>\<rparr>"

section \<open>scaling.go\<close>

definition clampInt :: "int \<Rightarrow> int \<Rightarrow> int \<Rightarrow> int" where
  "clampInt v lo hi = (if v < lo then lo else if hi < v then hi else v)"

text \<open>The scaled values, one definition per local variable of \<^verbatim>\<open>applyScaling\<close>.\<close>

definition sc_vcpus :: "Facts \<Rightarrow> int" where
  "sc_vcpus f = (if VCPUs f \<le> 0 then 1 else VCPUs f)"

definition sc_fileMax :: "(float64 \<Rightarrow> int) \<Rightarrow> Facts \<Rightarrow> int" where
  "sc_fileMax oor f =
     (let memMiB = (if MemMiB f \<le> 0 then 1024 else MemMiB f);
          memGiB = fl_divc (fl_of_int memMiB) 1024
      in clampInt (fl_to_int64 oor (fl_mulc memGiB 131072)) 1048576 12582912)"

definition sc_somaxconn :: "Facts \<Rightarrow> int" where
  "sc_somaxconn f = clampInt (i64 (sc_vcpus f * 2048)) 4096 65535"

definition sc_threadsMax :: "Facts \<Rightarrow> int" where
  "sc_threadsMax f = clampInt (i64 (sc_vcpus f * 4096)) 131072 4194304"

definition sc_backlog :: "(float64 \<Rightarrow> int) \<Rightarrow> Facts \<Rightarrow> int" where
  "sc_backlog oor f = clampInt (fl_to_int64 oor (fl_mulc (NetworkBandwidthGbps f) 2000)) 4096 250000"

definition sc_rmemMax :: "(float64 \<Rightarrow> int) \<Rightarrow> Facts \<Rightarrow> int" where
  "sc_rmemMax oor f =
     clampInt (i64 (i64 (fl_to_int64 oor (NetworkBandwidthGbps f) * 2) * 1048576)) 4194304 134217728"

definition sc_bpfJitLimit :: "Facts \<Rightarrow> int" where
  "sc_bpfJitLimit f = clampInt (i64 (sc_vcpus f * 8388608)) 268435456 1073741824"

definition sc_thresh3 :: "Facts \<Rightarrow> int" where
  "sc_thresh3 f = clampInt (i64 (MaxNeighborEntries f * 16)) 1024 131072"

definition sc_thresh2 :: "Facts \<Rightarrow> int" where
  "sc_thresh2 f = max (go_quot (sc_thresh3 f) 2) 512"

definition sc_thresh1 :: "Facts \<Rightarrow> int" where
  "sc_thresh1 f = max (go_quot (sc_thresh3 f) 8) 128"

text \<open>The keys that scale, with the value each is given, in the order the source assigns them.\<close>

definition scaledSysctls :: "(float64 \<Rightarrow> int) \<Rightarrow> Facts \<Rightarrow> strmap" where
  "scaledSysctls oor f =
     [(''fs.file-max'', strconv_Itoa (sc_fileMax oor f)),
      (''net.core.somaxconn'', strconv_Itoa (sc_somaxconn f)),
      (''kernel.threads-max'', strconv_Itoa (sc_threadsMax f)),
      (''kernel.pid_max'', strconv_Itoa (sc_threadsMax f)),
      (''net.core.netdev_max_backlog'', strconv_Itoa (sc_backlog oor f)),
      (''net.core.rmem_max'', strconv_Itoa (sc_rmemMax oor f)),
      (''net.core.wmem_max'', strconv_Itoa (sc_rmemMax oor f)),
      (''net.ipv4.tcp_rmem'', ''4096 131072 '' @ strconv_Itoa (sc_rmemMax oor f)),
      (''net.ipv4.tcp_wmem'', ''4096 65536 '' @ strconv_Itoa (sc_rmemMax oor f)),
      (''net.core.bpf_jit_limit'', strconv_Itoa (sc_bpfJitLimit f)),
      (''net.ipv4.neigh.default.gc_thresh1'', strconv_Itoa (sc_thresh1 f)),
      (''net.ipv4.neigh.default.gc_thresh2'', strconv_Itoa (sc_thresh2 f)),
      (''net.ipv4.neigh.default.gc_thresh3'', strconv_Itoa (sc_thresh3 f))]"

definition applyScaling :: "(float64 \<Rightarrow> int) \<Rightarrow> Facts \<Rightarrow> Profile \<Rightarrow> Profile" where
  "applyScaling oor f p = fold (\<lambda>(k, v). set_sysctl k v) (scaledSysctls oor f) p"

section \<open>cilium.go\<close>

record CiliumOptions =
  co_TunnelMode :: string
  co_LegacyIPTables :: bool

definition bpffsPath :: string where
  "bpffsPath = ''/sys/fs/bpf''"

definition bpffsMount :: MountSpec where
  "bpffsMount = \<lparr>m_Name = ''bpffs-mount'', m_Device = ''bpffs'', m_Path = bpffsPath, m_FSType = ''bpf'',
     m_Options = ''rw,nosuid,nodev,noexec,relatime'', m_FstabPersist = True\<rparr>"

definition applyCiliumPrereqs :: "CiliumOptions \<Rightarrow> Profile \<Rightarrow> Profile" where
  "applyCiliumPrereqs opts p =
     (let p = p\<lparr>p_Mounts := p_Mounts p @ [bpffsMount]\<rparr>;
          p = (if co_TunnelMode opts = ''vxlan'' then p\<lparr>p_Modules := p_Modules p @ [''vxlan'']\<rparr>
               else if co_TunnelMode opts = ''geneve'' then p\<lparr>p_Modules := p_Modules p @ [''geneve'']\<rparr>
               else p)
      in if co_LegacyIPTables opts then
           set_sysctl ''net.bridge.bridge-nf-call-ip6tables'' ''1''
             (set_sysctl ''net.bridge.bridge-nf-call-iptables'' ''1''
               (p\<lparr>p_Modules := p_Modules p @ [''br_netfilter'', ''nf_conntrack'', ''iptable_nat'', ''iptable_filter'']\<rparr>))
         else p)"

section \<open>merge.go\<close>

record Overrides =
  ov_SysctlOverrides :: strmap
  ov_NoFileLimit :: "64 word"
  ov_CPUGovernor :: "string option"
  ov_HugePages2M :: int
  ov_Cilium :: CiliumOptions
  ov_IRQAffinity :: "bool option"
  ov_RingBufferMax :: "bool option"
  ov_RPS :: "bool option"
  ov_XPS :: "bool option"
  ov_IOScheduler :: "string option"

definition maps_Copy :: "strmap \<Rightarrow> Profile \<Rightarrow> Profile" where
  "maps_Copy src p = fold (\<lambda>(k, v). set_sysctl k v) src p"

definition override_hugepages :: "Overrides \<Rightarrow> Profile \<Rightarrow> Profile" where
  "override_hugepages ov p =
     (if 0 < ov_HugePages2M ov
      then set_sysctl ''vm.nr_hugepages'' (strconv_Itoa (ov_HugePages2M ov))
             (p\<lparr>p_HugePages := \<lparr>hp_Enabled = True, hp_Count2M = ov_HugePages2M ov\<rparr>\<rparr>)
      else p)"

definition override_features :: "Overrides \<Rightarrow> Profile \<Rightarrow> Profile" where
  "override_features ov p =
     (let p = (case ov_IRQAffinity ov of None \<Rightarrow> p | Some b \<Rightarrow> p\<lparr>p_IRQ := \<lparr>irq_Enabled = b\<rparr>\<rparr>);
          p = (case ov_RingBufferMax ov of None \<Rightarrow> p | Some b \<Rightarrow> p\<lparr>p_NIC := (p_NIC p)\<lparr>n_RingBufferMax := b\<rparr>\<rparr>);
          p = (case ov_RPS ov of None \<Rightarrow> p | Some b \<Rightarrow> p\<lparr>p_NIC := (p_NIC p)\<lparr>n_RPS := b\<rparr>\<rparr>);
          p = (case ov_XPS ov of None \<Rightarrow> p | Some b \<Rightarrow> p\<lparr>p_NIC := (p_NIC p)\<lparr>n_XPS := b\<rparr>\<rparr>)
      in case ov_IOScheduler ov of
           None \<Rightarrow> p
         | Some s \<Rightarrow> p\<lparr>p_IOScheduler := \<lparr>ios_Enabled = s \<noteq> [], ios_Scheduler = s\<rparr>\<rparr>)"

definition applyOverrides :: "Overrides \<Rightarrow> Profile \<Rightarrow> Profile" where
  "applyOverrides ov p =
     (let p = maps_Copy (ov_SysctlOverrides ov) p;
          p = (if 0 < ov_NoFileLimit ov then p\<lparr>p_Limits := (p_Limits p)\<lparr>l_NoFile := ov_NoFileLimit ov\<rparr>\<rparr> else p);
          p = (case ov_CPUGovernor ov of None \<Rightarrow> p | Some g \<Rightarrow> p\<lparr>p_CPUGovernor := g\<rparr>);
          p = override_hugepages ov p
      in override_features ov p)"

definition profile_Build :: "(float64 \<Rightarrow> int) \<Rightarrow> Facts \<Rightarrow> Overrides \<Rightarrow> Profile" where
  "profile_Build oor f ov =
     applyOverrides ov (applyCiliumPrereqs (ov_Cilium ov) (applyScaling oor f (newBaseProfile f)))"

section \<open>Lookups\<close>

lemma set_sysctl_map [simp]: "map_of (p_Sysctls (set_sysctl k v p)) = (map_of (p_Sysctls p))(k \<mapsto> v)"
  by (simp add: set_sysctl_def)

lemma set_sysctl_other [simp]:
  "p_Modules (set_sysctl k v p) = p_Modules p" "p_Limits (set_sysctl k v p) = p_Limits p"
  "p_Mounts (set_sysctl k v p) = p_Mounts p" "p_HugePages (set_sysctl k v p) = p_HugePages p"
  "p_IRQ (set_sysctl k v p) = p_IRQ p" "p_NIC (set_sysctl k v p) = p_NIC p"
  "p_CPUGovernor (set_sysctl k v p) = p_CPUGovernor p" "p_IOScheduler (set_sysctl k v p) = p_IOScheduler p"
  "p_Swap (set_sysctl k v p) = p_Swap p"
  by (simp_all add: set_sysctl_def)

lemma copy_map:
  "distinct (map fst kvs) \<Longrightarrow>
   map_of (p_Sysctls (fold (\<lambda>(k, v). set_sysctl k v) kvs p)) x =
     (case map_of kvs x of Some v \<Rightarrow> Some v | None \<Rightarrow> map_of (p_Sysctls p) x)"
proof (induction kvs arbitrary: p)
  case (Cons kv kvs)
  obtain k v where kv: "kv = (k, v)" by force
  have "map_of kvs k = None" using Cons.prems kv by (simp add: map_of_eq_None_iff)
  with Cons kv show ?case by (auto split: option.split)
qed simp

lemma copy_other:
  fixes kvs :: strmap
  defines "q \<equiv> fold (\<lambda>(k, v). set_sysctl k v) kvs"
  shows "p_Modules (q p) = p_Modules p" "p_Limits (q p) = p_Limits p" "p_Mounts (q p) = p_Mounts p"
    "p_HugePages (q p) = p_HugePages p" "p_IRQ (q p) = p_IRQ p" "p_NIC (q p) = p_NIC p"
    "p_CPUGovernor (q p) = p_CPUGovernor p" "p_IOScheduler (q p) = p_IOScheduler p" "p_Swap (q p) = p_Swap p"
  unfolding q_def by (induction kvs arbitrary: p) auto

lemma scaled_keys_distinct: "distinct (map fst (scaledSysctls oor f))"
  by (simp add: scaledSysctls_def)

section \<open>Bounds\<close>

lemma clampInt_bounds: "lo \<le> hi \<Longrightarrow> lo \<le> clampInt v lo hi \<and> clampInt v lo hi \<le> hi"
  by (simp add: clampInt_def)

lemma thresh_ordered:
  "128 \<le> sc_thresh1 f \<and> sc_thresh1 f \<le> sc_thresh2 f \<and> sc_thresh2 f \<le> sc_thresh3 f \<and> sc_thresh3 f \<le> 131072"
proof -
  have "1024 \<le> sc_thresh3 f" "sc_thresh3 f \<le> 131072"
    using clampInt_bounds[of 1024 131072] by (simp_all add: sc_thresh3_def)
  then show ?thesis by (auto simp: sc_thresh1_def sc_thresh2_def go_quot_nonneg)
qed

text \<open>The range every scaled setting is clamped to.\<close>

definition scaled_ranges :: "(string \<times> int \<times> int) list" where
  "scaled_ranges =
     [(''fs.file-max'', 1048576, 12582912), (''net.core.somaxconn'', 4096, 65535),
      (''kernel.threads-max'', 131072, 4194304), (''kernel.pid_max'', 131072, 4194304),
      (''net.core.netdev_max_backlog'', 4096, 250000), (''net.core.rmem_max'', 4194304, 134217728),
      (''net.core.wmem_max'', 4194304, 134217728), (''net.core.bpf_jit_limit'', 268435456, 1073741824),
      (''net.ipv4.neigh.default.gc_thresh1'', 128, 16384),
      (''net.ipv4.neigh.default.gc_thresh2'', 512, 65536),
      (''net.ipv4.neigh.default.gc_thresh3'', 1024, 131072)]"

definition in_range :: "strmap \<Rightarrow> string \<times> int \<times> int \<Rightarrow> bool" where
  "in_range m r = (case r of (k, lo, hi) \<Rightarrow>
     (case strconv_Atoi (mget m k) of None \<Rightarrow> False | Some v \<Rightarrow> lo \<le> v \<and> v \<le> hi))"

lemma in_range_Itoa:
  "map_of m k = Some (strconv_Itoa v) \<Longrightarrow> lo \<le> v \<Longrightarrow> v \<le> hi \<Longrightarrow> - (2 ^ 63) \<le> lo \<Longrightarrow> hi < 2 ^ 63 \<Longrightarrow>
   in_range m (k, lo, hi)"
  by (simp add: in_range_def mget_def Atoi_Itoa in_i64_def)

lemma applyScaling_lookup:
  "map_of (scaledSysctls oor f) k = Some v \<Longrightarrow> map_of (p_Sysctls (applyScaling oor f p)) k = Some v"
  by (simp add: applyScaling_def copy_map[OF scaled_keys_distinct])

lemma sc_bounds:
  "1048576 \<le> sc_fileMax oor f \<and> sc_fileMax oor f \<le> 12582912"
  "4096 \<le> sc_somaxconn f \<and> sc_somaxconn f \<le> 65535"
  "131072 \<le> sc_threadsMax f \<and> sc_threadsMax f \<le> 4194304"
  "4096 \<le> sc_backlog oor f \<and> sc_backlog oor f \<le> 250000"
  "4194304 \<le> sc_rmemMax oor f \<and> sc_rmemMax oor f \<le> 134217728"
  "268435456 \<le> sc_bpfJitLimit f \<and> sc_bpfJitLimit f \<le> 1073741824"
  "1024 \<le> sc_thresh3 f \<and> sc_thresh3 f \<le> 131072"
  by (simp_all add: sc_fileMax_def sc_somaxconn_def sc_threadsMax_def sc_backlog_def sc_rmemMax_def
      sc_bpfJitLimit_def sc_thresh3_def Let_def clampInt_bounds)

lemma sc_thresh_bounds: "128 \<le> sc_thresh1 f \<and> sc_thresh1 f \<le> 16384" "512 \<le> sc_thresh2 f \<and> sc_thresh2 f \<le> 65536"
  using sc_bounds(7)[of f] by (auto simp: sc_thresh1_def sc_thresh2_def go_quot_nonneg)

section \<open>Properties\<close>

text \<open>
  C11. Scaled settings stay in their range, whatever the facts: for every instance (including nonsensical
  sizes, overflowing products and bandwidths that do not fit an integer) each scaled sysctl is a number
  within the bounds it is clamped to, and the neighbour-table thresholds are ordered.
\<close>

theorem applyScaling_bounds:
  "list_all (in_range (p_Sysctls (applyScaling oor f p))) scaled_ranges \<and>
   sc_thresh1 f \<le> sc_thresh2 f \<and> sc_thresh2 f \<le> sc_thresh3 f"
proof
  have l: "in_range (p_Sysctls (applyScaling oor f p)) (k, lo, hi)"
    if "map_of (scaledSysctls oor f) k = Some (strconv_Itoa v)" "lo \<le> v \<and> v \<le> hi" "- (2 ^ 63) \<le> lo" "hi < 2 ^ 63"
    for k lo hi v
    using in_range_Itoa[OF applyScaling_lookup[OF that(1)]] that(2-4) by blast
  show "list_all (in_range (p_Sysctls (applyScaling oor f p))) scaled_ranges"
    unfolding scaled_ranges_def list.pred_inject(2)
    by (intro conjI list.pred_inject(1); (rule l, (simp add: scaledSysctls_def; fail),
        (rule sc_bounds sc_thresh_bounds), (simp; fail), (simp; fail)))
  show "sc_thresh1 f \<le> sc_thresh2 f \<and> sc_thresh2 f \<le> sc_thresh3 f"
    using thresh_ordered[of f] by blast
qed

text \<open>
  C35. The file limit is exact below the precision of \<^verbatim>\<open>float64\<close>: for any memory size under \<open>2 ^ 53\<close> MiB
  no rounding happens on the way through floating point, and \<^verbatim>\<open>fs.file-max\<close> is 128 files per MiB, clamped.
\<close>

theorem fileMax_exact:
  assumes "0 < MemMiB f" "MemMiB f < 2 ^ 53"
  shows "sc_fileMax oor f = clampInt (128 * MemMiB f) 1048576 12582912"
proof -
  let ?m = "MemMiB f"
  have big: "\<bar>of_int ?m * pow2 k\<bar> < pow2 1024" if "k \<le> 100" for k
  proof -
    have "(of_int ?m :: rat) < of_int (2 ^ 53)" using assms(2) by (simp only: of_int_less_iff)
    then have "of_int ?m * pow2 k < pow2 53 * pow2 k" using pow2_pos[of k] by (simp add: pow2_def)
    also have "\<dots> \<le> pow2 1024" using that pow2_mono[of "53 + k" 1024] by (simp add: pow2_add)
    finally show ?thesis using assms(1) pow2_pos[of k] by (simp add: abs_mult)
  qed
  have a: "fl_of_int ?m = Fin (of_int ?m)" using assms by (intro fl_of_int_exact) simp
  have q: "(of_int ?m :: rat) / 1024 = of_int ?m * pow2 (- 10)" by (simp add: pow2_def)
  have b: "fl_round (of_int ?m / 1024) = Fin (of_int ?m / 1024)"
    by (rule fl_round_exact[OF q]) (simp_all only: q big, use assms in simp_all)
  have r: "(of_int ?m :: rat) / 1024 * 131072 = of_int ?m * pow2 7" by (simp add: pow2_def)
  have c: "fl_round (of_int ?m / 1024 * 131072) = Fin (of_int ?m / 1024 * 131072)"
    by (rule fl_round_exact[OF r]) (simp_all only: r big, use assms in simp_all)
  have v: "(of_int ?m :: rat) / 1024 * 131072 = of_int (128 * ?m)" by simp
  have "rat_trunc (of_int (128 * ?m)) = 128 * ?m"
    using assms(1) by (simp only: rat_trunc_def floor_of_int) simp
  moreover have "in_i64 (128 * ?m)" using assms by (simp add: in_i64_def)
  ultimately have w: "fl_to_int64 oor (Fin (of_int ?m / 1024 * 131072)) = 128 * ?m"
    by (simp only: v fl_to_int64.simps) simp
  have "(?m \<le> 0) = False" using assms(1) by simp
  then show ?thesis
    unfolding sc_fileMax_def Let_def by (simp only: if_False a b c w fl_divc.simps fl_mulc.simps)
qed

theorem fileMax_exact_witness:
  "sc_fileMax (\<lambda>_. 0) (zeroFacts\<lparr>MemMiB := 16384\<rparr>) = 2097152"
  using fileMax_exact[of "zeroFacts\<lparr>MemMiB := 16384\<rparr>" "\<lambda>_. 0"] by (simp add: clampInt_def)

section \<open>Precedence\<close>

text \<open>What a setting is meant to be: the layers of \<^verbatim>\<open>Build\<close> from the strongest to the weakest.\<close>

definition sysctl_spec :: "(float64 \<Rightarrow> int) \<Rightarrow> Facts \<Rightarrow> Overrides \<Rightarrow> string \<Rightarrow> string option" where
  "sysctl_spec oor f ov k =
     (if k = ''vm.nr_hugepages'' \<and> 0 < ov_HugePages2M ov then Some (strconv_Itoa (ov_HugePages2M ov))
      else (case map_of (ov_SysctlOverrides ov) k of
              Some v \<Rightarrow> Some v
            | None \<Rightarrow>
                if co_LegacyIPTables (ov_Cilium ov) \<and>
                   (k = ''net.bridge.bridge-nf-call-iptables'' \<or> k = ''net.bridge.bridge-nf-call-ip6tables'')
                then Some ''1''
                else (case map_of (scaledSysctls oor f) k of
                        Some v \<Rightarrow> Some v
                      | None \<Rightarrow> map_of baseSysctls k)))"

lemma override_features_sysctls [simp]: "p_Sysctls (override_features ov p) = p_Sysctls p"
  by (simp add: override_features_def Let_def split: option.split)

lemma override_hugepages_map:
  "map_of (p_Sysctls (override_hugepages ov p)) k =
     (if k = ''vm.nr_hugepages'' \<and> 0 < ov_HugePages2M ov then Some (strconv_Itoa (ov_HugePages2M ov))
      else map_of (p_Sysctls p) k)"
  by (simp add: override_hugepages_def)

lemma applyCiliumPrereqs_map:
  "map_of (p_Sysctls (applyCiliumPrereqs opts p)) k =
     (if co_LegacyIPTables opts \<and> (k = ''net.bridge.bridge-nf-call-iptables'' \<or> k = ''net.bridge.bridge-nf-call-ip6tables'')
      then Some ''1'' else map_of (p_Sysctls p) k)"
  by (simp add: applyCiliumPrereqs_def Let_def)

lemma newBaseProfile_sysctls: "p_Sysctls (newBaseProfile f) = baseSysctls"
  by (simp add: newBaseProfile_def)

lemma profile_Build_map:
  assumes "distinct (map fst (ov_SysctlOverrides ov))"
  shows "map_of (p_Sysctls (profile_Build oor f ov)) k = sysctl_spec oor f ov k"
proof -
  let ?q = "applyCiliumPrereqs (ov_Cilium ov) (applyScaling oor f (newBaseProfile f))"
  have q: "map_of (p_Sysctls ?q) k =
      (if co_LegacyIPTables (ov_Cilium ov) \<and>
          (k = ''net.bridge.bridge-nf-call-iptables'' \<or> k = ''net.bridge.bridge-nf-call-ip6tables'')
       then Some ''1''
       else (case map_of (scaledSysctls oor f) k of Some v \<Rightarrow> Some v | None \<Rightarrow> map_of baseSysctls k))"
    by (simp only: applyCiliumPrereqs_map applyScaling_def copy_map[OF scaled_keys_distinct]
        newBaseProfile_sysctls)
  have "p_Sysctls (applyOverrides ov ?q) = p_Sysctls (override_hugepages ov (maps_Copy (ov_SysctlOverrides ov) ?q))"
    by (simp add: applyOverrides_def override_hugepages_def Let_def set_sysctl_def split: option.split)
  then show ?thesis
    unfolding profile_Build_def sysctl_spec_def
    by (simp only: override_hugepages_map maps_Copy_def copy_map[OF assms] q)
qed

lemma override_features_fields:
  "p_IRQ (override_features ov p) = (case ov_IRQAffinity ov of None \<Rightarrow> p_IRQ p | Some b \<Rightarrow> \<lparr>irq_Enabled = b\<rparr>)"
  "p_NIC (override_features ov p) =
     \<lparr>n_RingBufferMax = (case ov_RingBufferMax ov of None \<Rightarrow> n_RingBufferMax (p_NIC p) | Some b \<Rightarrow> b),
      n_RPS = (case ov_RPS ov of None \<Rightarrow> n_RPS (p_NIC p) | Some b \<Rightarrow> b),
      n_XPS = (case ov_XPS ov of None \<Rightarrow> n_XPS (p_NIC p) | Some b \<Rightarrow> b)\<rparr>"
  "p_IOScheduler (override_features ov p) =
     (case ov_IOScheduler ov of None \<Rightarrow> p_IOScheduler p | Some s \<Rightarrow> \<lparr>ios_Enabled = s \<noteq> [], ios_Scheduler = s\<rparr>)"
  "p_Modules (override_features ov p) = p_Modules p" "p_Mounts (override_features ov p) = p_Mounts p"
  "p_Limits (override_features ov p) = p_Limits p" "p_CPUGovernor (override_features ov p) = p_CPUGovernor p"
  by (simp_all add: override_features_def Let_def split: option.split)

lemma override_hugepages_fields [simp]:
  "p_Modules (override_hugepages ov p) = p_Modules p" "p_Mounts (override_hugepages ov p) = p_Mounts p"
  "p_Limits (override_hugepages ov p) = p_Limits p" "p_CPUGovernor (override_hugepages ov p) = p_CPUGovernor p"
  "p_IRQ (override_hugepages ov p) = p_IRQ p" "p_NIC (override_hugepages ov p) = p_NIC p"
  "p_IOScheduler (override_hugepages ov p) = p_IOScheduler p"
  by (simp_all add: override_hugepages_def)

lemma profile_Build_fields:
  "p_CPUGovernor (profile_Build oor f ov) = (case ov_CPUGovernor ov of None \<Rightarrow> ''performance'' | Some g \<Rightarrow> g)"
  "p_Limits (profile_Build oor f ov) =
     \<lparr>l_NoFile = (if 0 < ov_NoFileLimit ov then ov_NoFileLimit ov else 1048576), l_NProc = 0\<rparr>"
  "p_IRQ (profile_Build oor f ov) =
     \<lparr>irq_Enabled = (case ov_IRQAffinity ov of None \<Rightarrow> 1 < VCPUs f | Some b \<Rightarrow> b)\<rparr>"
  "p_IOScheduler (profile_Build oor f ov) =
     (case ov_IOScheduler ov of
        None \<Rightarrow> \<lparr>ios_Enabled = True, ios_Scheduler = ''none''\<rparr>
      | Some s \<Rightarrow> \<lparr>ios_Enabled = s \<noteq> [], ios_Scheduler = s\<rparr>)"
  "p_Mounts (profile_Build oor f ov) = [bpffsMount]"
  "p_NIC (profile_Build oor f ov) =
     \<lparr>n_RingBufferMax = (case ov_RingBufferMax ov of None \<Rightarrow> True | Some b \<Rightarrow> b),
      n_RPS = (case ov_RPS ov of None \<Rightarrow> True | Some b \<Rightarrow> b),
      n_XPS = (case ov_XPS ov of None \<Rightarrow> True | Some b \<Rightarrow> b)\<rparr>"
  by (simp_all add: profile_Build_def applyOverrides_def Let_def override_features_fields maps_Copy_def
      copy_other applyCiliumPrereqs_def applyScaling_def newBaseProfile_def split: option.split)

text \<open>
  C7. The merge order of \<^verbatim>\<open>Build\<close>, in full: a hugepage count wins for \<^verbatim>\<open>vm.nr_hugepages\<close>, then operator
  overrides, then the bridge settings of a legacy Cilium, then the scaled values, then the fixed
  baseline; every toggle that is set replaces the computed default, and one that is not keeps it.
\<close>

theorem profile_Build_precedence:
  assumes "distinct (map fst (ov_SysctlOverrides ov))"
  shows "map_of (p_Sysctls (profile_Build oor f ov)) k = sysctl_spec oor f ov k \<and>
    p_CPUGovernor (profile_Build oor f ov) = (case ov_CPUGovernor ov of None \<Rightarrow> ''performance'' | Some g \<Rightarrow> g) \<and>
    l_NoFile (p_Limits (profile_Build oor f ov)) = (if 0 < ov_NoFileLimit ov then ov_NoFileLimit ov else 1048576) \<and>
    irq_Enabled (p_IRQ (profile_Build oor f ov)) = (case ov_IRQAffinity ov of None \<Rightarrow> 1 < VCPUs f | Some b \<Rightarrow> b) \<and>
    p_IOScheduler (profile_Build oor f ov) =
      (case ov_IOScheduler ov of
         None \<Rightarrow> \<lparr>ios_Enabled = True, ios_Scheduler = ''none''\<rparr>
       | Some s \<Rightarrow> \<lparr>ios_Enabled = s \<noteq> [], ios_Scheduler = s\<rparr>)"
  using profile_Build_map[OF assms] by (simp add: profile_Build_fields)

definition demo_overrides :: Overrides where
  "demo_overrides = \<lparr>ov_SysctlOverrides = [(''vm.swappiness'', ''10''), (''vm.nr_hugepages'', ''7'')],
     ov_NoFileLimit = 0, ov_CPUGovernor = Some [], ov_HugePages2M = 3,
     ov_Cilium = \<lparr>co_TunnelMode = [], co_LegacyIPTables = False\<rparr>, ov_IRQAffinity = None,
     ov_RingBufferMax = None, ov_RPS = None, ov_XPS = None, ov_IOScheduler = None\<rparr>"

theorem profile_Build_precedence_witness:
  "mget (p_Sysctls (profile_Build (\<lambda>_. 0) zeroFacts demo_overrides)) ''vm.swappiness'' = ''10'' \<and>
   mget (p_Sysctls (profile_Build (\<lambda>_. 0) zeroFacts demo_overrides)) ''vm.nr_hugepages'' = ''3'' \<and>
   p_CPUGovernor (profile_Build (\<lambda>_. 0) zeroFacts demo_overrides) = []"
proof -
  have d: "distinct (map fst (ov_SysctlOverrides demo_overrides))" by (simp add: demo_overrides_def)
  have "sysctl_spec (\<lambda>_. 0) zeroFacts demo_overrides ''vm.swappiness'' = Some ''10''"
    by (simp add: sysctl_spec_def demo_overrides_def)
  moreover have "strconv_Itoa 3 = ''3''" by code_simp
  then have "sysctl_spec (\<lambda>_. 0) zeroFacts demo_overrides ''vm.nr_hugepages'' = Some ''3''"
    by (simp add: sysctl_spec_def demo_overrides_def)
  moreover have "ov_CPUGovernor demo_overrides = Some []" by (simp add: demo_overrides_def)
  ultimately show ?thesis
    using profile_Build_precedence[OF d, of "\<lambda>_. 0" zeroFacts "''vm.swappiness''"]
      profile_Build_precedence[OF d, of "\<lambda>_. 0" zeroFacts "''vm.nr_hugepages''"]
    by (simp add: mget_def)
qed

end
