(* ===== verification/Config.thy ===== *)
theory Config
  imports Profile
begin

text \<open>
  Package \<^verbatim>\<open>internal/config\<close>: the operator's optional file. The YAML library is a parameter: \<open>yaml\<close> turns the
  bytes of a file into a configuration, starting from the empty one, or into an error. The duration
  type, which the source decodes itself, is modelled with \<^verbatim>\<open>time.ParseDuration\<close>, whose three error messages
  are not told apart.
\<close>

section \<open>Durations\<close>

definition unitMap :: "string \<Rightarrow> int option" where
  "unitMap u =
     (if u = ''ns'' then Some 1
      else if u = ''us'' \<or> u = [CHR 0xC2, CHR 0xB5, CHR ''s''] \<or> u = [CHR 0xCE, CHR 0xBC, CHR ''s''] then Some 1000
      else if u = ''ms'' then Some 1000000
      else if u = ''s'' then Some 1000000000
      else if u = ''m'' then Some 60000000000
      else if u = ''h'' then Some 3600000000000
      else None)"

text \<open>
  \<^verbatim>\<open>leadingInt\<close> of package \<^verbatim>\<open>time\<close>: the leading digits as a number of at most \<open>2 ^ 63\<close>, and the rest.
\<close>

fun leadingInt :: "int \<Rightarrow> string \<Rightarrow> (int \<times> string) option" where
  "leadingInt x [] = Some (x, [])"
| "leadingInt x (c # cs) =
     (case dec_val c of
        None \<Rightarrow> Some (x, c # cs)
      | Some d \<Rightarrow>
          if 2 ^ 63 div 10 < x then None
          else let y = x * 10 + int d in if 2 ^ 63 < y then None else leadingInt y cs)"

text \<open>
  \<^verbatim>\<open>leadingFraction\<close>: digits after the point, as a number and the power of ten it is divided by; once the
  number would overflow, the remaining digits are dropped.
\<close>

fun leadingFraction :: "bool \<Rightarrow> int \<Rightarrow> int \<Rightarrow> string \<Rightarrow> int \<times> int \<times> string" where
  "leadingFraction overflow x scale [] = (x, scale, [])"
| "leadingFraction overflow x scale (c # cs) =
     (case dec_val c of
        None \<Rightarrow> (x, scale, c # cs)
      | Some d \<Rightarrow>
          if overflow then leadingFraction True x scale cs
          else if (2 ^ 63 - 1) div 10 < x then leadingFraction True x scale cs
          else let y = x * 10 + int d in
            if 2 ^ 63 < y then leadingFraction True x scale cs
            else leadingFraction False y (scale * 10) cs)"

definition fraction_ns :: "int \<Rightarrow> int \<Rightarrow> int \<Rightarrow> int" where
  "fraction_ns f unit scale =
     (case fl_divc (fl_of_int unit) (of_int scale) of
        Fin q \<Rightarrow> (case fl_of_int f of
                    Fin x \<Rightarrow> (case fl_mulc (Fin x) q of Fin y \<Rightarrow> \<lfloor>y\<rfloor> | _ \<Rightarrow> 0)
                  | _ \<Rightarrow> 0)
      | _ \<Rightarrow> 0)"

definition is_unit_char :: "char \<Rightarrow> bool" where
  "is_unit_char c \<longleftrightarrow> c \<noteq> CHR ''.'' \<and> dec_val c = None"

text \<open>One number with its unit: the value in nanoseconds and what is left of the string.\<close>

definition duration_term :: "string \<Rightarrow> (int \<times> string) option" where
  "duration_term s =
     (if s = [] \<or> \<not> (hd s = CHR ''.'' \<or> dec_val (hd s) \<noteq> None) then None
      else (case leadingInt 0 s of
        None \<Rightarrow> None
      | Some (v, s1) \<Rightarrow>
          (let pre = (length s1 \<noteq> length s);
               point = (s1 \<noteq> [] \<and> hd s1 = CHR ''.'');
               (f, scale, s2) = (if point then leadingFraction False 0 1 (tl s1) else (0, 1, s1));
               post = (point \<and> length s2 \<noteq> length (tl s1));
               u = takeWhile is_unit_char s2;
               s3 = dropWhile is_unit_char s2
           in if \<not> pre \<and> \<not> post then None
              else if u = [] then None
              else (case unitMap u of
                      None \<Rightarrow> None
                    | Some unit \<Rightarrow>
                        if 2 ^ 63 div unit < v then None
                        else
                          (let w = v * unit + (if 0 < f then fraction_ns f unit scale else 0) in
                           if 2 ^ 63 < w then None else Some (w, s3))))))"

lemma leadingInt_rest: "leadingInt x s = Some (v, r) \<Longrightarrow> length r \<le> length s"
proof (induction s arbitrary: x)
  case (Cons c cs)
  from Cons.prems have "r = c # cs \<or> (\<exists>y. leadingInt y cs = Some (v, r))"
    by (auto simp: Let_def split: option.splits if_splits)
  then show ?case using Cons.IH by fastforce
qed simp

lemma leadingFraction_rest: "leadingFraction o' x sc s = (v, sc', r) \<Longrightarrow> length r \<le> length s"
proof (induction s arbitrary: o' x sc)
  case (Cons c cs)
  from Cons.prems have "r = c # cs \<or> (\<exists>p y k. leadingFraction p y k cs = (v, sc', r))"
    by (auto simp: Let_def split: option.splits if_splits)
  then show ?case using Cons.IH by fastforce
qed simp

lemma duration_term_shorter: "duration_term s = Some (v, r) \<Longrightarrow> length r < length s"
proof -
  assume t: "duration_term s = Some (v, r)"
  then obtain x s1 f sc s2 where l: "leadingInt 0 s = Some (x, s1)"
    and s2: "(if s1 \<noteq> [] \<and> hd s1 = CHR ''.'' then leadingFraction False 0 1 (tl s1) else (0, 1, s1)) = (f, sc, s2)"
    and u: "takeWhile is_unit_char s2 \<noteq> []" and r: "r = dropWhile is_unit_char s2"
    by (auto simp: duration_term_def Let_def split: if_splits option.splits prod.splits)
  have "length s2 \<le> length s1"
    using s2 leadingFraction_rest[of False 0 1 "tl s1" f sc s2] by (auto split: if_splits)
  moreover have "length s1 \<le> length s" using leadingInt_rest[OF l] .
  moreover have "length r < length s2"
  proof -
    have "length (takeWhile is_unit_char s2) + length (dropWhile is_unit_char s2) = length s2"
      by (metis length_append takeWhile_dropWhile_id)
    with u r show ?thesis by (metis add.commute length_greater_0_conv less_add_same_cancel1)
  qed
  ultimately show ?thesis by linarith
qed

function duration_loop :: "int \<Rightarrow> string \<Rightarrow> int option" where
  "duration_loop d s =
     (if s = [] then Some d
      else (case duration_term s of
              None \<Rightarrow> None
            | Some (v, r) \<Rightarrow> if 2 ^ 63 < d + v then None else duration_loop (d + v) r))"
  by pat_completeness auto
termination
  by (relation "measure (\<lambda>(d, s). length s)") (auto dest: duration_term_shorter)

definition time_ParseDuration :: "string \<Rightarrow> int option" where
  "time_ParseDuration s =
     (let neg = (s \<noteq> [] \<and> hd s = CHR ''-'');
          t = (if s \<noteq> [] \<and> (hd s = CHR ''-'' \<or> hd s = CHR ''+'') then tl s else s)
      in if t = ''0'' then Some 0
         else if t = [] then None
         else (case duration_loop 0 t of
                 None \<Rightarrow> None
               | Some d \<Rightarrow> if neg then Some (- d) else if 2 ^ 63 - 1 < d then None else Some d))"

text \<open>\<open>decoded\<close> is what the YAML library makes of the node as a string.\<close>

definition Duration_UnmarshalYAML :: "goerror + string \<Rightarrow> goerror + int" where
  "Duration_UnmarshalYAML decoded =
     (case decoded of
        Inl err \<Rightarrow> Inl err
      | Inr s \<Rightarrow>
          if s = [] then Inr 0
          else (case time_ParseDuration s of
                  None \<Rightarrow> Inl (Errorf (''invalid duration '' @ fmt_q s) (ErrText (''time: invalid duration '' @ fmt_q s)))
                | Some parsed \<Rightarrow> Inr parsed))"

section \<open>config.go\<close>

record Config =
  c_DryRun :: bool
  c_LogFormat :: string
  c_ResourcesDisable :: "string list"
  c_SysctlOverrides :: strmap
  c_LimitsNoFile :: "64 word"
  c_LimitsNProc :: "64 word"
  c_HugePagesEnabled :: bool
  c_HugePagesCount2M :: int
  c_CiliumTunnelMode :: string
  c_CiliumLegacyIPTables :: bool
  c_IRQAffinity :: "bool option"
  c_RingBufferMax :: "bool option"
  c_RPS :: "bool option"
  c_XPS :: "bool option"
  c_IOScheduler :: "string option"
  c_Governor :: "string option"
  c_CacheTTL :: int

definition zeroConfig :: Config where
  "zeroConfig = \<lparr>c_DryRun = False, c_LogFormat = [], c_ResourcesDisable = [], c_SysctlOverrides = [],
     c_LimitsNoFile = 0, c_LimitsNProc = 0, c_HugePagesEnabled = False, c_HugePagesCount2M = 0,
     c_CiliumTunnelMode = [], c_CiliumLegacyIPTables = False, c_IRQAffinity = None, c_RingBufferMax = None,
     c_RPS = None, c_XPS = None, c_IOScheduler = None, c_Governor = None, c_CacheTTL = 0\<rparr>"

definition Load :: "(string \<Rightarrow> Config \<Rightarrow> Config \<times> goerror option) \<Rightarrow> string \<Rightarrow> 'x world \<Rightarrow> Config \<times> goerror option" where
  "Load yaml path w =
     (case os_ReadFile path w of
        Inl err \<Rightarrow>
          if os_IsNotExist err then (zeroConfig, None)
          else (zeroConfig, Some (Errorf (''reading config '' @ path) err))
      | Inr data \<Rightarrow>
          (case yaml data zeroConfig of
             (cfg, Some err) \<Rightarrow> (cfg, Some (Errorf (''parsing config '' @ path) err))
           | (cfg, None) \<Rightarrow> (cfg, None)))"

definition ToProfileOverrides :: "Config \<Rightarrow> Overrides" where
  "ToProfileOverrides c =
     \<lparr>ov_SysctlOverrides = c_SysctlOverrides c, ov_NoFileLimit = c_LimitsNoFile c, ov_CPUGovernor = c_Governor c,
      ov_HugePages2M = (if c_HugePagesEnabled c then c_HugePagesCount2M c else 0),
      ov_Cilium = \<lparr>co_TunnelMode = c_CiliumTunnelMode c, co_LegacyIPTables = c_CiliumLegacyIPTables c\<rparr>,
      ov_IRQAffinity = c_IRQAffinity c, ov_RingBufferMax = c_RingBufferMax c, ov_RPS = c_RPS c, ov_XPS = c_XPS c,
      ov_IOScheduler = c_IOScheduler c\<rparr>"

section \<open>Laws\<close>

lemma ToProfileOverrides_fields [simp]:
  "ov_SysctlOverrides (ToProfileOverrides c) = c_SysctlOverrides c"
  "ov_NoFileLimit (ToProfileOverrides c) = c_LimitsNoFile c"
  by (simp_all add: ToProfileOverrides_def)


lemma parse_digits_ge: "parse_digits dec_val 10 x ds = Some m \<Longrightarrow> x \<le> m"
proof (induction ds arbitrary: x)
  case (Cons c ds)
  then obtain d where "parse_digits dec_val 10 (x * 10 + d) ds = Some m" by (auto split: option.splits)
  from Cons.IH[OF this] show ?case by simp
qed simp

lemma leadingInt_digits:
  assumes "parse_digits dec_val 10 x ds = Some m" "int m \<le> 2 ^ 63" "t = [] \<or> dec_val (hd t) = None"
  shows "leadingInt (int x) (ds @ t) = Some (int m, t)"
  using assms(1)
proof (induction ds arbitrary: x)
  case Nil
  with assms(3) show ?case by (cases t) auto
next
  case (Cons c ds)
  then obtain d where d: "dec_val c = Some d" "parse_digits dec_val 10 (x * 10 + d) ds = Some m"
    by (auto split: option.splits)
  have le: "int x * 10 + int d \<le> 2 ^ 63"
    using parse_digits_ge[OF d(2)] assms(2) by linarith
  then have "int x \<le> 2 ^ 63 div 10" by simp
  with le d(1) Cons.IH[OF d(2)] show ?case by (simp add: Let_def)
qed

lemma unitMap_cases:
  assumes "unitMap u = Some k"
  shows "0 < k \<and> u \<noteq> [] \<and> list_all is_unit_char u"
proof -
  have l: "list_all is_unit_char ''ns''" "list_all is_unit_char ''us''" "list_all is_unit_char ''ms''"
    "list_all is_unit_char ''s''" "list_all is_unit_char ''m''" "list_all is_unit_char ''h''"
    "list_all is_unit_char [CHR 0xC2, CHR 0xB5, CHR ''s'']" "list_all is_unit_char [CHR 0xCE, CHR 0xBC, CHR ''s'']"
    by code_simp+
  from assms l show ?thesis
    unfolding unitMap_def by (auto split: if_splits)
qed

lemma duration_term_unit:
  assumes u: "unitMap u = Some k" and n: "int n * k \<le> 2 ^ 63"
  shows "duration_term (nat_str n @ u) = Some (int n * k, [])"
proof -
  note c = unitMap_cases[OF u]
  obtain x xs where x: "u = x # xs" "is_unit_char x" using c by (cases u) auto
  have "int n \<le> int n * k" using c by (simp add: mult_le_cancel_left1)
  with n have le: "int n \<le> 2 ^ 63" by linarith
  have li: "leadingInt 0 (nat_str n @ u) = Some (int n, u)"
    using leadingInt_digits[OF parse_nat_str le, of u] x by (simp add: is_unit_char_def)
  have h: "dec_val (hd (nat_str n @ u)) \<noteq> None"
    using nat_str_digits[of "hd (nat_str n)" n] by (simp add: dec_val_def Let_def)
  have tw: "takeWhile is_unit_char u = u" "dropWhile is_unit_char u = []"
    using c by (simp_all add: takeWhile_eq_all_conv dropWhile_eq_Nil_conv list_all_iff)
  have "int n * k div k \<le> 2 ^ 63 div k" by (rule zdiv_mono1[OF n]) (use c in simp)
  then have "int n \<le> 2 ^ 63 div k" using c by simp
  moreover have "hd u \<noteq> CHR ''.''" using x by (simp add: is_unit_char_def)
  ultimately show ?thesis
    using li h c n u by (simp add: duration_term_def Let_def tw)
qed

lemma nat_str_first:
  assumes "u \<noteq> []" "\<forall>c \<in> set u. is_unit_char c"
  shows "nat_str n @ u \<noteq> ''0''" "hd (nat_str n @ u) \<noteq> CHR ''-''" "hd (nat_str n @ u) \<noteq> CHR ''+''"
proof -
  show "hd (nat_str n @ u) \<noteq> CHR ''-''" "hd (nat_str n @ u) \<noteq> CHR ''+''"
    by (simp_all add: nat_str_hd)
  have "last u \<in> set u" using assms(1) by simp
  with assms(2) have "is_unit_char (last u)" by blast
  moreover have "\<not> is_unit_char (CHR ''0'')" by code_simp
  ultimately show "nat_str n @ u \<noteq> ''0''" using assms(1) by (metis last.simps last_appendR)
qed

lemma time_ParseDuration_unit:
  assumes u: "unitMap u = Some k" and n: "int n * k < 2 ^ 63"
  shows "time_ParseDuration (nat_str n @ u) = Some (int n * k)"
proof -
  note c = unitMap_cases[OF u]
  then have f: "nat_str n @ u \<noteq> ''0''" "hd (nat_str n @ u) \<noteq> CHR ''-''" "hd (nat_str n @ u) \<noteq> CHR ''+''"
    using nat_str_first[of u n] by (simp_all add: list_all_iff)
  have "duration_loop 0 (nat_str n @ u) = Some (int n * k)"
    using duration_term_unit[OF u, of n] n by (subst duration_loop.simps) (simp add: duration_loop.simps)
  with f n show ?thesis by (simp add: time_ParseDuration_def Let_def del: hd_append2)
qed

text \<open>A whole number with one of the units of Go is that many nanoseconds, as long as it fits the 64-bit duration.\<close>

lemma Duration_UnmarshalYAML_units:
  "unitMap u = Some k \<Longrightarrow> int n * k < 2 ^ 63 \<Longrightarrow> Duration_UnmarshalYAML (Inr (nat_str n @ u)) = Inr (int n * k)"
  using time_ParseDuration_unit[of u k n] by (simp add: Duration_UnmarshalYAML_def)

text \<open>
  The \<^verbatim>\<open>limits.nproc\<close> setting of the configuration is not wired up: whatever it says, the profile asks for an
  unlimited number of processes.
\<close>

lemma limits_nproc_ignored:
  "l_NProc (p_Limits (profile_Build oor f (ToProfileOverrides c))) = 0"
  "ToProfileOverrides (c\<lparr>c_LimitsNProc := n\<rparr>) = ToProfileOverrides c"
  by (simp_all add: profile_Build_fields ToProfileOverrides_def)

section \<open>Properties\<close>



end
