(* ===== verification/Kmod_Resource.thy ===== *)
theory Kmod_Resource
  imports Sysctl_Resource
begin

text \<open>
  \<^verbatim>\<open>internal/resource/kmod.go\<close>: kernel modules loaded with \<^verbatim>\<open>modprobe\<close> and persisted to a
  modules-load.d file. The command runner is a field of the resource, as in the source.
\<close>

record 'x KernelModuleResource =
  km_Env :: Env
  km_Modules :: "string list"
  km_PersistFile :: string
  km_Runner :: "'x runner"

definition wantModules :: "'x KernelModuleResource \<Rightarrow> string list" where
  "wantModules r = sort (km_Modules r)"

definition renderModulesFile :: "string list \<Rightarrow> string" where
  "renderModulesFile modules = managedHeader @ concat (map (\<lambda>m. m @ [NL]) modules)"

definition kmod_persistNeeded :: "'x KernelModuleResource \<Rightarrow> 'x world \<Rightarrow> bool" where
  "kmod_persistNeeded r w =
     (if km_PersistFile r = [] then False
      else (case ReadFileString (km_PersistFile r) w of
              Inl err \<Rightarrow> True
            | Inr existing \<Rightarrow> existing \<noteq> renderModulesFile (wantModules r)))"

definition loadedModules :: "'x KernelModuleResource \<Rightarrow> 'x world \<Rightarrow> goerror + string list" where
  "loadedModules r w =
     (case os_OpenScan (Path (km_Env r) [''proc'', ''modules'']) w of
        Inl err \<Rightarrow> Inl (Errorf ''reading /proc/modules'' err)
      | Inr (ls, Some err) \<Rightarrow> Inl err
      | Inr (ls, None) \<Rightarrow> Inr (concat (map first_field ls)))"

definition KernelModuleResource_Check :: "'x KernelModuleResource \<Rightarrow> 'x world \<Rightarrow> Result \<times> goerror option" where
  "KernelModuleResource_Check r w =
     (if length (km_Modules r) = 0
      then (mkResult ''kernel-modules'' StatusSkipped ''no modules configured'', None)
      else (case loadedModules r w of
        Inl err \<Rightarrow> (mkResult ''kernel-modules'' StatusFailed (errText err), Some err)
      | Inr loaded \<Rightarrow>
          (let missing = filter (\<lambda>m. m \<notin> set loaded) (wantModules r);
               persistDrift = kmod_persistNeeded r w in
           if missing = [] \<and> \<not> persistDrift then (mkResult ''kernel-modules'' StatusUnchanged [], None)
           else
             (let detail = (if missing \<noteq> [] then ''not loaded: '' @ strings_Join missing '', '' else []);
                  detail = (if persistDrift then joinDetails [detail, ''drop-in file out of date''] else detail)
              in (mkResult ''kernel-modules'' StatusWouldChange detail, None)))))"

fun modprobe_loop ::
  "'x runner \<Rightarrow> string list \<Rightarrow> string list \<Rightarrow> 'x world \<Rightarrow> goerror option \<times> 'x world" where
  "modprobe_loop run loaded [] w = (None, w)"
| "modprobe_loop run loaded (m # ms) w =
     (if m \<in> set loaded then modprobe_loop run loaded ms w
      else (case run ''modprobe'' [m] w of
              ((_, Some err), w') \<Rightarrow> (Some (Errorf (''modprobe '' @ m) err), w')
            | ((_, None), w') \<Rightarrow> modprobe_loop run loaded ms w'))"

definition KernelModuleResource_Apply :: "'x KernelModuleResource \<Rightarrow> 'x world \<Rightarrow> goerror option \<times> 'x world" where
  "KernelModuleResource_Apply r w =
     (case loadedModules r w of
        Inl err \<Rightarrow> (Some err, w)
      | Inr loaded \<Rightarrow>
          (case modprobe_loop (km_Runner r) loaded (wantModules r) w of
             (Some err, w') \<Rightarrow> (Some err, w')
           | (None, w') \<Rightarrow>
               (if km_PersistFile r \<noteq> [] then
                  (let content = renderModulesFile (wantModules r) in
                   case WriteFileIfChanged (km_PersistFile r) content 420 w' of
                     (Inl err, w'') \<Rightarrow>
                       (Some (Errorf (''persisting modules-load.d drop-in '' @ km_PersistFile r) err), w'')
                   | (Inr _, w'') \<Rightarrow> (None, w''))
                else (None, w'))))"

definition kernelModuleResource :: "'x KernelModuleResource \<Rightarrow> 'x world Resource" where
  "kernelModuleResource r =
     \<lparr>res_Name = ''kernel-modules'', res_Check = (\<lambda>w. (KernelModuleResource_Check r w, w)),
      res_Apply = KernelModuleResource_Apply r\<rparr>"

section \<open>Checking\<close>

lemma KernelModuleResource_Check_cases:
  "r_Status (fst (KernelModuleResource_Check r w)) =
     (if km_Modules r = [] then StatusSkipped
      else case loadedModules r w of
        Inl e \<Rightarrow> StatusFailed
      | Inr loaded \<Rightarrow>
          if set (km_Modules r) \<subseteq> set loaded \<and> \<not> kmod_persistNeeded r w
          then StatusUnchanged else StatusWouldChange)"
  by (auto simp: KernelModuleResource_Check_def wantModules_def Let_def filter_empty_iff
      split: sum.splits)

lemma KernelModuleResource_Check_error:
  "snd (KernelModuleResource_Check r w) \<noteq> None \<longleftrightarrow>
   r_Status (fst (KernelModuleResource_Check r w)) = StatusFailed"
  by (auto simp: KernelModuleResource_Check_def Let_def split: sum.splits)

lemma KernelModuleResource_Check_name: "r_Name (fst (KernelModuleResource_Check r w)) = ''kernel-modules''"
  by (auto simp: KernelModuleResource_Check_def Let_def split: sum.splits)

interpretation kmod: resource_iface "kernelModuleResource r" for r :: "'x KernelModuleResource"
proof unfold_locales
  fix w :: "'x world"
  show "r_Name (chk_result (kernelModuleResource r) w) = res_Name (kernelModuleResource r)"
    by (simp add: kernelModuleResource_def KernelModuleResource_Check_name)
  show "(chk_status (kernelModuleResource r) w = StatusFailed) = (chk_error (kernelModuleResource r) w \<noteq> None)"
    by (simp only: kernelModuleResource_def Resource.simps fst_conv snd_conv
        KernelModuleResource_Check_error)
  show "chk_status (kernelModuleResource r) w \<noteq> StatusChanged"
    by (simp add: kernelModuleResource_def KernelModuleResource_Check_cases split: sum.splits)
qed

section \<open>Loading\<close>

text \<open>
  The commands of an \<^verbatim>\<open>Apply\<close>: one \<^verbatim>\<open>modprobe\<close> for each wanted module that is not listed, in the order of the
  wanted modules. Nothing is assumed of \<^verbatim>\<open>modprobe\<close>: it also succeeds for a module that is built into the
  kernel or named by an alias, neither of which \<^verbatim>\<open>/proc/modules\<close> lists under that name.
\<close>

definition modprobes :: "string list \<Rightarrow> (string \<times> string list) list" where
  "modprobes ms = map (\<lambda>m. (''modprobe'', [m])) ms"

definition missing :: "string list \<Rightarrow> 'x KernelModuleResource \<Rightarrow> string list" where
  "missing loaded r = filter (\<lambda>m. m \<notin> set loaded) (wantModules r)"

lemma modprobe_loop_filter:
  "modprobe_loop run loaded ms w = modprobe_loop run [] (filter (\<lambda>m. m \<notin> set loaded) ms) w"
  by (induction ms arbitrary: w) (auto split: prod.split option.split)

lemma modprobe_loop_runs: "modprobe_loop run [] ms w = (None, w') \<longleftrightarrow> runs run (modprobes ms) w w'"
  by (induction ms arbitrary: w) (auto simp: modprobes_def runs_Cons_iff split: prod.split option.split)

lemma modprobe_loop_fails:
  "modprobe_loop run [] ms w = (Some e, w') \<Longrightarrow>
     \<exists>ok m rest w1 out err. ms = ok @ m # rest \<and> runs run (modprobes ok) w w1 \<and>
        run ''modprobe'' [m] w1 = ((out, Some err), w') \<and> e = Errorf (''modprobe '' @ m) err"
proof (induction ms arbitrary: w)
  case (Cons m ms)
  obtain out er w1 where run: "run ''modprobe'' [m] w = ((out, er), w1)" by (metis prod.exhaust)
  show ?case
  proof (cases er)
    case None
    with run Cons.prems Cons.IH[of w1] obtain ok m' rest v out' err where ih: "ms = ok @ m' # rest"
      "runs run (modprobes ok) w1 v" "run ''modprobe'' [m'] v = ((out', Some err), w')"
      "e = Errorf (''modprobe '' @ m') err" by auto
    from run None ih(2) have "runs run (modprobes (m # ok)) w v" by (auto simp: modprobes_def)
    moreover from ih(1) have "m # ms = (m # ok) @ m' # rest" by simp
    ultimately show ?thesis using ih(3,4) by blast
  next
    case (Some err)
    with run Cons.prems have "w' = w1" "e = Errorf (''modprobe '' @ m) err" by auto
    moreover have "m # ms = [] @ m # ms" "runs run (modprobes []) w w" by (simp_all add: modprobes_def)
    ultimately show ?thesis using run Some by blast
  qed
qed simp

lemma KernelModuleResource_Apply_success:
  assumes "KernelModuleResource_Apply r w = (None, w')"
  obtains loaded w1 where "loadedModules r w = Inr loaded" "runs (km_Runner r) (modprobes (missing loaded r)) w w1"
    "only_touches {km_PersistFile r} w1 w'" "\<not> kmod_persistNeeded r w'"
proof -
  from assms obtain loaded w1 where l: "loadedModules r w = Inr loaded"
    and loop: "modprobe_loop (km_Runner r) loaded (wantModules r) w = (None, w1)"
    and rest: "km_PersistFile r = [] \<and> w' = w1 \<or> km_PersistFile r \<noteq> [] \<and>
      (\<exists>b. WriteFileIfChanged (km_PersistFile r) (renderModulesFile (wantModules r)) 420 w1 = (Inr b, w'))"
    by (auto simp: KernelModuleResource_Apply_def Let_def split: sum.splits prod.splits option.splits if_splits)
  from loop have "runs (km_Runner r) (modprobes (missing loaded r)) w w1"
    unfolding modprobe_loop_filter[of _ loaded] modprobe_loop_runs missing_def .
  moreover have "only_touches {km_PersistFile r} w1 w'" using rest WriteFileIfChanged_touches by auto
  moreover have "\<not> kmod_persistNeeded r w'"
    using rest by (auto simp: kmod_persistNeeded_def ReadFileString_def dest: WriteFileIfChanged_ok)
  ultimately show thesis using that l by blast
qed

lemma loadedModules_frame:
  assumes "only_touches P w w'" "Path (km_Env r) [''proc'', ''modules''] \<notin> P"
  shows "loadedModules r w' = Inr l \<longleftrightarrow> loadedModules r w = Inr l"
proof -
  let ?p = "Path (km_Env r) [''proc'', ''modules'']"
  have "node_at w' ?p = node_at w ?p \<or> node_at w ?p = None \<and> (\<exists>d. node_at w' ?p = Some (Dir d))"
    using assms unfolding only_touches_def made_dir_def by blast
  then have "os_OpenScan ?p w' = Inr (ls, None) \<longleftrightarrow> os_OpenScan ?p w = Inr (ls, None)" for ls
    by (elim disjE) (simp add: os_OpenScan_def split: option.split node.split, auto simp: os_OpenScan_def)
  moreover have "loadedModules r v = Inr l \<longleftrightarrow>
      (\<exists>ls. os_OpenScan ?p v = Inr (ls, None) \<and> l = concat (map first_field ls))" for v :: "'a world"
    by (auto simp: loadedModules_def split: sum.splits option.splits)
  ultimately show ?thesis by simp
qed

lemma loadedModules_cong:
  assumes "node_at w' (Path (km_Env r) [''proc'', ''modules'']) = node_at w (Path (km_Env r) [''proc'', ''modules''])"
  shows "loadedModules r w' = Inr l \<longleftrightarrow> loadedModules r w = Inr l"
proof -
  have "loadedModules r v = Inr l \<longleftrightarrow>
      (\<exists>ls. os_OpenScan (Path (km_Env r) [''proc'', ''modules'']) v = Inr (ls, None) \<and> l = concat (map first_field ls))"
    for v :: "'a world"
    by (auto simp: loadedModules_def split: sum.splits option.splits)
  then show ?thesis using os_OpenScan_cong[OF assms] by simp
qed

text \<open>A host on which there is nothing to load.\<close>

definition modules_listed :: "'x KernelModuleResource \<Rightarrow> 'x world \<Rightarrow> bool" where
  "modules_listed r w \<longleftrightarrow>
     km_Modules r = [] \<or>
     (case loadedModules r w of Inl e \<Rightarrow> False | Inr loaded \<Rightarrow> list_all (\<lambda>m. m \<in> set loaded) (km_Modules r))"

lemma modules_listed_iff:
  "modules_listed r w \<longleftrightarrow>
     km_Modules r = [] \<or> (\<exists>loaded. loadedModules r w = Inr loaded \<and> set (km_Modules r) \<subseteq> set loaded)"
  by (auto simp: modules_listed_def list_all_iff split: sum.splits)

lemma missing_none: "set (km_Modules r) \<subseteq> set loaded \<Longrightarrow> missing loaded r = []"
  by (auto simp: missing_def wantModules_def filter_empty_iff)

lemma KernelModuleResource_Apply_settles:
  assumes ap: "KernelModuleResource_Apply r w = (None, w')" and pf: "km_PersistFile r \<noteq> Path (km_Env r) [''proc'', ''modules'']"
  obtains loaded w1 where "loadedModules r w = Inr loaded" "runs (km_Runner r) (modprobes (missing loaded r)) w w1"
    "only_touches {km_PersistFile r} w1 w'" "modules_listed r w' = modules_listed r w1"
    "r_Status (fst (KernelModuleResource_Check r w')) \<in> {StatusUnchanged, StatusSkipped} \<longleftrightarrow> modules_listed r w1"
proof (rule KernelModuleResource_Apply_success[OF ap])
  fix loaded w1
  assume a: "loadedModules r w = Inr loaded" "runs (km_Runner r) (modprobes (missing loaded r)) w w1"
    "only_touches {km_PersistFile r} w1 w'" "\<not> kmod_persistNeeded r w'"
  have listed: "modules_listed r w' = modules_listed r w1"
    using loadedModules_frame[OF a(3)] pf by (simp add: modules_listed_iff)
  show thesis
    by (rule that[OF a(1-3) listed])
      (use a(4) listed in \<open>auto simp: KernelModuleResource_Check_cases modules_listed_def list_all_iff split: sum.splits\<close>)
qed

text \<open>There the resource converges whatever \<^verbatim>\<open>modprobe\<close> does, since it is not run.\<close>

lemma listed_Apply:
  assumes "KernelModuleResource_Apply r w = (None, w')" "modules_listed r w"
  shows "only_touches {km_PersistFile r} w w'"
proof (rule KernelModuleResource_Apply_success[OF assms(1)])
  fix loaded w1
  assume "loadedModules r w = Inr loaded" "runs (km_Runner r) (modprobes (missing loaded r)) w w1"
    "only_touches {km_PersistFile r} w1 w'"
  with assms(2) show ?thesis by (auto simp: modules_listed_iff missing_none modprobes_def)
qed

interpretation kmod: convergent_resource "kernelModuleResource r"
  "\<lambda>w. modules_listed r w \<and> km_PersistFile r \<noteq> Path (km_Env r) [''proc'', ''modules'']"
  for r :: "'x KernelModuleResource"
proof unfold_locales
  fix w w' :: "'x world"
  assume ok: "modules_listed r w \<and> km_PersistFile r \<noteq> Path (km_Env r) [''proc'', ''modules'']"
  show "snd (res_Check (kernelModuleResource r) w) = w" by (simp add: kernelModuleResource_def)
  assume "res_Apply (kernelModuleResource r) w = (None, w')"
  then have ap: "KernelModuleResource_Apply r w = (None, w')" by (simp add: kernelModuleResource_def)
  from listed_Apply[OF ap] ok have l: "modules_listed r w'"
    using loadedModules_frame[of "{km_PersistFile r}" w w' r] by (metis modules_listed_iff singletonD)
  with ok show "modules_listed r w' \<and> km_PersistFile r \<noteq> Path (km_Env r) [''proc'', ''modules'']" by simp
  have "r_Status (fst (KernelModuleResource_Check r w')) \<in> {StatusUnchanged, StatusSkipped}"
    using KernelModuleResource_Apply_settles[OF ap] ok l by metis
  then show "chk_error (kernelModuleResource r) w' = None \<and>
      chk_status (kernelModuleResource r) w' \<noteq> StatusWouldChange"
    using KernelModuleResource_Check_error[of r w'] by (auto simp: kernelModuleResource_def)
qed

section \<open>Properties\<close>

text \<open>
  C15. Kernel modules converge exactly as far as \<^verbatim>\<open>modprobe\<close> lists them: a successful \<^verbatim>\<open>Apply\<close> has run
  \<^verbatim>\<open>modprobe\<close> with success for exactly the wanted modules that were not listed, in order, and then touched
  the drop-in file only; the next \<^verbatim>\<open>Check\<close> is satisfied if and only if nothing is wanted or every wanted
  module is listed in \<^verbatim>\<open>/proc/modules\<close> as those commands left it. Nothing is assumed of \<^verbatim>\<open>modprobe\<close>; a module
  that is built in, and so never listed, is reported as drift for ever.
\<close>

theorem KernelModuleResource_converges_iff:
  assumes "KernelModuleResource_Apply r w = (None, w')" "km_PersistFile r \<noteq> Path (km_Env r) [''proc'', ''modules'']"
  shows "\<exists>loaded w1. loadedModules r w = Inr loaded \<and>
    runs (km_Runner r) (map (\<lambda>m. (''modprobe'', [m])) (filter (\<lambda>m. m \<notin> set loaded) (sort (km_Modules r)))) w w1 \<and>
    only_touches {km_PersistFile r} w1 w' \<and>
    (r_Status (fst (KernelModuleResource_Check r w')) \<in> {StatusUnchanged, StatusSkipped} \<longleftrightarrow>
       km_Modules r = [] \<or>
       (\<exists>listed. loadedModules r w1 = Inr listed \<and> set (km_Modules r) \<subseteq> set listed))"
  by (rule KernelModuleResource_Apply_settles[OF assms])
    (auto simp: modprobes_def missing_def wantModules_def modules_listed_iff)

text \<open>
  A module loader that puts a new module on top of \<^verbatim>\<open>/proc/modules\<close>, except for \<^verbatim>\<open>geneve\<close>, which is built in.
\<close>

definition fake_modprobe :: "unit runner" where
  "fake_modprobe name args w =
     (case args of
        [m] \<Rightarrow>
          (([], None),
           if m = ''geneve'' then w else upd_file ''/proc/modules'' (\<lambda>f. f\<lparr>f_content := m @ NL # f_content f\<rparr>) w)
      | _ \<Rightarrow> (([], Some (CmdError ''modprobe: usage'')), w))"

definition vxlan_resource :: "unit KernelModuleResource" where
  "vxlan_resource = \<lparr>km_Env = New, km_Modules = [''vxlan'', ''ena''],
     km_PersistFile = ''/etc/m.conf'', km_Runner = fake_modprobe\<rparr>"

definition modules_world :: "unit world" where
  "modules_world = \<lparr>w_fs = [(''/'', plain_dir), (''/proc/modules'', regular (''ena 1 2'' @ [NL]))], w_ext = ()\<rparr>"

lemma proc_modules_path: "Path New [''proc'', ''modules''] = ''/proc/modules''"
  by code_simp

theorem KernelModuleResource_converges_iff_witness:
  "\<exists>w' w1. KernelModuleResource_Apply vxlan_resource modules_world = (None, w') \<and>
     runs fake_modprobe [(''modprobe'', [''vxlan''])] modules_world w1 \<and>
     r_Status (fst (KernelModuleResource_Check vxlan_resource w')) \<in> {StatusUnchanged, StatusSkipped}"
proof -
  let ?w' = "snd (KernelModuleResource_Apply vxlan_resource modules_world)"
  have "fst (KernelModuleResource_Apply vxlan_resource modules_world) = None"
    and l: "loadedModules vxlan_resource modules_world = Inr [''ena'']"
    and s: "sort (km_Modules vxlan_resource) = [''ena'', ''vxlan'']"
    and c: "modules_listed vxlan_resource (snd (fake_modprobe ''modprobe'' [''vxlan''] modules_world))"
    by code_simp+
  then have ap: "KernelModuleResource_Apply vxlan_resource modules_world = (None, ?w')"
    by (simp add: prod_eq_iff)
  have pf: "km_PersistFile vxlan_resource \<noteq> Path (km_Env vxlan_resource) [''proc'', ''modules'']"
    by (simp add: vxlan_resource_def proc_modules_path)
  from KernelModuleResource_converges_iff[OF ap pf] obtain w1 where
    r: "runs (km_Runner vxlan_resource) [(''modprobe'', [''vxlan''])] modules_world w1"
    and st: "modules_listed vxlan_resource w1 \<Longrightarrow>
      r_Status (fst (KernelModuleResource_Check vxlan_resource ?w')) \<in> {StatusUnchanged, StatusSkipped}"
    by (auto simp: l s modules_listed_iff)
  from r have "w1 = snd (fake_modprobe ''modprobe'' [''vxlan''] modules_world)"
    by (auto simp: runs_Cons_iff vxlan_resource_def)
  with r st c ap show ?thesis by (auto simp: vxlan_resource_def)
qed



end
