(* ===== verification/Mount_Resource.thy ===== *)
theory Mount_Resource
  imports Resource
begin

text \<open>
  \<^verbatim>\<open>internal/resource/mount.go\<close>: a filesystem mounted at a path and, optionally, its \<^verbatim>\<open>/etc/fstab\<close>
  entry. The mount point is used as it is, while \<^verbatim>\<open>/proc/mounts\<close> and \<^verbatim>\<open>/etc/fstab\<close> are read below
  the root of the environment.
\<close>

record 'x MountResource =
  mt_Env :: Env
  mt_Runner :: "'x runner"
  mt_ResourceName :: string
  mt_Device :: string
  mt_Path :: string
  mt_FSType :: string
  mt_Options :: string
  mt_FstabPersist :: bool

definition mount_line :: "'x MountResource \<Rightarrow> string \<Rightarrow> bool" where
  "mount_line r line =
     (let fields = strings_Fields line
      in 3 \<le> length fields \<and> fields ! 1 = mt_Path r \<and> fields ! 2 = mt_FSType r)"

definition isMounted :: "'x MountResource \<Rightarrow> 'x world \<Rightarrow> goerror + bool" where
  "isMounted r w =
     (case os_OpenScan (Path (mt_Env r) [''proc'', ''mounts'']) w of
        Inl err \<Rightarrow> Inl (Errorf ''reading /proc/mounts'' err)
      | Inr (ls, serr) \<Rightarrow>
          if list_ex (mount_line r) ls then Inr True
          else (case serr of Some err \<Rightarrow> Inl err | None \<Rightarrow> Inr False))"

definition fstab_line :: "string \<Rightarrow> string \<Rightarrow> bool" where
  "fstab_line path line =
     (let line = strings_TrimSpace line in
      if line = [] \<or> strings_HasPrefix line ''#'' then False
      else let fields = strings_Fields line in 2 \<le> length fields \<and> fields ! 1 = path)"

definition fstabLineExists :: "string \<Rightarrow> string \<Rightarrow> bool" where
  "fstabLineExists fstabContent path = list_ex (fstab_line path) (splitOn NL fstabContent)"

definition fstabPath :: "Env \<Rightarrow> string" where
  "fstabPath e = Path e [''etc'', ''fstab'']"

definition MountResource_Check :: "'x MountResource \<Rightarrow> 'x world \<Rightarrow> Result \<times> goerror option" where
  "MountResource_Check r w =
     (case isMounted r w of
        Inl err \<Rightarrow> (mkResult (mt_ResourceName r) StatusFailed (errText err), Some err)
      | Inr mounted \<Rightarrow>
          (let fstabDrift =
                 (if mt_FstabPersist r
                  then \<not> fstabLineExists
                         (case ReadFileString (fstabPath (mt_Env r)) w of Inl _ \<Rightarrow> [] | Inr c \<Rightarrow> c) (mt_Path r)
                  else False) in
           if mounted \<and> \<not> fstabDrift then (mkResult (mt_ResourceName r) StatusUnchanged [], None)
           else
             (let detail = (if \<not> mounted then mt_FSType r @ '' not mounted at '' @ mt_Path r else []);
                  detail = (if fstabDrift then joinDetails [detail, ''missing /etc/fstab entry''] else detail)
              in (mkResult (mt_ResourceName r) StatusWouldChange detail, None))))"

definition fstab_entry :: "'x MountResource \<Rightarrow> string" where
  "fstab_entry r = mt_Device r @ '' '' @ mt_Path r @ '' '' @ mt_FSType r @ '' '' @ mt_Options r @ '' 0 0''"

definition fstab_add :: "'x MountResource \<Rightarrow> string \<Rightarrow> string" where
  "fstab_add r existing =
     (let content = (if existing \<noteq> [] \<and> \<not> strings_HasSuffix existing [NL] then existing @ [NL] else existing)
      in content @ fstab_entry r @ [NL])"

definition persistFstab :: "'x MountResource \<Rightarrow> 'x world \<Rightarrow> goerror option \<times> 'x world" where
  "persistFstab r w =
     (let path = fstabPath (mt_Env r);
          rd = ReadFileString path w;
          existing = (case rd of Inl _ \<Rightarrow> [] | Inr c \<Rightarrow> c) in
      if (case rd of Inl err \<Rightarrow> \<not> os_IsNotExist err | Inr _ \<Rightarrow> False)
      then (map_option (Errorf ''reading /etc/fstab'') (case rd of Inl err \<Rightarrow> Some err | Inr _ \<Rightarrow> None), w)
      else if fstabLineExists existing (mt_Path r) then (None, w)
      else
        (case BackupFile path w of
           (Some err, w1) \<Rightarrow> (Some (Errorf ''backing up /etc/fstab'' err), w1)
         | (None, w1) \<Rightarrow>
             (case WriteFileIfChanged path (fstab_add r existing) 420 w1 of
                (Inl err, w2) \<Rightarrow> (Some (Errorf ''writing /etc/fstab'' err), w2)
              | (Inr _, w2) \<Rightarrow> (None, w2))))"

definition mount_args :: "'x MountResource \<Rightarrow> string list" where
  "mount_args r =
     (let args = [''-t'', mt_FSType r, mt_Device r, mt_Path r]
      in if mt_Options r \<noteq> [] then [''-o'', mt_Options r] @ args else args)"

definition mount_step :: "'x MountResource \<Rightarrow> 'x world \<Rightarrow> goerror option \<times> 'x world" where
  "mount_step r w =
     (case os_MkdirAll (mt_Path r) w of
        (Some err, w1) \<Rightarrow> (Some (Errorf (''creating mount point '' @ mt_Path r) err), w1)
      | (None, w1) \<Rightarrow>
          (case mt_Runner r ''mount'' (mount_args r) w1 of
             ((_, Some err), w2) \<Rightarrow> (Some (Errorf (''mounting '' @ mt_FSType r @ '' at '' @ mt_Path r) err), w2)
           | ((_, None), w2) \<Rightarrow> (None, w2)))"

definition MountResource_Apply :: "'x MountResource \<Rightarrow> 'x world \<Rightarrow> goerror option \<times> 'x world" where
  "MountResource_Apply r w =
     (case isMounted r w of
        Inl err \<Rightarrow> (Some err, w)
      | Inr mounted \<Rightarrow>
          (case (if \<not> mounted then mount_step r w else (None, w)) of
             (Some err, w1) \<Rightarrow> (Some err, w1)
           | (None, w1) \<Rightarrow> (if mt_FstabPersist r then persistFstab r w1 else (None, w1))))"

definition mountResource :: "'x MountResource \<Rightarrow> 'x world Resource" where
  "mountResource r =
     \<lparr>res_Name = mt_ResourceName r, res_Check = (\<lambda>w. (MountResource_Check r w, w)),
      res_Apply = MountResource_Apply r\<rparr>"

section \<open>Checking\<close>

definition fstabContent :: "Env \<Rightarrow> 'x world \<Rightarrow> string" where
  "fstabContent e w = (case ReadFileString (fstabPath e) w of Inl _ \<Rightarrow> [] | Inr c \<Rightarrow> c)"

lemma fstabContent_cong:
  assumes "node_at w' (fstabPath e) = node_at w (fstabPath e)"
  shows "fstabContent e w' = fstabContent e w"
proof (cases "os_ReadFile (fstabPath e) w")
  case (Inr c)
  then show ?thesis using os_ReadFile_cong[OF assms, of c] by (simp add: fstabContent_def ReadFileString_def)
next
  case (Inl err)
  then have "os_ReadFile (fstabPath e) w' \<noteq> Inr c" for c using os_ReadFile_cong[OF assms, of c] by simp
  with Inl show ?thesis by (simp add: fstabContent_def ReadFileString_def split: sum.split)
qed

lemma MountResource_Check_status:
  "r_Status (fst (MountResource_Check r w)) =
     (case isMounted r w of
        Inl e \<Rightarrow> StatusFailed
      | Inr mounted \<Rightarrow>
          if mounted \<and> (mt_FstabPersist r \<longrightarrow> fstabLineExists (fstabContent (mt_Env r) w) (mt_Path r))
          then StatusUnchanged else StatusWouldChange)"
  by (simp add: MountResource_Check_def fstabContent_def Let_def split: sum.split)

interpretation mount: resource_iface "mountResource r" for r :: "'x MountResource"
  by unfold_locales
    (auto simp: mountResource_def MountResource_Check_def Let_def split: sum.splits)

section \<open>The fstab entry\<close>

text \<open>
  The fields of an entry only parse back if none of them has white space in it and the device does
  not read as a comment.
\<close>

definition fstab_fields :: "'x MountResource \<Rightarrow> bool" where
  "fstab_fields r \<longleftrightarrow> field (mt_Device r) \<and> hd (mt_Device r) \<noteq> CHR ''#'' \<and> field (mt_Path r)"

lemma fstab_line_entry:
  assumes "field d" "hd d \<noteq> CHR ''#''" "field p"
  shows "fstab_line p (d @ '' '' @ p @ CHR '' '' # x)"
proof -
  let ?l = "d @ '' '' @ p @ CHR '' '' # x"
  have f: "strings_Fields ?l = d # p # strings_Fields x"
    using Fields_append_ascii[of "CHR '' ''" d "p @ CHR '' '' # x"]
      Fields_append_ascii[of "CHR '' ''" p x] Fields_field[OF assms(1)] Fields_field[OF assms(3)]
    by simp
  then have ne: "strings_TrimSpace ?l \<noteq> []"
    by (metis Fields_Nil Fields_TrimSpace list.distinct(1))
  have "noncont ('' '' @ p @ CHR '' '' # x)" by (simp add: noncont_def cont_def)
  from TrimSpace_hd[OF field_ws_len[OF assms(1) this] ne]
  have "hd (strings_TrimSpace ?l) \<noteq> CHR ''#''"
    using assms(1,2) by (simp add: field_def)
  then have "\<not> strings_HasPrefix (strings_TrimSpace ?l) ''#''"
    using ne by (cases "strings_TrimSpace ?l") (auto simp: strings_HasPrefix_def)
  with ne f show ?thesis by (simp add: fstab_line_def)
qed

lemma fstab_line_Nil [simp]: "\<not> fstab_line p []"
  by (simp add: fstab_line_def strings_TrimSpace_def trimL.simps trimR.simps)

lemma fstabLineExists_entry:
  assumes "fstab_fields r"
  shows "fstabLineExists (fstab_entry r) (mt_Path r)"
proof -
  let ?rest = "CHR '' '' # mt_FSType r @ '' '' @ mt_Options r @ '' 0 0''"
  let ?u = "mt_Device r @ '' '' @ mt_Path r"
  have "NL \<notin> set ?u" using assms by (simp add: fstab_fields_def field_no_NL)
  then obtain x xs where s: "splitOn NL ?rest = x # xs" "splitOn NL (?u @ ?rest) = (?u @ x) # xs"
    using splitOn_prefix by blast
  then obtain x' where "x = CHR '' '' # x'" by (auto split: list.splits)
  with s(2) assms fstab_line_entry[of "mt_Device r" "mt_Path r" x'] show ?thesis
    by (simp add: fstabLineExists_def fstab_entry_def fstab_fields_def)
qed

lemma fstabLineExists_append:
  "fstabLineExists (u @ NL # v) p \<longleftrightarrow> fstabLineExists u p \<or> fstabLineExists v p"
  by (simp add: fstabLineExists_def splitOn_append_full)

lemma fstabLineExists_Nil [simp]: "\<not> fstabLineExists [] p"
  by (simp add: fstabLineExists_def)

lemma fstabLineExists_add:
  "fstabLineExists (fstab_add r c) p \<longleftrightarrow> fstabLineExists c p \<or> fstabLineExists (fstab_entry r) p"
proof -
  consider "c = []" | b where "c = b @ [NL]" | "c \<noteq> []" "\<not> strings_HasSuffix c [NL]"
    by (cases c rule: rev_cases) (auto simp: strings_HasSuffix_def)
  then show ?thesis
  proof cases
    case 1
    then show ?thesis by (simp add: fstab_add_def fstabLineExists_append)
  next
    case 2
    then show ?thesis
      using fstabLineExists_append[of b "fstab_entry r @ [NL]" p] fstabLineExists_append[of b "[]" p]
        fstabLineExists_append[of "fstab_entry r" "[]" p]
      by (simp add: fstab_add_def strings_HasSuffix_def)
  next
    case 3
    then show ?thesis
      using fstabLineExists_append[of c "fstab_entry r @ [NL]" p]
        fstabLineExists_append[of "fstab_entry r" "[]" p]
      by (simp add: fstab_add_def)
  qed
qed

lemma fstab_add_prefix: "strings_HasPrefix (fstab_add r c) c"
  by (simp add: fstab_add_def strings_HasPrefix_def Let_def)

lemma persistFstab_content:
  assumes "persistFstab r w = (None, w')"
  shows "fstabContent (mt_Env r) w' =
    (let c = fstabContent (mt_Env r) w in if fstabLineExists c (mt_Path r) then c else fstab_add r c)"
proof (cases "fstabLineExists (fstabContent (mt_Env r) w) (mt_Path r)")
  case True
  with assms show ?thesis
    by (auto simp: persistFstab_def fstabContent_def Let_def split: sum.splits if_splits)
next
  case False
  with assms obtain w1 b where
    "WriteFileIfChanged (fstabPath (mt_Env r)) (fstab_add r (fstabContent (mt_Env r) w)) 420 w1 = (Inr b, w')"
    by (auto simp: persistFstab_def fstabContent_def Let_def
        split: sum.splits if_splits prod.splits option.splits)
  from WriteFileIfChanged_ok[OF this] False show ?thesis
    by (simp add: fstabContent_def ReadFileString_def)
qed

text \<open>An edit of fstab touches the file and its backup.\<close>

lemma fstab_touches:
  "only_touches {fstabPath e} u v \<Longrightarrow> only_touches {fstabPath e, backupPath (fstabPath e)} u v"
  "only_touches {backupPath (fstabPath e)} u v \<Longrightarrow> only_touches {fstabPath e, backupPath (fstabPath e)} u v"
  by (erule only_touches_mono, simp)+

lemma fstab_touches_trans:
  "only_touches {backupPath (fstabPath e)} u v \<Longrightarrow> only_touches {fstabPath e} v w \<Longrightarrow>
   only_touches {fstabPath e, backupPath (fstabPath e)} u w"
  by (blast intro: only_touches_trans fstab_touches)

lemma persistFstab_touches:
  assumes "persistFstab r w = (e, w')"
  shows "only_touches {fstabPath (mt_Env r), backupPath (fstabPath (mt_Env r))} w w'"
  using assms
  by (auto simp: persistFstab_def Let_def split: sum.splits if_splits prod.splits option.splits
      dest!: BackupFile_touches WriteFileIfChanged_touches
      intro: fstab_touches fstab_touches_trans)

section \<open>Convergence\<close>

text \<open>
  What \<^verbatim>\<open>mount\<close> is relied on for: when it succeeds, the mount is listed in \<^verbatim>\<open>/proc/mounts\<close>.
\<close>

definition mount_mounts :: "'x MountResource \<Rightarrow> bool" where
  "mount_mounts r \<longleftrightarrow>
     (\<forall>w out w'. mt_Runner r ''mount'' (mount_args r) w = ((out, None), w') \<longrightarrow> isMounted r w' = Inr True)"

lemma isMounted_frame:
  assumes "only_touches P w w'" "Path (mt_Env r) [''proc'', ''mounts''] \<notin> P" "isMounted r w = Inr b"
  shows "isMounted r w' = Inr b"
  using assms(3) only_touches_scan[OF assms(1) _ assms(2)]
  by (auto simp: isMounted_def split: sum.splits)

lemma fstab_apart:
  assumes "\<forall>c \<in> set cs. plain_comp c" "cs = [] \<or> hd cs \<noteq> ''etc''"
  shows "Path e cs \<noteq> fstabPath e \<and> Path e cs \<noteq> backupPath (fstabPath e)"
proof -
  have p: "plain_comp ''etc''" "plain_comp ''fstab''" "plain_comp (''fstab'' @ ''.node-configurator.orig'')"
    by (simp_all add: plain_comp_def)
  then have b: "backupPath (fstabPath e) = Path e [''etc'', ''fstab'' @ ''.node-configurator.orig'']"
    unfolding fstabPath_def using backupPath_Path[of "[''etc'']" "''fstab''" e] by simp
  show ?thesis
    unfolding b unfolding fstabPath_def
    using Path_inj[OF assms(1), of "[''etc'', ''fstab'']" e]
      Path_inj[OF assms(1), of "[''etc'', ''fstab'' @ ''.node-configurator.orig'']" e] p assms(2)
    by force
qed

lemma proc_apart:
  "plain_comp c \<Longrightarrow> Path e [''proc'', c] \<notin> {fstabPath e, backupPath (fstabPath e)}"
  using fstab_apart[of "[''proc'', c]" e] by (simp add: plain_comp_proc_sys)

lemma MountResource_Apply_settles:
  assumes ap: "MountResource_Apply r w = (None, w')"
    and mt: "mount_mounts r" and ff: "mt_FstabPersist r \<Longrightarrow> fstab_fields r"
  shows "r_Status (fst (MountResource_Check r w')) = StatusUnchanged"
proof -
  from ap obtain w1 where m1: "isMounted r w1 = Inr True"
    and rest: "(if mt_FstabPersist r then persistFstab r w1 else (None, w1)) = (None, w')"
    using mt
    by (fastforce simp: MountResource_Apply_def mount_step_def mount_mounts_def
        split: sum.splits if_splits prod.splits option.splits)
  show ?thesis
  proof (cases "mt_FstabPersist r")
    case True
    with rest have p: "persistFstab r w1 = (None, w')" by simp
    have "isMounted r w' = Inr True"
      by (rule isMounted_frame[OF persistFstab_touches[OF p] _ m1]) (rule proc_apart, simp add: plain_comp_def)
    moreover have "fstabLineExists (fstabContent (mt_Env r) w') (mt_Path r)"
      using persistFstab_content[OF p] fstabLineExists_entry[OF ff[OF True]]
      by (simp add: Let_def fstabLineExists_add split: if_splits)
    ultimately show ?thesis by (simp add: MountResource_Check_status)
  next
    case False
    with rest m1 show ?thesis by (simp add: MountResource_Check_status)
  qed
qed

interpretation mount: convergent_resource "mountResource r"
  "\<lambda>w. mount_mounts r \<and> (mt_FstabPersist r \<longrightarrow> fstab_fields r)"
  for r :: "'x MountResource"
proof unfold_locales
  fix w w' :: "'x world"
  assume ok: "mount_mounts r \<and> (mt_FstabPersist r \<longrightarrow> fstab_fields r)"
  show "snd (res_Check (mountResource r) w) = w" by (simp add: mountResource_def)
  assume ap: "res_Apply (mountResource r) w = (None, w')"
  show "mount_mounts r \<and> (mt_FstabPersist r \<longrightarrow> fstab_fields r)" by (rule ok)
  have "chk_status (mountResource r) w' = StatusUnchanged"
    using MountResource_Apply_settles[of r w w'] ap ok by (simp add: mountResource_def)
  then show "chk_error (mountResource r) w' = None \<and> chk_status (mountResource r) w' \<noteq> StatusWouldChange"
    using mount.failed_iff_error[of r w'] by simp
qed

section \<open>Properties\<close>


text \<open>A mount command that lists the mount it is asked for, and the BPF filesystem of the engine.\<close>

definition fake_mount :: "unit runner" where
  "fake_mount name args w =
     (([], None), set_node ''/proc/mounts'' (regular (''bpffs /sys/fs/bpf bpf rw 0 0'' @ [NL])) w)"

definition bpffs_resource :: "unit MountResource" where
  "bpffs_resource = \<lparr>mt_Env = New, mt_Runner = fake_mount, mt_ResourceName = ''bpffs'',
     mt_Device = ''bpffs'', mt_Path = ''/sys/fs/bpf'', mt_FSType = ''bpf'',
     mt_Options = ''rw,nosuid,nodev,noexec,relatime'', mt_FstabPersist = True\<rparr>"

definition mounts_world :: "unit world" where
  "mounts_world = \<lparr>w_fs = [(''/'', plain_dir), (''/etc'', plain_dir),
     (''/etc/fstab'', regular ''/dev/xvda1 / xfs defaults 0 0''),
     (''/proc/mounts'', regular (''proc /proc proc rw 0 0'' @ [NL]))], w_ext = ()\<rparr>"

lemma proc_mounts_path: "Path New [''proc'', ''mounts''] = ''/proc/mounts''"
  by code_simp

lemma fake_mount_mounts: "mount_mounts bpffs_resource"
proof -
  have "list_ex (mount_line bpffs_resource) (fst (scanLines (''bpffs /sys/fs/bpf bpf rw 0 0'' @ [NL])))"
    by code_simp
  then show ?thesis
    by (auto simp: mount_mounts_def bpffs_resource_def fake_mount_def isMounted_def proc_mounts_path
        os_OpenScan_def regular_def case_prod_beta simp del: append_Cons)
qed

lemma bpffs_fields: "fstab_fields bpffs_resource"
  by code_simp


text \<open>
  C13. Editing fstab is conservative: a successful \<^verbatim>\<open>persistFstab\<close> only appends to the file, so that every
  mount point listed before is still listed, and the new one is; running it again changes nothing;
  and apart from the file and its backup nothing on the host changes.
\<close>

theorem persistFstab_appends:
  assumes "persistFstab r w = (None, w')" "fstab_fields r"
  shows "strings_HasPrefix (fstabContent (mt_Env r) w') (fstabContent (mt_Env r) w) \<and>
    (\<forall>p. fstabLineExists (fstabContent (mt_Env r) w') p \<longleftrightarrow>
         fstabLineExists (fstabContent (mt_Env r) w) p \<or>
         fstabLineExists (fstab_entry r) p \<and> \<not> fstabLineExists (fstabContent (mt_Env r) w) (mt_Path r)) \<and>
    fstabLineExists (fstabContent (mt_Env r) w') (mt_Path r) \<and>
    persistFstab r w' = (None, w') \<and>
    only_touches {fstabPath (mt_Env r), backupPath (fstabPath (mt_Env r))} w w'"
proof -
  note c = persistFstab_content[OF assms(1), unfolded Let_def]
  have ex: "fstabLineExists (fstabContent (mt_Env r) w') (mt_Path r)"
    using c fstabLineExists_entry[OF assms(2)] by (simp add: fstabLineExists_add split: if_splits)
  have "ReadFileString (fstabPath (mt_Env r)) w' = Inr (fstabContent (mt_Env r) w')"
    using ex by (cases "ReadFileString (fstabPath (mt_Env r)) w'") (simp_all add: fstabContent_def)
  with ex have "persistFstab r w' = (None, w')" by (simp add: persistFstab_def)
  with ex c persistFstab_touches[OF assms(1)] show ?thesis
    by (auto simp: fstabLineExists_add fstab_add_prefix) (simp add: strings_HasPrefix_def)
qed

theorem persistFstab_appends_witness:
  "\<exists>w'. persistFstab bpffs_resource mounts_world = (None, w') \<and>
     fstabLineExists (fstabContent New w') ''/''"
proof -
  let ?w' = "snd (persistFstab bpffs_resource mounts_world)"
  have "fst (persistFstab bpffs_resource mounts_world) = None" by code_simp
  then have p: "persistFstab bpffs_resource mounts_world = (None, ?w')" by (simp add: prod_eq_iff)
  have "fstabLineExists (fstabContent New mounts_world) ''/''" by code_simp
  moreover have "mt_Env bpffs_resource = New" by (simp add: bpffs_resource_def)
  ultimately show ?thesis
    using persistFstab_appends[OF p bpffs_fields] p by metis
qed

end
