(* ===== verification/Swap_Resource.thy ===== *)
theory Swap_Resource
  imports Mount_Resource
begin

text \<open>
  \<^verbatim>\<open>internal/resource/swap.go\<close>: swap is turned off, its \<^verbatim>\<open>/etc/fstab\<close> entries are commented out and the
  active systemd swap units are masked. \<^verbatim>\<open>Check\<close> runs a command, so it returns the world too.
\<close>

record 'x SwapResource =
  sw_Env :: Env
  sw_Runner :: "'x runner"

text \<open>The first line of \<^verbatim>\<open>/proc/swaps\<close> is its header.\<close>

definition activeSwapDevices :: "'x SwapResource \<Rightarrow> 'x world \<Rightarrow> goerror + string list" where
  "activeSwapDevices r w =
     (case os_OpenScan (Path (sw_Env r) [''proc'', ''swaps'']) w of
        Inl err \<Rightarrow> Inl (Errorf ''reading /proc/swaps'' err)
      | Inr (ls, Some err) \<Rightarrow> Inl err
      | Inr (ls, None) \<Rightarrow> Inr (concat (map first_field (drop 1 ls))))"

definition activeSwapUnits :: "'x SwapResource \<Rightarrow> 'x world \<Rightarrow> string list \<times> 'x world" where
  "activeSwapUnits r w =
     (case sw_Runner r ''systemctl'' [''list-units'', ''--type=swap'', ''--no-legend'', ''--plain''] w of
        ((out, Some err), w') \<Rightarrow> ([], w')
      | ((out, None), w') \<Rightarrow> (concat (map first_field (fst (scanLines out))), w'))"

definition swap_line :: "string \<Rightarrow> bool" where
  "swap_line line =
     (let trimmed = strings_TrimSpace line in
      if trimmed = [] \<or> strings_HasPrefix trimmed ''#'' then False
      else let fields = strings_Fields trimmed in 3 \<le> length fields \<and> fields ! 2 = ''swap'')"

definition fstabHasActiveSwapLines :: "string \<Rightarrow> bool" where
  "fstabHasActiveSwapLines content = list_ex swap_line (splitOn NL content)"

definition disabledMark :: string where
  "disabledMark = ''# disabled by node-configurator: ''"

definition commentedFstab :: "string \<Rightarrow> string" where
  "commentedFstab content =
     strings_Join (map (\<lambda>line. if swap_line line then disabledMark @ line else line) (splitOn NL content)) [NL]"

definition commentFstabSwapLines :: "'x SwapResource \<Rightarrow> 'x world \<Rightarrow> goerror option \<times> 'x world" where
  "commentFstabSwapLines r w =
     (let path = fstabPath (sw_Env r) in
      case ReadFileString path w of
        Inl err \<Rightarrow> if os_IsNotExist err then (None, w) else (Some (Errorf ''reading /etc/fstab'' err), w)
      | Inr content \<Rightarrow>
          if \<not> fstabHasActiveSwapLines content then (None, w)
          else
            (case BackupFile path w of
               (Some err, w1) \<Rightarrow> (Some (Errorf ''backing up /etc/fstab'' err), w1)
             | (None, w1) \<Rightarrow>
                 (case WriteFileIfChanged path (commentedFstab content) 420 w1 of
                    (Inl err, w2) \<Rightarrow> (Some (Errorf ''writing /etc/fstab'' err), w2)
                  | (Inr _, w2) \<Rightarrow> (None, w2))))"

definition SwapResource_Check :: "'x SwapResource \<Rightarrow> 'x world \<Rightarrow> (Result \<times> goerror option) \<times> 'x world" where
  "SwapResource_Check r w =
     (case activeSwapDevices r w of
        Inl err \<Rightarrow> ((mkResult ''swap'' StatusFailed (errText err), Some err), w)
      | Inr active \<Rightarrow>
          (let fstabDrift = fstabHasActiveSwapLines (fstabContent (sw_Env r) w);
               (units, w') = activeSwapUnits r w in
           if length active = 0 \<and> \<not> fstabDrift \<and> length units = 0
           then ((mkResult ''swap'' StatusUnchanged [], None), w')
           else
             (let detail = (if 0 < length active then ''active swap: '' @ strings_Join active '', '' else []);
                  detail = (if fstabDrift then joinDetails [detail, ''/etc/fstab has active swap entries''] else detail);
                  detail = (if 0 < length units
                            then joinDetails [detail, ''active swap units: '' @ strings_Join units '', ''] else detail)
              in ((mkResult ''swap'' StatusWouldChange detail, None), w'))))"

fun mask_loop :: "'x runner \<Rightarrow> string list \<Rightarrow> 'x world \<Rightarrow> goerror option \<times> 'x world" where
  "mask_loop run [] w = (None, w)"
| "mask_loop run (unit # units) w =
     (case run ''systemctl'' [''mask'', unit] w of
        ((_, Some err), w') \<Rightarrow> (Some (Errorf (''systemctl mask '' @ unit) err), w')
      | ((_, None), w') \<Rightarrow> mask_loop run units w')"

definition swapoff_step :: "'x SwapResource \<Rightarrow> string list \<Rightarrow> 'x world \<Rightarrow> goerror option \<times> 'x world" where
  "swapoff_step r active w =
     (if 0 < length active then
        (case sw_Runner r ''swapoff'' [''-a''] w of
           ((_, Some err), w') \<Rightarrow> (Some (Errorf ''swapoff -a'' err), w')
         | ((_, None), w') \<Rightarrow> (None, w'))
      else (None, w))"

definition SwapResource_Apply :: "'x SwapResource \<Rightarrow> 'x world \<Rightarrow> goerror option \<times> 'x world" where
  "SwapResource_Apply r w =
     (case activeSwapDevices r w of
        Inl err \<Rightarrow> (Some err, w)
      | Inr active \<Rightarrow>
          (case swapoff_step r active w of
             (Some err, w1) \<Rightarrow> (Some err, w1)
           | (None, w1) \<Rightarrow>
               (case commentFstabSwapLines r w1 of
                  (Some err, w2) \<Rightarrow> (Some err, w2)
                | (None, w2) \<Rightarrow>
                    (let (units, w3) = activeSwapUnits r w2 in mask_loop (sw_Runner r) units w3))))"

definition swapResource :: "'x SwapResource \<Rightarrow> 'x world Resource" where
  "swapResource r =
     \<lparr>res_Name = ''swap'', res_Check = SwapResource_Check r, res_Apply = SwapResource_Apply r\<rparr>"

section \<open>Checking\<close>

lemma SwapResource_Check_status:
  "r_Status (fst (fst (SwapResource_Check r w))) =
     (case activeSwapDevices r w of
        Inl e \<Rightarrow> StatusFailed
      | Inr active \<Rightarrow>
          if active = [] \<and> \<not> fstabHasActiveSwapLines (fstabContent (sw_Env r) w) \<and> fst (activeSwapUnits r w) = []
          then StatusUnchanged else StatusWouldChange)"
  by (simp add: SwapResource_Check_def Let_def case_prod_beta split: sum.split)

interpretation swap: resource_iface "swapResource r" for r :: "'x SwapResource"
  by unfold_locales
    (auto simp: swapResource_def SwapResource_Check_def Let_def case_prod_beta split: sum.splits)

section \<open>Commenting out\<close>

lemma disabledMark_comment:
  "strings_TrimSpace (disabledMark @ l) = [] \<or> strings_HasPrefix (strings_TrimSpace (disabledMark @ l)) ''#''"
proof -
  have "ws_len (disabledMark @ l) = 0"
    by (simp add: disabledMark_def graphic_ws_len graphic_def)
  from TrimSpace_hd[OF this] show ?thesis
    by (cases "strings_TrimSpace (disabledMark @ l)") (simp_all add: strings_HasPrefix_def disabledMark_def)
qed

lemma swap_line_mark [simp]: "\<not> swap_line (disabledMark @ l)"
  using disabledMark_comment[of l] by (simp add: swap_line_def Let_def)

lemma fstab_line_mark [simp]: "\<not> fstab_line p (disabledMark @ l)"
  using disabledMark_comment[of l] by (simp add: fstab_line_def Let_def)

lemma commentedFstab_lines:
  "splitOn NL (commentedFstab c) =
     map (\<lambda>line. if swap_line line then disabledMark @ line else line) (splitOn NL c)"
proof -
  have "NL \<notin> set disabledMark" by (simp add: disabledMark_def)
  then show ?thesis
    unfolding commentedFstab_def by (intro splitOn_Join) (auto dest: splitOn_no_sep)
qed

lemma commentedFstab_inactive: "\<not> fstabHasActiveSwapLines (commentedFstab c)"
  by (auto simp: fstabHasActiveSwapLines_def commentedFstab_lines list_ex_iff)

lemma commentedFstab_idle: "\<not> fstabHasActiveSwapLines c \<Longrightarrow> commentedFstab c = c"
proof -
  assume "\<not> fstabHasActiveSwapLines c"
  then have "map (\<lambda>line. if swap_line line then disabledMark @ line else line) (splitOn NL c) = splitOn NL c"
    by (simp add: fstabHasActiveSwapLines_def list_ex_iff map_idI)
  then show ?thesis by (simp add: commentedFstab_def)
qed


lemma commentFstabSwapLines_content:
  assumes "commentFstabSwapLines r w = (None, w')"
  shows "fstabContent (sw_Env r) w' = commentedFstab (fstabContent (sw_Env r) w)"
proof (cases "fstabHasActiveSwapLines (fstabContent (sw_Env r) w)")
  case True
  with assms obtain w1 b where
    "WriteFileIfChanged (fstabPath (sw_Env r)) (commentedFstab (fstabContent (sw_Env r) w)) 420 w1 = (Inr b, w')"
    by (auto simp: commentFstabSwapLines_def fstabContent_def Let_def fstabHasActiveSwapLines_def
        swap_line_def strings_TrimSpace_def trimL.simps trimR.simps
        split: sum.splits if_splits prod.splits option.splits)
  from WriteFileIfChanged_ok[OF this] show ?thesis by (simp add: fstabContent_def ReadFileString_def)
next
  case False
  with assms have "w' = w"
    by (auto simp: commentFstabSwapLines_def fstabContent_def Let_def split: sum.splits if_splits)
  with False show ?thesis by (simp add: commentedFstab_idle)
qed

lemma commentFstabSwapLines_touches:
  assumes "commentFstabSwapLines r w = (e, w')"
  shows "only_touches {fstabPath (sw_Env r), backupPath (fstabPath (sw_Env r))} w w'"
  using assms
  by (auto simp: commentFstabSwapLines_def Let_def split: sum.splits if_splits prod.splits option.splits
      dest!: BackupFile_touches WriteFileIfChanged_touches
      intro: fstab_touches fstab_touches_trans)

section \<open>Turning swap off\<close>

text \<open>
  What the commands are relied on for, as their manuals say: \<^verbatim>\<open>swapoff -a\<close> disables swapping on every device
  of \<^verbatim>\<open>/proc/swaps\<close>; listing units changes nothing; and \<^verbatim>\<open>systemctl mask\<close> links the unit's file to \<^verbatim>\<open>/dev/null\<close>,
  so that \<^verbatim>\<open>/proc/swaps\<close> and \<^verbatim>\<open>/etc/fstab\<close> stay as they are. Masking does not stop a unit, and nothing is
  assumed about the units listed afterwards.
\<close>

definition swapoff_works :: "'x SwapResource \<Rightarrow> bool" where
  "swapoff_works r \<longleftrightarrow>
     (\<forall>w out w'. sw_Runner r ''swapoff'' [''-a''] w = ((out, None), w') \<longrightarrow> activeSwapDevices r w' = Inr [])"

definition list_units_pure :: "'x SwapResource \<Rightarrow> bool" where
  "list_units_pure r \<longleftrightarrow> (\<forall>w. snd (activeSwapUnits r w) = w)"

definition mask_frames :: "'x SwapResource \<Rightarrow> bool" where
  "mask_frames r \<longleftrightarrow>
     (\<forall>w u out w'. sw_Runner r ''systemctl'' [''mask'', u] w = ((out, None), w') \<longrightarrow>
        node_at w' (Path (sw_Env r) [''proc'', ''swaps'']) = node_at w (Path (sw_Env r) [''proc'', ''swaps'']) \<and>
        node_at w' (fstabPath (sw_Env r)) = node_at w (fstabPath (sw_Env r)))"

definition swap_commands :: "'x SwapResource \<Rightarrow> bool" where
  "swap_commands r \<longleftrightarrow> swapoff_works r \<and> list_units_pure r \<and> mask_frames r"

definition masks :: "string list \<Rightarrow> (string \<times> string list) list" where
  "masks units = map (\<lambda>u. (''systemctl'', [''mask'', u])) units"

lemma mask_loop_runs: "mask_loop run units w = (None, w') \<longleftrightarrow> runs run (masks units) w w'"
  by (induction units arbitrary: w) (auto simp: masks_def runs_Cons_iff split: prod.split option.split)

lemma activeSwapDevices_frame:
  assumes "only_touches P w w'" "Path (sw_Env r) [''proc'', ''swaps''] \<notin> P" "activeSwapDevices r w = Inr l"
  shows "activeSwapDevices r w' = Inr l"
  using assms(3) only_touches_scan[OF assms(1) _ assms(2)]
  by (auto simp: activeSwapDevices_def split: sum.splits option.splits)

lemma activeSwapDevices_cong:
  assumes "node_at w' (Path (sw_Env r) [''proc'', ''swaps'']) = node_at w (Path (sw_Env r) [''proc'', ''swaps''])"
  shows "activeSwapDevices r w' = Inr l \<longleftrightarrow> activeSwapDevices r w = Inr l"
proof -
  let ?p = "Path (sw_Env r) [''proc'', ''swaps'']"
  have "activeSwapDevices r v = Inr l \<longleftrightarrow>
      (\<exists>ls. os_OpenScan ?p v = Inr (ls, None) \<and> l = concat (map first_field (drop 1 ls)))" for v :: "'a world"
    by (auto simp: activeSwapDevices_def split: sum.splits option.splits)
  then show ?thesis using os_OpenScan_cong[OF assms] by simp
qed

lemma masks_frame:
  assumes "mask_frames r" "runs (sw_Runner r) (masks units) w w'"
  shows "node_at w' (Path (sw_Env r) [''proc'', ''swaps'']) = node_at w (Path (sw_Env r) [''proc'', ''swaps'']) \<and>
    node_at w' (fstabPath (sw_Env r)) = node_at w (fstabPath (sw_Env r))"
  using assms(2)
  by (rule runs_frame) (use assms(1) in \<open>auto simp: masks_def mask_frames_def\<close>)

text \<open>What a successful \<^verbatim>\<open>Apply\<close> does, in three stages, and what it leaves.\<close>

definition swap_stages :: "'x SwapResource \<Rightarrow> 'x world \<Rightarrow> 'x world \<Rightarrow> bool" where
  "swap_stages r w w' \<longleftrightarrow>
     (\<exists>active w1 w2. activeSwapDevices r w = Inr active \<and>
        runs (sw_Runner r) (if active = [] then [] else [(''swapoff'', [''-a''])]) w w1 \<and>
        only_touches {fstabPath (sw_Env r), backupPath (fstabPath (sw_Env r))} w1 w2 \<and>
        fstabContent (sw_Env r) w2 = commentedFstab (fstabContent (sw_Env r) w1) \<and>
        runs (sw_Runner r) (masks (fst (activeSwapUnits r w2))) w2 w')"

lemma SwapResource_Apply_effect:
  assumes ap: "SwapResource_Apply r w = (None, w')" and cmds: "swap_commands r"
  shows "activeSwapDevices r w' = Inr [] \<and> \<not> fstabHasActiveSwapLines (fstabContent (sw_Env r) w') \<and> swap_stages r w w'"
proof -
  from cmds have off: "swapoff_works r" and pure: "\<And>w. snd (activeSwapUnits r w) = w"
    and mask: "mask_frames r" by (simp_all add: swap_commands_def list_units_pure_def)
  from ap obtain active w1 w2 units w3 where act: "activeSwapDevices r w = Inr active"
    and s1: "swapoff_step r active w = (None, w1)"
    and s2: "commentFstabSwapLines r w1 = (None, w2)"
    and units: "activeSwapUnits r w2 = (units, w3)"
    and s3: "mask_loop (sw_Runner r) units w3 = (None, w')"
    by (auto simp: SwapResource_Apply_def Let_def split: sum.splits prod.splits option.splits)
  have w3: "w3 = w2" using pure[of w2] units by simp
  have "activeSwapDevices r w1 = Inr []"
    using act s1 off
    by (auto simp: swapoff_step_def swapoff_works_def split: if_splits prod.splits option.splits)
  from activeSwapDevices_frame[OF commentFstabSwapLines_touches[OF s2] proc_apart this]
  have a2: "activeSwapDevices r w2 = Inr []" by (simp add: plain_comp_def)
  from s3 w3 units have m: "runs (sw_Runner r) (masks (fst (activeSwapUnits r w2))) w2 w'" by (simp add: mask_loop_runs)
  from masks_frame[OF mask m] have "activeSwapDevices r w' = Inr []"
    "fstabContent (sw_Env r) w' = commentedFstab (fstabContent (sw_Env r) w1)"
    using a2 activeSwapDevices_cong[of w' r w2 "[]"] fstabContent_cong[of w' "sw_Env r" w2]
    by (simp_all add: commentFstabSwapLines_content[OF s2])
  moreover have "runs (sw_Runner r) (if active = [] then [] else [(''swapoff'', [''-a''])]) w w1"
    using s1 by (auto simp: swapoff_step_def runs_Cons_iff split: if_splits prod.splits option.splits)
  with act m commentFstabSwapLines_touches[OF s2] commentFstabSwapLines_content[OF s2] have "swap_stages r w w'"
    unfolding swap_stages_def by blast
  ultimately show ?thesis by (simp add: commentedFstab_inactive)
qed

interpretation swap: settling_resource "swapResource r" "\<lambda>w. swap_commands r" "\<lambda>w. fst (activeSwapUnits r w) = []"
  for r :: "'x SwapResource"
proof unfold_locales
  fix w w' :: "'x world"
  assume ok: "swap_commands r"
  then show "snd (res_Check (swapResource r) w) = w"
    by (simp add: swapResource_def SwapResource_Check_def swap_commands_def list_units_pure_def
        Let_def case_prod_beta split: sum.split)
  assume ap: "res_Apply (swapResource r) w = (None, w')"
  show "swap_commands r" by (rule ok)
  assume "fst (activeSwapUnits r w') = []"
  with SwapResource_Apply_effect[of r w w'] ap ok have "chk_status (swapResource r) w' = StatusUnchanged"
    by (simp add: swapResource_def SwapResource_Check_status)
  then show "chk_error (swapResource r) w' = None \<and> chk_status (swapResource r) w' \<noteq> StatusWouldChange"
    using swap.failed_iff_error[of r w'] by simp
qed

section \<open>Properties\<close>

text \<open>
  C12. Turning swap off: with a \<^verbatim>\<open>swapoff\<close> that works, a successful \<^verbatim>\<open>Apply\<close> runs \<^verbatim>\<open>swapoff -a\<close> if a swap device was
  active and only then, comments out the active swap entries of fstab, touching that file and its backup
  only, and masks exactly the units listed by then, each with success. It leaves no active swap device and
  no active fstab swap entry, and the next \<^verbatim>\<open>Check\<close> is satisfied if and only if no swap unit is listed any
  more: a unit that masking leaves on the list is drift again.
\<close>

theorem SwapResource_converges_iff:
  assumes "SwapResource_Apply r w = (None, w')" "swap_commands r"
  shows "(\<exists>active w1 w2. activeSwapDevices r w = Inr active \<and>
      runs (sw_Runner r) (if active = [] then [] else [(''swapoff'', [''-a''])]) w w1 \<and>
      only_touches {fstabPath (sw_Env r), backupPath (fstabPath (sw_Env r))} w1 w2 \<and>
      fstabContent (sw_Env r) w2 = commentedFstab (fstabContent (sw_Env r) w1) \<and>
      runs (sw_Runner r) (map (\<lambda>u. (''systemctl'', [''mask'', u])) (fst (activeSwapUnits r w2))) w2 w') \<and>
    activeSwapDevices r w' = Inr [] \<and> \<not> fstabHasActiveSwapLines (fstabContent (sw_Env r) w') \<and>
    r_Status (fst (fst (SwapResource_Check r w'))) =
      (if fst (activeSwapUnits r w') = [] then StatusUnchanged else StatusWouldChange)"
  using SwapResource_Apply_effect[OF assms]
  by (simp add: SwapResource_Check_status masks_def swap_stages_def)

text \<open>A host whose swap units are kept outside the file system.\<close>

definition fake_swap :: "bool runner" where
  "fake_swap name args w =
     (if name = ''swapoff'' then (([], None), set_node ''/proc/swaps'' (regular (''Filename Type'' @ [NL])) w)
      else if args = [''mask'', ''swap.swap''] then (([], None), w\<lparr>w_ext := False\<rparr>)
      else if length args = 2 then (([], Some (CmdError ''no such unit'')), w)
      else (((if w_ext w then ''swap.swap'' @ [NL] else []), None), w))"

definition swap_resource :: "bool SwapResource" where
  "swap_resource = \<lparr>sw_Env = New, sw_Runner = fake_swap\<rparr>"

definition swap_world :: "bool world" where
  "swap_world = \<lparr>w_fs = [(''/'', plain_dir), (''/etc'', plain_dir),
     (''/etc/fstab'', regular (''/dev/xvda1 / xfs defaults 0 0'' @ [NL] @ ''/swapfile none swap sw 0 0'' @ [NL])),
     (''/proc/swaps'', regular (''Filename Type'' @ [NL] @ ''/swapfile file'' @ [NL]))],
     w_ext = True\<rparr>"

lemma fake_swap_units:
  "activeSwapUnits swap_resource w = ((if w_ext w then [''swap.swap''] else []), w)"
proof -
  have "concat (map first_field (fst (scanLines (''swap.swap'' @ [NL])))) = [''swap.swap'']"
    "concat (map first_field (fst (scanLines []))) = []"
    by code_simp+
  then show ?thesis
    by (simp add: activeSwapUnits_def swap_resource_def fake_swap_def del: first_field.simps append_Cons)
qed

lemma node_at_ext: "node_at (w\<lparr>w_ext := x\<rparr>) p = node_at w p"
  by (simp add: node_at_def)

lemma proc_swaps_path: "Path New [''proc'', ''swaps''] = ''/proc/swaps''"
  by code_simp

lemma fake_swap_commands: "swap_commands swap_resource"
proof -
  have "scanLines (''Filename Type'' @ [NL]) = ([''Filename Type''], False)" by code_simp
  then have "swapoff_works swap_resource"
    by (auto simp: swapoff_works_def swap_resource_def fake_swap_def activeSwapDevices_def proc_swaps_path
        os_OpenScan_def regular_def simp del: append_Cons)
  moreover have "list_units_pure swap_resource"
    by (simp add: list_units_pure_def fake_swap_units)
  moreover have "mask_frames swap_resource"
    by (auto simp: mask_frames_def swap_resource_def fake_swap_def node_at_ext split: if_splits)
  ultimately show ?thesis by (simp add: swap_commands_def)
qed

theorem SwapResource_converges_iff_witness:
  "\<exists>w'. SwapResource_Apply swap_resource swap_world = (None, w') \<and>
     r_Status (fst (fst (SwapResource_Check swap_resource w'))) = StatusUnchanged"
proof -
  let ?w' = "snd (SwapResource_Apply swap_resource swap_world)"
  have "fst (SwapResource_Apply swap_resource swap_world) = None"
    and u: "fst (activeSwapUnits swap_resource ?w') = []" by code_simp+
  then have ap: "SwapResource_Apply swap_resource swap_world = (None, ?w')" by (simp add: prod_eq_iff)
  from SwapResource_converges_iff[OF ap fake_swap_commands] u ap show ?thesis by auto
qed

text \<open>
  C8. Commenting out swap is exact: every line of the result is the original line, prefixed by the
  mark precisely where it was an active swap entry; so no active swap entry is left, the other mount
  entries are those of the original, and commenting again changes nothing.
\<close>

theorem commentedFstab_exact:
  "splitOn NL (commentedFstab c) =
     map (\<lambda>line. if swap_line line then disabledMark @ line else line) (splitOn NL c) \<and>
   \<not> fstabHasActiveSwapLines (commentedFstab c) \<and>
   commentedFstab (commentedFstab c) = commentedFstab c \<and>
   fstabLineExists (commentedFstab c) p = list_ex (\<lambda>l. fstab_line p l \<and> \<not> swap_line l) (splitOn NL c)"
  by (auto simp: commentedFstab_lines commentedFstab_inactive commentedFstab_idle fstabLineExists_def
      list_ex_iff split: if_splits)

end
