(* ===== verification/DropIn_Resource.thy ===== *)
theory DropIn_Resource
  imports Resource
begin

text \<open>
  \<^verbatim>\<open>internal/resource/dropinfile.go\<close>, \<^verbatim>\<open>limits.go\<close> and \<^verbatim>\<open>cgroupv2.go\<close>: a rendered file that is written
  when its content differs, the two limit files rendered for it, and the cgroup check that can only
  be fixed by a reboot.
\<close>

section \<open>dropinfile.go\<close>

record DropInFileResource =
  di_ResourceName :: string
  di_Path :: string
  di_Content :: string
  di_Mode :: nat

definition DropInFileResource_Check :: "DropInFileResource \<Rightarrow> 'x world \<Rightarrow> Result \<times> goerror option" where
  "DropInFileResource_Check r w =
     (if ReadFileString (di_Path r) w = Inr (di_Content r)
      then (mkResult (di_ResourceName r) StatusUnchanged [], None)
      else (mkResult (di_ResourceName r) StatusWouldChange (di_Path r @ '' out of date''), None))"

definition DropInFileResource_Apply :: "DropInFileResource \<Rightarrow> 'x world \<Rightarrow> goerror option \<times> 'x world" where
  "DropInFileResource_Apply r w =
     (let mode = (if di_Mode r = 0 then 420 else di_Mode r) in
      case WriteFileIfChanged (di_Path r) (di_Content r) mode w of
        (Inl err, w') \<Rightarrow> (Some (Errorf (''writing '' @ di_Path r) err), w')
      | (Inr _, w') \<Rightarrow> (None, w'))"

definition dropInFileResource :: "DropInFileResource \<Rightarrow> 'x world Resource" where
  "dropInFileResource r =
     \<lparr>res_Name = di_ResourceName r, res_Check = (\<lambda>w. (DropInFileResource_Check r w, w)),
      res_Apply = DropInFileResource_Apply r\<rparr>"

section \<open>limits.go\<close>

definition RenderLimitsConf :: "64 word \<Rightarrow> 64 word \<Rightarrow> string" where
  "RenderLimitsConf nofile nproc =
     (let n = nat_str (unat nofile);
          nprocStr = (if 0 < nproc then nat_str (unat nproc) else ''infinity'')
      in ''# Managed by node-configurator. Local edits will be overwritten.'' @ [NL]
         @ ''* soft nofile '' @ n @ [NL] @ ''* hard nofile '' @ n @ [NL]
         @ ''* soft nproc '' @ nprocStr @ [NL] @ ''* hard nproc '' @ nprocStr @ [NL])"

definition RenderSystemdLimitDropIn :: "64 word \<Rightarrow> string" where
  "RenderSystemdLimitDropIn nofile =
     ''# Managed by node-configurator. Local edits will be overwritten.'' @ [NL]
     @ ''[Service]'' @ [NL] @ ''LimitNOFILE='' @ nat_str (unat nofile) @ [NL]"

section \<open>cgroupv2.go\<close>

record CgroupV2Resource =
  cg_Env :: Env

definition CgroupV2Resource_Check :: "CgroupV2Resource \<Rightarrow> 'x world \<Rightarrow> Result \<times> goerror option" where
  "CgroupV2Resource_Check r w =
     (if CgroupV2Unified (cg_Env r) w then (mkResult ''cgroup-v2'' StatusUnchanged [], None)
      else (mkResult ''cgroup-v2'' StatusRebootRequired
        ''host is on the cgroup v1 hierarchy; add systemd.unified_cgroup_hierarchy=1 to the kernel command line and reboot'',
        None))"

definition CgroupV2Resource_Apply :: "CgroupV2Resource \<Rightarrow> 'x world \<Rightarrow> goerror option \<times> 'x world" where
  "CgroupV2Resource_Apply r w = (None, w)"

definition cgroupV2Resource :: "CgroupV2Resource \<Rightarrow> 'x world Resource" where
  "cgroupV2Resource r =
     \<lparr>res_Name = ''cgroup-v2'', res_Check = (\<lambda>w. (CgroupV2Resource_Check r w, w)),
      res_Apply = CgroupV2Resource_Apply r\<rparr>"

section \<open>Contracts\<close>

lemma DropInFileResource_Apply_read:
  "DropInFileResource_Apply r w = (None, w') \<Longrightarrow> os_ReadFile (di_Path r) w' = Inr (di_Content r)"
  by (auto simp: DropInFileResource_Apply_def Let_def split: prod.splits sum.splits
      dest: WriteFileIfChanged_ok)

lemma DropInFileResource_Apply_touches:
  "DropInFileResource_Apply r w = (e, w') \<Longrightarrow> only_touches {di_Path r} w w'"
  by (auto simp: DropInFileResource_Apply_def Let_def split: prod.splits sum.splits
      dest: WriteFileIfChanged_touches)

interpretation dropin: convergent_resource "dropInFileResource r" "\<lambda>w. True"
  for r :: DropInFileResource
  by unfold_locales
    (auto simp: dropInFileResource_def DropInFileResource_Check_def ReadFileString_def
      dest: DropInFileResource_Apply_read)

interpretation cgroup: convergent_resource "cgroupV2Resource r" "\<lambda>w. True"
  for r :: CgroupV2Resource
  by unfold_locales (auto simp: cgroupV2Resource_def CgroupV2Resource_Check_def)

section \<open>Properties\<close>

text \<open>
  C21. A rendered file is an exact, self-contained resource: whatever the host, a successful \<^verbatim>\<open>Apply\<close>
  leaves exactly the rendered content at the path, so that \<^verbatim>\<open>Check\<close> finds nothing to do and a second
  \<^verbatim>\<open>Apply\<close> is a no-op; nothing else on the host changes, and a failed \<^verbatim>\<open>Apply\<close> leaves the old file
  as it was.
\<close>

theorem DropInFileResource_exact:
  "case DropInFileResource_Apply r w of
     (None, w') \<Rightarrow>
       os_ReadFile (di_Path r) w' = Inr (di_Content r) \<and>
       r_Status (fst (DropInFileResource_Check r w')) = StatusUnchanged \<and>
       DropInFileResource_Apply r w' = (None, w') \<and> only_touches {di_Path r} w w'
   | (Some e, w') \<Rightarrow> node_at w' (di_Path r) = node_at w (di_Path r) \<and> only_touches {di_Path r} w w'"
proof (cases "DropInFileResource_Apply r w")
  case (Pair e w')
  show ?thesis
  proof (cases e)
    case None
    with Pair have ap: "DropInFileResource_Apply r w = (None, w')" by simp
    note rd = DropInFileResource_Apply_read[OF ap]
    with Pair None DropInFileResource_Apply_touches[OF ap] show ?thesis
      by (simp add: DropInFileResource_Check_def ReadFileString_def DropInFileResource_Apply_def
          WriteFileIfChanged_same)
  next
    case (Some err)
    with Pair have "\<exists>m x. WriteFileIfChanged (di_Path r) (di_Content r) m w = (Inl x, w')"
      by (auto simp: DropInFileResource_Apply_def Let_def split: prod.splits sum.splits)
    then have "node_at w' (di_Path r) = node_at w (di_Path r)"
      by (auto dest: WriteFileIfChanged_failed)
    with Pair Some DropInFileResource_Apply_touches[OF Pair] show ?thesis by simp
  qed
qed

end
