(* ===== verification/Knobs.thy ===== *)
theory Knobs
  imports Resource
begin

text \<open>
  What the resources that write kernel files below \<^verbatim>\<open>/sys\<close> and \<^verbatim>\<open>/proc\<close> share: directory patterns
  (\<^verbatim>\<open>filepath.Glob\<close>), the loop that stops at the first error, and the contract of such a loop,
  \<open>knob_steps\<close>: every step writes at most its own file and settles it.
\<close>

section \<open>filepath.Glob\<close>

text \<open>
  The patterns of the source are made of plain characters, digit classes and stars. The directory
  part that holds no pattern is taken literally.
\<close>

datatype pat = PChar char | PDigit | PStar

fun glob_match :: "pat list \<Rightarrow> string \<Rightarrow> bool" where
  "glob_match [] s = (s = [])"
| "glob_match (PChar c # ps) s = (case s of [] \<Rightarrow> False | x # xs \<Rightarrow> x = c \<and> glob_match ps xs)"
| "glob_match (PDigit # ps) s = (case s of [] \<Rightarrow> False | x # xs \<Rightarrow> dec_val x \<noteq> None \<and> glob_match ps xs)"
| "glob_match (PStar # ps) s = list_ex (glob_match ps) (map (\<lambda>i. drop i s) [0..<Suc (length s)])"

text \<open>
  One level of a pattern: the matching names of every readable directory of a list, in order;
  what is not a directory, or cannot be listed, is passed over.
\<close>

definition glob_dir :: "pat list \<Rightarrow> 'x world \<Rightarrow> string \<Rightarrow> string list" where
  "glob_dir ps w d =
     (case node_at w d of
        Some (Dir dn) \<Rightarrow>
          (case d_readdir_err dn of
             None \<Rightarrow> map (\<lambda>n. filepath_Join [d, n]) (filter (glob_match ps) (child_names w d))
           | Some e \<Rightarrow> [])
      | _ \<Rightarrow> [])"

definition glob_level :: "pat list \<Rightarrow> 'x world \<Rightarrow> string list \<Rightarrow> string list" where
  "glob_level ps w ds = concat (map (glob_dir ps w) ds)"

text \<open>The listing of a directory depends on which entries exist, not on what they hold.\<close>

lemma set_child_names: "set (child_names w p) = {r. \<exists>q. child_name p q = Some r \<and> node_at w q \<noteq> None}"
proof -
  have "r \<in> set (child_names w p) \<longleftrightarrow> (\<exists>q n. (q, n) \<in> set (w_fs w) \<and> child_name p q = Some r)" for r
    by (force simp: child_names_def List.map_filter_def)
  moreover have "(\<exists>n. (q, n) \<in> set (w_fs w)) \<longleftrightarrow> node_at w q \<noteq> None" for q
    unfolding node_at_def by (metis map_of_SomeD not_Some_eq weak_map_of_SomeI)
  ultimately show ?thesis by blast
qed

lemma child_names_cong:
  assumes "\<And>q r. child_name p q = Some r \<Longrightarrow> (node_at w' q = None) = (node_at w q = None)"
  shows "child_names w' p = child_names w p"
proof (rule sorted_list_of_distinct_eq)
  show "set (child_names w' p) = set (child_names w p)"
    unfolding set_child_names using assms by (intro Collect_cong) metis
qed (simp_all add: child_names_def)

lemma child_name_eq:
  assumes "child_name p q = Some r"
  shows "q = (if p = ''/'' then p else p @ ''/'') @ r"
proof -
  define pre where "pre = (if p = ''/'' then p else p @ ''/'')"
  from assms have "take (length pre) q = pre \<and> r = drop (length pre) q"
    unfolding child_name_def Let_def strings_HasPrefix_def pre_def[symmetric] by (simp split: if_split_asm)
  then have "q = pre @ r" using append_take_drop_id[of "length pre" q] by simp
  then show ?thesis by (simp only: pre_def)
qed

text \<open>
  \<open>same_shape S w w'\<close>: outside \<open>S\<close> the same entries exist and the directories are the same. Writing to
  a file that exists keeps the shape everywhere.
\<close>

definition same_shape :: "string set \<Rightarrow> 'x world \<Rightarrow> 'x world \<Rightarrow> bool" where
  "same_shape S w w' \<longleftrightarrow>
     (\<forall>q. q \<notin> S \<longrightarrow> (node_at w' q = None) = (node_at w q = None)) \<and>
     (\<forall>q d. (node_at w' q = Some (Dir d)) = (node_at w q = Some (Dir d)))"

lemma same_shape_refl [simp, intro]: "same_shape S w w"
  by (simp add: same_shape_def)

lemma same_shape_trans [trans]: "same_shape S u v \<Longrightarrow> same_shape S v w \<Longrightarrow> same_shape S u w"
  by (simp add: same_shape_def)

lemma same_shape_mono: "same_shape S u v \<Longrightarrow> S \<subseteq> T \<Longrightarrow> same_shape T u v"
  unfolding same_shape_def by blast

lemma glob_dir_shape:
  assumes "same_shape S w w'" "\<forall>q \<in> S. child_name d q = None"
  shows "glob_dir ps w' d = glob_dir ps w d"
proof -
  have c: "child_names w' d = child_names w d"
    using assms by (intro child_names_cong) (metis option.distinct(1) same_shape_def)
  show ?thesis
  proof (cases "\<exists>dn. node_at w d = Some (Dir dn)")
    case True
    then obtain dn where "node_at w d = Some (Dir dn)" "node_at w' d = Some (Dir dn)"
      using assms(1) by (auto simp: same_shape_def)
    with c show ?thesis by (simp add: glob_dir_def split: option.split)
  next
    case False
    then have "\<nexists>dn. node_at w' d = Some (Dir dn)" using assms(1) by (simp add: same_shape_def)
    with False show ?thesis by (auto simp: glob_dir_def split: option.splits node.splits)
  qed
qed

lemma glob_level_shape:
  "same_shape S w w' \<Longrightarrow> \<forall>d \<in> set ds. \<forall>q \<in> S. child_name d q = None \<Longrightarrow>
   glob_level ps w' ds = glob_level ps w ds"
  unfolding glob_level_def by (induction ds) (simp_all add: glob_dir_shape)

lemma os_ReadDir_shape:
  assumes "same_shape {} w w'" "os_ReadDir p w = Inr ns"
  shows "os_ReadDir p w' = Inr ns"
proof -
  have "child_names w' p = child_names w p"
    using assms(1) by (intro child_names_cong) (simp add: same_shape_def)
  moreover from assms(2) obtain d where d: "node_at w p = Some (Dir d)"
    by (auto simp: os_ReadDir_def split: option.splits node.splits)
  moreover from d assms(1) have "node_at w' p = Some (Dir d)" by (simp add: same_shape_def)
  ultimately show ?thesis using assms(2) by (simp add: os_ReadDir_def split: option.splits)
qed

lemma os_WriteFile_shape:
  assumes "os_WriteFile p v m w = (e, w')"
  shows "same_shape {p} w w' \<and> (node_at w p \<noteq> None \<longrightarrow> same_shape {} w w')"
  using assms
  by (auto simp: os_WriteFile_def write_existing_def create_in_def same_shape_def
      split: option.splits node.splits prod.splits if_splits)

section \<open>Loops that stop at the first error\<close>

fun for_each :: "('t \<Rightarrow> 's \<Rightarrow> goerror option \<times> 's) \<Rightarrow> 't list \<Rightarrow> 's \<Rightarrow> goerror option \<times> 's" where
  "for_each body [] s = (None, s)"
| "for_each body (t # ts) s =
     (case body t s of (Some err, s') \<Rightarrow> (Some err, s') | (None, s') \<Rightarrow> for_each body ts s')"

lemma for_each_idle: "\<forall>t \<in> set ts. body t s = (None, s) \<Longrightarrow> for_each body ts s = (None, s)"
  by (induction ts) auto

section \<open>Writing a knob\<close>

text \<open>
  \<open>settled ok p w\<close>: if the file can be read, its content passes the test of the resource.
  \<open>honest ok v n\<close>: what the kernel is relied on for, namely that a file which accepts the value \<open>v\<close>
  afterwards reads as something that passes the test.
\<close>

definition settled :: "(string \<Rightarrow> bool) \<Rightarrow> string \<Rightarrow> 'x world \<Rightarrow> bool" where
  "settled ok p w \<longleftrightarrow> (\<forall>c. os_ReadFile p w = Inr c \<longrightarrow> ok c)"

definition honest :: "(string \<Rightarrow> bool) \<Rightarrow> string \<Rightarrow> node option \<Rightarrow> bool" where
  "honest ok v n \<longleftrightarrow>
     (case n of
        Some (File f) \<Rightarrow>
          (case f_kind f of Regular opts \<Rightarrow> ok v | Knob h \<Rightarrow> \<forall>old c. h old v = (None, c) \<longrightarrow> ok c)
      | Some (Dir d) \<Rightarrow> True
      | None \<Rightarrow> ok v)"

lemma settled_cong: "node_at w' p = node_at w p \<Longrightarrow> settled ok p w' = settled ok p w"
  unfolding settled_def using os_ReadFile_cong[of w' p w] by simp

lemma settled_code: "settled ok p w = (case os_ReadFile p w of Inl e \<Rightarrow> True | Inr c \<Rightarrow> ok c)"
  by (auto simp: settled_def split: sum.splits)

lemma write_existing_honest:
  assumes "write_existing p v f w = (None, w')" "honest ok v (Some (File f))"
  shows "settled ok p w' \<and> honest ok v (node_at w' p)"
  using assms
  by (auto simp: write_existing_def write_trunc_def honest_def settled_def os_ReadFile_def
      split: option.splits prod.splits fkind.splits)

lemma os_WriteFile_honest:
  assumes "os_WriteFile p v m w = (None, w')" "honest ok v (node_at w p)"
  shows "settled ok p w' \<and> honest ok v (node_at w' p)"
proof (cases "node_at w p")
  case None
  with assms(1) obtain d where
    "write_existing p v (new_file d m) (set_node p (File (new_file d m)) w) = (None, w')"
    by (auto simp: os_WriteFile_def create_in_def split: option.splits node.splits prod.splits)
  moreover have "honest ok v (Some (File (new_file d m)))"
    using assms(2) None by (simp add: honest_def new_file_def)
  ultimately show ?thesis using write_existing_honest by blast
next
  case (Some n)
  with assms(1) obtain f where "n = File f" "write_existing p v f w = (None, w')"
    by (auto simp: os_WriteFile_def split: node.splits)
  with assms(2) Some show ?thesis by (intro write_existing_honest[of p v f w]) simp_all
qed

text \<open>
  The shape of one round of such a loop: the file is settled already and nothing is done, or the
  value is written and the round fails exactly when the write does.
\<close>

definition write_step :: "(string \<Rightarrow> bool) \<Rightarrow> string \<Rightarrow> string \<Rightarrow> 'x world \<Rightarrow> goerror option \<Rightarrow> 'x world \<Rightarrow> bool" where
  "write_step ok p v w e w' \<longleftrightarrow>
     w' = w \<and> e = None \<and> settled ok p w \<or>
     (\<exists>e' m. os_WriteFile p v m w = (e', w') \<and> (e' = None \<longleftrightarrow> e = None))"

lemma write_step_writes: "write_step ok p v w e w' \<Longrightarrow> only_writes {p} w w'"
  unfolding write_step_def using os_WriteFile_writes by blast

lemma write_step_shape:
  "write_step ok p v w e w' \<Longrightarrow> same_shape {p} w w' \<and> (node_at w p \<noteq> None \<longrightarrow> same_shape {} w w')"
  unfolding write_step_def using os_WriteFile_shape same_shape_refl by metis

lemma write_step_settles:
  "write_step ok p v w None w' \<Longrightarrow> honest ok v (node_at w p) \<Longrightarrow>
   settled ok p w' \<and> honest ok v (node_at w' p)"
  unfolding write_step_def using os_WriteFile_honest by metis

lemma honest_frame:
  "only_writes P w w' \<Longrightarrow> same_shape P w w' \<Longrightarrow> p \<notin> P \<Longrightarrow> honest ok v (node_at w p) \<Longrightarrow>
   honest ok v (node_at w' p)"
  by (simp add: only_writes_node)

lemmas write_step_laws = write_step_writes write_step_shape write_step_settles

section \<open>The contract\<close>

text \<open>
  A list of tasks, each with its file and the test its content has to pass. A step writes at most its
  own file; if it succeeds on a file that does what the kernel is relied on for (\<open>hon\<close>), the file is
  settled and can still be relied on.
\<close>

locale knob_steps =
  fixes step :: "'t \<Rightarrow> 'x world \<Rightarrow> goerror option \<times> 'x world"
    and path :: "'t \<Rightarrow> string" and good :: "'t \<Rightarrow> string \<Rightarrow> bool" and hon :: "'t \<Rightarrow> 'x world \<Rightarrow> bool"
  assumes step_writes: "step t w = (e, w') \<Longrightarrow> only_writes {path t} w w'"
    and step_shape: "step t w = (e, w') \<Longrightarrow>
      same_shape {path t} w w' \<and> (node_at w (path t) \<noteq> None \<longrightarrow> same_shape {} w w')"
    and step_settles: "step t w = (None, w') \<Longrightarrow> hon t w \<Longrightarrow>
      settled (good t) (path t) w' \<and> hon t w'"
    and hon_frame: "only_writes P w w' \<Longrightarrow> same_shape P w w' \<Longrightarrow> path t \<notin> P \<Longrightarrow> hon t w \<Longrightarrow> hon t w'"
begin

lemma loop_writes: "for_each step ts w = (e, w') \<Longrightarrow> only_writes (path ` set ts) w w'"
proof (induction ts arbitrary: w)
  case (Cons t ts)
  obtain e1 w1 where s: "step t w = (e1, w1)" by force
  have a: "only_writes (path ` set (t # ts)) w w1"
    using step_writes[OF s] by (rule only_writes_mono) simp
  show ?case
  proof (cases e1)
    case None
    with s Cons.prems have "for_each step ts w1 = (e, w')" by simp
    from Cons.IH[OF this] have "only_writes (path ` set (t # ts)) w1 w'"
      by (rule only_writes_mono) auto
    with a show ?thesis by (rule only_writes_trans)
  qed (use s Cons.prems a in simp)
qed simp

lemma loop_shape: "for_each step ts w = (e, w') \<Longrightarrow> same_shape (path ` set ts) w w'"
proof (induction ts arbitrary: w)
  case (Cons t ts)
  obtain e1 w1 where s: "step t w = (e1, w1)" by force
  have a: "same_shape (path ` set (t # ts)) w w1"
    by (rule same_shape_mono[OF conjunct1[OF step_shape[OF s]]]) simp
  show ?case
  proof (cases e1)
    case None
    with s Cons.prems have "for_each step ts w1 = (e, w')" by simp
    from Cons.IH[OF this] have "same_shape (path ` set (t # ts)) w1 w'"
      by (rule same_shape_mono) auto
    with a show ?thesis by (rule same_shape_trans)
  qed (use s Cons.prems a in simp)
qed simp

lemma loop_shape_existing:
  "for_each step ts w = (e, w') \<Longrightarrow> \<forall>t \<in> set ts. node_at w (path t) \<noteq> None \<Longrightarrow> same_shape {} w w'"
proof (induction ts arbitrary: w)
  case (Cons t ts)
  obtain e1 w1 where s: "step t w = (e1, w1)" by force
  have a: "same_shape {} w w1" using step_shape[OF s] Cons.prems(2) by simp
  show ?case
  proof (cases e1)
    case None
    have "\<forall>u \<in> set ts. node_at w1 (path u) \<noteq> None" using a Cons.prems(2) by (simp add: same_shape_def)
    with Cons.IH[of w1] None s Cons.prems(1) have "same_shape {} w1 w'" by simp
    with a show ?thesis by (rule same_shape_trans)
  qed (use s Cons.prems a in simp)
qed simp

text \<open>After a loop that succeeded on reliable files, every task is settled.\<close>

lemma loop_settles:
  assumes "for_each step ts w = (None, w')" "inj_on path (set ts)"
    and "\<forall>t \<in> set ts. hon t w"
  shows "\<forall>t \<in> set ts. settled (good t) (path t) w' \<and> hon t w'"
  using assms
proof (induction ts arbitrary: w)
  case (Cons t ts)
  from Cons.prems(1) obtain w1 where s: "step t w = (None, w1)" and rest: "for_each step ts w1 = (None, w')"
    by (auto split: prod.splits option.splits)
  from step_settles[OF s] Cons.prems(3)
  have t1: "settled (good t) (path t) w1" "hon t w1" by simp_all
  have h1: "hon u w1" if "u \<in> set ts" for u
  proof (cases "u = t")
    case True
    with t1 show ?thesis by simp
  next
    case False
    with that Cons.prems(2) have "path u \<notin> {path t}" using inj_onD[OF Cons.prems(2), of u t] by auto
    from hon_frame[OF step_writes[OF s] conjunct1[OF step_shape[OF s]] this] that Cons.prems(3)
    show ?thesis by simp
  qed
  have inj: "inj_on path (set ts)" using Cons.prems(2) by (simp add: inj_on_insert)
  have ih: "\<forall>t \<in> set ts. settled (good t) (path t) w' \<and> hon t w'"
    by (rule Cons.IH[OF rest inj]) (simp add: h1)
  show ?case
  proof (cases "t \<in> set ts")
    case True
    with ih show ?thesis by auto
  next
    case False
    with Cons.prems(2) have "path t \<notin> path ` set ts" by (auto simp: inj_on_def)
    then have "node_at w' (path t) = node_at w1 (path t)" "hon t w'"
      using only_writes_node[OF loop_writes[OF rest]] hon_frame[OF loop_writes[OF rest] loop_shape[OF rest]] t1(2)
      by simp_all
    with t1 ih show ?thesis by (simp add: settled_cong[of w' "path t" w1])
  qed
qed simp

end

end
