(* ===== verification/Nic_Resource.thy ===== *)
theory Nic_Resource
  imports Knobs
begin

text \<open>
  \<^verbatim>\<open>internal/resource/nictuning.go\<close>: ring buffers through \<^verbatim>\<open>ethtool\<close>, and the CPU masks of the receive and
  transmit queues. The masks are 32-bit words.
\<close>

unbundle bit_operations_syntax

record 'x NICResource =
  nic_Env :: Env
  nic_Runner :: "'x runner"
  nic_Interface :: string
  nic_NumCPUs :: int
  nic_RingBufferMax :: bool
  nic_RPS :: bool
  nic_XPS :: bool

section \<open>CPU masks\<close>

definition mask_word :: "int \<Rightarrow> 32 word" where
  "mask_word bits =
     (if 32 \<le> bits then 0xffffffff else if 0 < bits then push_bit (nat bits) 1 - 1 else 0)"

text \<open>The words of the loop, least significant first.\<close>

fun mask_words :: "nat \<Rightarrow> int \<Rightarrow> 32 word list" where
  "mask_words 0 remaining = []"
| "mask_words (Suc k) remaining =
     (let bits = min remaining 32 in mask_word bits # mask_words k (remaining - bits))"

definition cpumaskAll :: "int \<Rightarrow> string" where
  "cpumaskAll n =
     (let n = (if n \<le> 0 then 1 else n);
          numWords = go_quot (i64 (n + 31)) 32;
          ws = map fmt_08x (mask_words (nat numWords) n)
      in strings_Join (rev ws) '','')"

text \<open>
  Words are most significant first, so the index of a word is the number of words after it. A word
  that does not parse is passed over.
\<close>

fun mask_bits_loop :: "string list \<Rightarrow> nat list" where
  "mask_bits_loop [] = []"
| "mask_bits_loop (word # ws) =
     (case strconv_ParseUint16_32 word of
        None \<Rightarrow> []
      | Some v \<Rightarrow> map (\<lambda>b. length ws * 32 + b) (filter (\<lambda>b. odd (int v div 2 ^ b)) [0..<32]))
     @ mask_bits_loop ws"

definition parseCPUMaskBits :: "string \<Rightarrow> nat list" where
  "parseCPUMaskBits s = sort (mask_bits_loop (splitOn (CHR '','') (strings_TrimSpace s)))"

definition cpuMasksEqual :: "string \<Rightarrow> string \<Rightarrow> bool" where
  "cpuMasksEqual a b = (parseCPUMaskBits a = parseCPUMaskBits b)"

section \<open>Ring buffers\<close>

record ringParams =
  maxRX :: int
  maxTX :: int
  curRX :: int
  curTX :: int

text \<open>The regular expression \<^verbatim>\<open>^(RX|TX):\s+(\d+|n/a)\<close>: direction and value of a match.\<close>

definition re_space :: "char \<Rightarrow> bool" where
  "re_space c \<longleftrightarrow> c = CHR '' '' \<or> c = TAB \<or> c = NL \<or> c = CHR 0x0C \<or> c = CR"

definition ethtoolRingLineRe :: "string \<Rightarrow> (string \<times> string) option" where
  "ethtoolRingLineRe s =
     (if strings_HasPrefix s ''RX:'' \<or> strings_HasPrefix s ''TX:'' then
        (let rest = drop 3 s;
             rest' = dropWhile re_space rest;
             ds = takeWhile (\<lambda>c. dec_val c \<noteq> None) rest'
         in if takeWhile re_space rest = [] then None
            else if ds \<noteq> [] then Some (take 2 s, ds)
            else if strings_HasPrefix rest' ''n/a'' then Some (take 2 s, ''n/a'')
            else None)
      else None)"

definition ring_line :: "string \<Rightarrow> string \<times> ringParams \<Rightarrow> string \<times> ringParams" where
  "ring_line line st =
     (let (sect, rp) = st; trimmed = strings_TrimSpace line in
      if strings_HasPrefix trimmed ''Pre-set maximums'' then (''max'', rp)
      else if strings_HasPrefix trimmed ''Current hardware settings'' then (''current'', rp)
      else (case ethtoolRingLineRe trimmed of
              None \<Rightarrow> (sect, rp)
            | Some (dir, val) \<Rightarrow>
                (case strconv_Atoi val of
                   None \<Rightarrow> (sect, rp)
                 | Some v \<Rightarrow>
                     (sect,
                      if sect = ''max'' \<and> dir = ''RX'' then rp\<lparr>maxRX := v\<rparr>
                      else if sect = ''max'' \<and> dir = ''TX'' then rp\<lparr>maxTX := v\<rparr>
                      else if sect = ''current'' \<and> dir = ''RX'' then rp\<lparr>curRX := v\<rparr>
                      else if sect = ''current'' \<and> dir = ''TX'' then rp\<lparr>curTX := v\<rparr>
                      else rp))))"

definition parseEthtoolRingParams :: "string \<Rightarrow> ringParams" where
  "parseEthtoolRingParams output =
     snd (fold ring_line (splitOn NL output) ([], \<lparr>maxRX = 0, maxTX = 0, curRX = 0, curTX = 0\<rparr>))"

definition rx_low :: "ringParams \<Rightarrow> bool" where
  "rx_low rp \<longleftrightarrow> 0 < maxRX rp \<and> curRX rp < maxRX rp"

definition tx_low :: "ringParams \<Rightarrow> bool" where
  "tx_low rp \<longleftrightarrow> 0 < maxTX rp \<and> curTX rp < maxTX rp"

definition ringDrift :: "ringParams \<Rightarrow> string" where
  "ringDrift rp =
     (let drift = (if rx_low rp then [''rx '' @ strconv_Itoa (curRX rp) @ '' -> '' @ strconv_Itoa (maxRX rp)] else [])
              @ (if tx_low rp then [''tx '' @ strconv_Itoa (curTX rp) @ '' -> '' @ strconv_Itoa (maxTX rp)] else [])
      in if length drift = 0 then [] else ''ring buffers: '' @ strings_Join drift '', '')"

definition ringBufferDrift :: "'x NICResource \<Rightarrow> 'x world \<Rightarrow> (goerror + string) \<times> 'x world" where
  "ringBufferDrift r w =
     (case nic_Runner r ''ethtool'' [''-g'', nic_Interface r] w of
        ((out, Some err), w') \<Rightarrow> (Inl (Errorf (''ethtool -g '' @ nic_Interface r) err), w')
      | ((out, None), w') \<Rightarrow> (Inr (ringDrift (parseEthtoolRingParams out)), w'))"

definition ring_args :: "ringParams \<Rightarrow> string list" where
  "ring_args rp =
     (if rx_low rp then [''rx'', strconv_Itoa (maxRX rp)] else [])
     @ (if tx_low rp then [''tx'', strconv_Itoa (maxTX rp)] else [])"

definition applyRingBufferMax :: "'x NICResource \<Rightarrow> 'x world \<Rightarrow> goerror option \<times> 'x world" where
  "applyRingBufferMax r w =
     (case nic_Runner r ''ethtool'' [''-g'', nic_Interface r] w of
        ((out, Some err), w') \<Rightarrow> (None, w')
      | ((out, None), w') \<Rightarrow>
          (let args = ring_args (parseEthtoolRingParams out) in
           if length args = 0 then (None, w')
           else (case nic_Runner r ''ethtool'' ([''-G'', nic_Interface r] @ args) w' of
                   ((_, Some err), w'') \<Rightarrow> (Some (Errorf (''ethtool -G '' @ nic_Interface r) err), w'')
                 | ((_, None), w'') \<Rightarrow> (None, w''))))"

section \<open>Queues\<close>

definition queueDirs :: "'x NICResource \<Rightarrow> string \<Rightarrow> 'x world \<Rightarrow> goerror + string list" where
  "queueDirs r direction w =
     Inr (glob_level (map PChar direction @ [PChar (CHR ''-''), PStar]) w
           [Path (nic_Env r) [''sys'', ''class'', ''net'', nic_Interface r, ''queues'']])"

definition queue_drifted :: "'x NICResource \<Rightarrow> 'x world \<Rightarrow> string \<Rightarrow> bool" where
  "queue_drifted r w path =
     (case ReadFileString path w of
        Inl err \<Rightarrow> False
      | Inr cur \<Rightarrow> \<not> cpuMasksEqual cur (cpumaskAll (nic_NumCPUs r)))"

definition queueMaskDrift :: "'x NICResource \<Rightarrow> string \<Rightarrow> string \<Rightarrow> 'x world \<Rightarrow> goerror + string list" where
  "queueMaskDrift r direction attr w =
     (case queueDirs r direction w of
        Inl err \<Rightarrow> Inl err
      | Inr dirs \<Rightarrow> Inr (filter (queue_drifted r w) (map (\<lambda>dir. filepath_Join [dir, attr]) dirs)))"

definition queue_step :: "'x NICResource \<Rightarrow> string \<Rightarrow> string \<Rightarrow> 'x world \<Rightarrow> goerror option \<times> 'x world" where
  "queue_step r attr dir w =
     (let path = filepath_Join [dir, attr]; want = cpumaskAll (nic_NumCPUs r) in
      if (case ReadFileString path w of Inl err \<Rightarrow> False | Inr cur \<Rightarrow> cpuMasksEqual cur want) then (None, w)
      else (case os_WriteFile path want 420 w of
              (Some err, w') \<Rightarrow>
                if os_IsNotExist err then (None, w') else (Some (Errorf (''writing '' @ path) err), w')
            | (None, w') \<Rightarrow> (None, w')))"

definition applyQueueMask :: "'x NICResource \<Rightarrow> string \<Rightarrow> string \<Rightarrow> 'x world \<Rightarrow> goerror option \<times> 'x world" where
  "applyQueueMask r direction attr w =
     (case queueDirs r direction w of
        Inl err \<Rightarrow> (Some err, w)
      | Inr dirs \<Rightarrow> for_each (queue_step r attr) dirs w)"

section \<open>The resource\<close>

definition queue_detail :: "string \<Rightarrow> goerror + string list \<Rightarrow> string list" where
  "queue_detail attr d =
     (case d of
        Inl err \<Rightarrow> []
      | Inr qs \<Rightarrow> if 0 < length qs then [attr @ '' out of date on '' @ nat_str (length qs) @ '' queue(s)''] else [])"

definition NICResource_Check :: "'x NICResource \<Rightarrow> 'x world \<Rightarrow> (Result \<times> goerror option) \<times> 'x world" where
  "NICResource_Check r w =
     (if nic_Interface r = [] then ((mkResult ''nic-tuning'' StatusSkipped ''no interface detected'', None), w)
      else
        (let (ring, w1) = (if nic_RingBufferMax r
                           then (let (d, w1) = ringBufferDrift r w
                                 in ((case d of Inl err \<Rightarrow> [] | Inr s \<Rightarrow> if s \<noteq> [] then [s] else []), w1))
                           else ([], w));
             rps = (if nic_RPS r \<and> 1 < nic_NumCPUs r then queue_detail ''rps_cpus'' (queueMaskDrift r ''rx'' ''rps_cpus'' w1) else []);
             xps = (if nic_XPS r \<and> 1 < nic_NumCPUs r then queue_detail ''xps_cpus'' (queueMaskDrift r ''tx'' ''xps_cpus'' w1) else []);
             drift = ring @ rps @ xps
         in if length drift = 0 then ((mkResult ''nic-tuning'' StatusUnchanged [], None), w1)
            else ((mkResult ''nic-tuning'' StatusWouldChange (strings_Join drift ''; ''), None), w1)))"

definition NICResource_Apply :: "'x NICResource \<Rightarrow> 'x world \<Rightarrow> goerror option \<times> 'x world" where
  "NICResource_Apply r w =
     (if nic_Interface r = [] then (None, w)
      else
        (case (if nic_RingBufferMax r then applyRingBufferMax r w else (None, w)) of
           (Some err, w1) \<Rightarrow> (Some err, w1)
         | (None, w1) \<Rightarrow>
             (case (if nic_RPS r \<and> 1 < nic_NumCPUs r then applyQueueMask r ''rx'' ''rps_cpus'' w1 else (None, w1)) of
                (Some err, w2) \<Rightarrow> (Some err, w2)
              | (None, w2) \<Rightarrow>
                  (if nic_XPS r \<and> 1 < nic_NumCPUs r then applyQueueMask r ''tx'' ''xps_cpus'' w2 else (None, w2)))))"

definition nicResource :: "'x NICResource \<Rightarrow> 'x world Resource" where
  "nicResource r =
     \<lparr>res_Name = ''nic-tuning'', res_Check = NICResource_Check r, res_Apply = NICResource_Apply r\<rparr>"

section \<open>Laws of masks\<close>

lemma mask_word_mask: "mask_word bits = (if 32 \<le> bits then mask 32 else mask (nat bits))"
  by (auto simp: mask_word_def mask_eq_exp_minus_1)

lemma bit_mask_word: "b < 32 \<Longrightarrow> bit (mask_word bits) b \<longleftrightarrow> int b < bits"
  unfolding mask_word_mask by (simp add: bit_mask_iff del: mask_numeral) linarith

lemma length_mask_words [simp]: "length (mask_words k n) = k"
  by (induction k arbitrary: n) (simp_all add: Let_def)

lemma mask_words_bit: "j < k \<Longrightarrow> b < 32 \<Longrightarrow> bit (mask_words k n ! j) b \<longleftrightarrow> int (32 * j + b) < n"
proof (induction k arbitrary: j n)
  case (Suc k)
  show ?case
  proof (cases j)
    case 0
    with Suc.prems show ?thesis by (auto simp: Let_def bit_mask_word)
  next
    case (Suc i)
    with Suc.IH[of i "n - min n 32"] Suc.prems have
      "bit (mask_words (Suc k) n ! j) b \<longleftrightarrow> int (32 * i + b) < n - min n 32" by (simp add: Let_def)
    with Suc show ?thesis by (auto simp: min_def)
  qed
qed simp

text \<open>A mask as the kernel prints it, and the CPUs in it.\<close>

definition render_mask :: "32 word list \<Rightarrow> string" where
  "render_mask ws = strings_Join (map fmt_08x ws) '',''"

definition mask_cpus :: "32 word list \<Rightarrow> nat list" where
  "mask_cpus ws = filter (\<lambda>b. bit (rev ws ! (b div 32)) (b mod 32)) [0..<32 * length ws]"

lemma odd_uint_bit: "odd (uint (w :: 32 word) div 2 ^ b) \<longleftrightarrow> bit w b"
proof -
  have "bit (uint w) b \<longleftrightarrow> bit w b" by (simp add: bit_unsigned_iff)
  then show ?thesis by (simp only: bit_iff_odd)
qed

definition mask_set :: "32 word list \<Rightarrow> nat set" where
  "mask_set ws = {k. k < 32 * length ws \<and> bit (rev ws ! (k div 32)) (k mod 32)}"

lemma mask_set_Cons:
  "mask_set (w # ws) = mask_set ws \<union> (\<lambda>b. length ws * 32 + b) ` {b. b < 32 \<and> bit w b}"
proof (rule set_eqI)
  fix k
  have d: "k div 32 < length ws \<longleftrightarrow> k < 32 * length ws" by (simp add: less_mult_imp_div_less div_less_iff_less_mult mult.commute)
  show "k \<in> mask_set (w # ws) \<longleftrightarrow> k \<in> mask_set ws \<union> (\<lambda>b. length ws * 32 + b) ` {b. b < 32 \<and> bit w b}"
  proof (cases "k < 32 * length ws")
    case True
    with d show ?thesis by (auto simp: mask_set_def nth_append)
  next
    case False
    then obtain b where k: "k = length ws * 32 + b" by (metis add.commute le_iff_add mult.commute not_less)
    then have "k \<in> mask_set (w # ws) \<longleftrightarrow> b < 32 \<and> bit w b"
      by (auto simp: mask_set_def nth_append)
    with k False show ?thesis by (auto simp: mask_set_def)
  qed
qed

lemma mask_bits_loop_set: "set (mask_bits_loop (map fmt_08x ws)) = mask_set ws"
proof (induction ws)
  case Nil
  then show ?case by (simp add: mask_set_def)
next
  case (Cons w ws)
  then show ?case by (auto simp: mask_set_Cons odd_uint_bit)
qed

lemma mask_bits_loop_distinct: "distinct (mask_bits_loop (map fmt_08x ws))"
proof (induction ws)
  case (Cons w ws)
  have "length ws * 32 + b \<notin> set (mask_bits_loop (map fmt_08x ws))" for b
    by (simp add: mask_bits_loop_set mask_set_def)
  with Cons show ?case by (auto simp: distinct_map inj_on_def)
qed simp

lemma fmt_08x_no_comma: "CHR '','' \<notin> set (fmt_08x w)"
  using hex_digits_graphic[of 8 "unat w"] by (auto simp: fmt_08x_def)

lemma render_mask_graphic: "\<forall>c \<in> set (render_mask ws). graphic c"
proof -
  have "graphic (CHR '','')" by (simp add: graphic_def)
  moreover have "c = CHR '','' \<or> (\<exists>w. c \<in> set (fmt_08x w))" if "c \<in> set (render_mask ws)" for c
    using that set_Join[of "map fmt_08x ws" "'',''"] by (auto simp: render_mask_def)
  ultimately show ?thesis
    using hex_digits_graphic[of 8] by (metis fmt_08x_def)
qed

lemma TrimSpace_graphic_NL:
  assumes "\<forall>c \<in> set s. graphic c" "s \<noteq> []"
  shows "strings_TrimSpace (s @ [NL]) = s"
proof -
  from assms have "trimL (s @ [NL]) = s @ [NL]"
    by (cases s) (simp_all add: trimL.simps graphic_ws_len)
  moreover have "trimR (NL # rev s) = trimR (rev s)"
    by (subst trimR.simps) (simp add: ws_rlen.simps)
  ultimately show ?thesis using assms(1) by (simp add: strings_TrimSpace_def graphic_trimR)
qed

lemma render_mask_neq_Nil: "ws \<noteq> [] \<Longrightarrow> render_mask ws \<noteq> []"
proof -
  have "fmt_08x w \<noteq> []" for w
    unfolding fmt_08x_def by (metis length_hex_digits list.size(3) zero_neq_numeral)
  then show "ws \<noteq> [] \<Longrightarrow> render_mask ws \<noteq> []" by (cases ws rule: remdups_adj.cases) (simp_all add: render_mask_def)
qed

lemma sort_mask_bits: "sort (mask_bits_loop (map fmt_08x ws)) = mask_cpus ws"
proof (rule sorted_list_of_distinct_eq)
  show "set (sort (mask_bits_loop (map fmt_08x ws))) = set (mask_cpus ws)"
    by (auto simp: mask_bits_loop_set mask_set_def mask_cpus_def)
qed (simp_all add: mask_bits_loop_distinct mask_cpus_def sorted_wrt_filter)

lemma parseCPUMaskBits_render:
  assumes "ws \<noteq> []"
  shows "parseCPUMaskBits (render_mask ws) = mask_cpus ws" "parseCPUMaskBits (render_mask ws @ [NL]) = mask_cpus ws"
proof -
  have "splitOn (CHR '','') (render_mask ws) = map fmt_08x ws"
    unfolding render_mask_def using assms by (intro splitOn_Join) (auto simp: fmt_08x_no_comma)
  then show "parseCPUMaskBits (render_mask ws) = mask_cpus ws" "parseCPUMaskBits (render_mask ws @ [NL]) = mask_cpus ws"
    using assms render_mask_graphic[of ws]
    by (simp_all add: parseCPUMaskBits_def TrimSpace_graphic TrimSpace_graphic_NL render_mask_neq_Nil sort_mask_bits)
qed

lemma cpumaskAll_render:
  assumes "0 < n" "n + 31 < 2 ^ 63"
  defines "k \<equiv> nat ((n + 31) div 32)"
  shows "cpumaskAll n = render_mask (rev (mask_words k n)) \<and> n \<le> 32 * int k \<and> 0 < k"
proof -
  have "in_i64 (n + 31)" using assms(1,2) by (simp add: in_i64_def)
  then have "cpumaskAll n = render_mask (rev (mask_words k n))"
    using assms(1) by (simp add: cpumaskAll_def render_mask_def k_def go_quot_nonneg rev_map)
  moreover have "n \<le> 32 * int k" "0 < k" using assms(1) unfolding k_def by auto
  ultimately show ?thesis by simp
qed

lemma parseCPUMaskBits_all:
  assumes "0 < n" "n + 31 < 2 ^ 63"
  shows "parseCPUMaskBits (cpumaskAll n) = [0..<nat n]"
proof -
  define k where "k = nat ((n + 31) div 32)"
  note r = cpumaskAll_render[OF assms, folded k_def]
  have "bit (mask_words k n ! (b div 32)) (b mod 32) \<longleftrightarrow> b < nat n" if "b < 32 * k" for b
  proof -
    have "b div 32 < k" using that by (simp add: less_mult_imp_div_less mult.commute)
    from mask_words_bit[OF this, of "b mod 32" n] show ?thesis by auto
  qed
  then have "mask_cpus (rev (mask_words k n)) = filter (\<lambda>b. b < nat n) [0..<32 * k]"
    unfolding mask_cpus_def by (intro filter_cong) simp_all
  also have "\<dots> = [0..<nat n]"
    using r by (intro sorted_list_of_distinct_eq) (auto simp: sorted_wrt_filter)
  finally have "mask_cpus (rev (mask_words k n)) = [0..<nat n]" .
  moreover have "rev (mask_words k n) \<noteq> []" using r by (metis length_mask_words length_rev less_nat_zero_code list.size(3))
  ultimately show ?thesis using r parseCPUMaskBits_render(1) by simp
qed

section \<open>Queue paths\<close>

lemma glob_match_lit: "glob_match (map PChar u @ ps) s \<longleftrightarrow> (\<exists>t. s = u @ t \<and> glob_match ps t)"
proof (induction u arbitrary: s)
  case (Cons a u)
  then show ?case by (cases s) auto
qed simp

lemma clean_render:
  assumes "\<forall>c \<in> set cs. plain_comp c"
  shows "clean_comps True (splitOn (CHR ''/'') (render_path True cs)) = cs"
proof -
  have "splitOn (CHR ''/'') (render_path True cs) = [] # (if cs = [] then [[]] else cs)"
    using assms by (auto simp: render_path_def splitOn_Join plain_comp_no_slash)
  then have "filter (\<lambda>c. c \<noteq> []) (splitOn (CHR ''/'') (render_path True cs)) = cs"
    using assms by (auto simp: plain_comp_def intro!: filter_True)
  then have "clean_comps True (splitOn (CHR ''/'') (render_path True cs)) = clean_comps True ([] @ cs)"
    by (metis append_Nil clean_comps_skip_empty)
  also have "\<dots> = cs" using assms by (subst clean_comps_append_plain) (simp_all add: clean_comps_def)
  finally show ?thesis .
qed

lemma Path_rooted:
  "rooted (env_root e) \<Longrightarrow> \<forall>c \<in> set cs. plain_comp c \<Longrightarrow> Path e cs = render_path True (root_comps e @ cs)"
  by (simp add: Path_plain)

lemma Path_Join:
  assumes "rooted (env_root e)" "\<forall>c \<in> set cs. plain_comp c" "plain_comp n"
  shows "filepath_Join [Path e cs, n] = Path e (cs @ [n])"
proof -
  let ?p = "render_path True (root_comps e @ cs)"
  have pl: "\<forall>c \<in> set (root_comps e @ cs). plain_comp c"
    using assms(2) root_comps_plain[OF assms(1)] by auto
  have "?p \<noteq> []" "rooted ?p" by (simp_all add: render_path_def rooted_def)
  with filepath_Join_plain[of ?p "[n]"] assms(3) clean_render[OF pl]
  have "filepath_Join [?p, n] = render_path True ((root_comps e @ cs) @ [n])" by simp
  then show ?thesis using assms by (simp add: Path_rooted)
qed

lemma Path_snoc:
  assumes "rooted (env_root e)" "\<forall>c \<in> set cs. plain_comp c" "plain_comp n" "cs \<noteq> []"
  shows "Path e (cs @ [n]) = Path e cs @ ''/'' @ n"
  using assms strings_Join_append[of "root_comps e @ cs" "[n]" "''/''"]
  by (simp add: Path_rooted render_path_def)

lemma Path_not_root:
  assumes "rooted (env_root e)" "\<forall>c \<in> set cs. plain_comp c" "cs \<noteq> []"
  shows "Path e cs \<noteq> ''/''"
proof
  assume "Path e cs = ''/''"
  then have "render_path True (root_comps e @ cs) = render_path True []"
    using assms by (simp add: Path_rooted) (simp add: render_path_def)
  moreover have "\<forall>c \<in> set (root_comps e @ cs). comp_ok c"
    using assms(2) root_comps_plain[OF assms(1)] by (auto intro: plain_comp_ok)
  ultimately have "root_comps e @ cs = []" by (intro render_path_inj) simp_all
  with assms(3) show False by simp
qed

lemma child_name_deep:
  assumes "rooted (env_root e)" "\<forall>c \<in> set (cs @ [n, a]). plain_comp c" "cs \<noteq> []"
  shows "child_name (Path e cs) (Path e (cs @ [n, a])) = None"
proof (rule ccontr)
  assume "child_name (Path e cs) (Path e (cs @ [n, a])) \<noteq> None"
  then obtain r where r: "child_name (Path e cs) (Path e (cs @ [n, a])) = Some r" by blast
  have "Path e cs \<noteq> ''/''" using assms by (intro Path_not_root) auto
  with child_name_eq[OF r] have "Path e (cs @ [n, a]) = Path e cs @ ''/'' @ r" by simp
  moreover have "Path e (cs @ [n, a]) = Path e cs @ ''/'' @ n @ ''/'' @ a"
    using assms Path_snoc[of e "cs @ [n]" a] Path_snoc[of e cs n] by simp
  ultimately have "CHR ''/'' \<in> set r" by auto
  moreover have "CHR ''/'' \<notin> set r" using r by (auto simp: child_name_def Let_def split: if_splits)
  ultimately show False by simp
qed

definition queues_at :: "'x NICResource \<Rightarrow> string list" where
  "queues_at r = [''sys'', ''class'', ''net'', nic_Interface r, ''queues'']"

definition nic_rooted :: "'x NICResource \<Rightarrow> bool" where
  "nic_rooted r \<longleftrightarrow> rooted (env_root (nic_Env r)) \<and> plain_comp (nic_Interface r)"

lemma queues_at_plain: "nic_rooted r \<Longrightarrow> \<forall>c \<in> set (queues_at r). plain_comp c"
  by (simp add: queues_at_def nic_rooted_def plain_comp_def)

definition plain_dirn :: "string \<Rightarrow> bool" where
  "plain_dirn d \<longleftrightarrow> d \<noteq> [] \<and> hd d \<noteq> CHR ''.''"

lemma queueDirs_form:
  assumes "nic_rooted r" "plain_dirn direction" "queueDirs r direction w = Inr dirs" "d \<in> set dirs"
  shows "\<exists>n. plain_comp n \<and> d = Path (nic_Env r) (queues_at r @ [n])"
proof -
  let ?q = "Path (nic_Env r) (queues_at r)"
  from assms(3,4) obtain n where n: "n \<in> set (child_names w ?q)" "d = filepath_Join [?q, n]"
    "glob_match (map PChar direction @ [PChar (CHR ''-''), PStar]) n"
    by (auto simp: queueDirs_def queues_at_def glob_level_def glob_dir_def split: option.splits node.splits)
  from n(1) have "CHR ''/'' \<notin> set n" "n \<noteq> []"
    by (auto simp: set_child_names child_name_def Let_def split: if_splits)
  moreover have "hd n \<noteq> CHR ''.''"
    using n(3) assms(2) unfolding glob_match_lit by (auto simp: plain_dirn_def)
  ultimately have "plain_comp n" by (auto simp: plain_comp_def)
  with n(2) Path_Join[of "nic_Env r" "queues_at r" n] queues_at_plain[OF assms(1)] assms(1) show ?thesis
    by (auto simp: nic_rooted_def)
qed

abbreviation queue_path :: "string \<Rightarrow> string \<Rightarrow> string" where
  "queue_path attr dir \<equiv> filepath_Join [dir, attr]"

lemma queue_path_form:
  assumes "nic_rooted r" "plain_dirn direction" "queueDirs r direction w = Inr dirs" "d \<in> set dirs" "plain_comp attr"
  shows "\<exists>n. plain_comp n \<and> d = Path (nic_Env r) (queues_at r @ [n]) \<and>
    queue_path attr d = Path (nic_Env r) (queues_at r @ [n, attr])"
  using queueDirs_form[OF assms(1-4)] Path_Join[of "nic_Env r" "queues_at r @ [n]" attr for n]
    queues_at_plain[OF assms(1)] assms(1,5)
  by (auto simp: nic_rooted_def)

lemma queue_path_inj:
  assumes "nic_rooted r" "plain_dirn direction" "queueDirs r direction w = Inr dirs" "plain_comp attr"
  shows "inj_on (queue_path attr) (set dirs)"
proof (rule inj_onI)
  fix d d'
  assume d: "d \<in> set dirs" "d' \<in> set dirs" "queue_path attr d = queue_path attr d'"
  from queue_path_form[OF assms(1-3) d(1) assms(4)] queue_path_form[OF assms(1-3) d(2) assms(4)]
  obtain n n' where n: "plain_comp n" "d = Path (nic_Env r) (queues_at r @ [n])"
      "queue_path attr d = Path (nic_Env r) (queues_at r @ [n, attr])"
    and n': "plain_comp n'" "d' = Path (nic_Env r) (queues_at r @ [n'])"
      "queue_path attr d' = Path (nic_Env r) (queues_at r @ [n', attr])" by blast
  have "queues_at r @ [n, attr] = queues_at r @ [n', attr]"
    by (rule Path_inj[of _ _ "nic_Env r"]) (use n n' d(3) queues_at_plain[OF assms(1)] assms(4) in auto)
  with n(2) n'(2) show "d = d'" by simp
qed

lemma queue_paths_apart:
  assumes r: "nic_rooted r" and a: "plain_comp attr" "plain_comp attr'" "attr \<noteq> attr'"
    and d: "plain_dirn direction" "queueDirs r direction w = Inr dirs" "x \<in> set dirs"
    and d': "plain_dirn direction'" "queueDirs r direction' w' = Inr dirs'"
  shows "queue_path attr x \<notin> queue_path attr' ` set dirs'"
proof
  assume "queue_path attr x \<in> queue_path attr' ` set dirs'"
  then obtain y where y: "y \<in> set dirs'" "queue_path attr x = queue_path attr' y" by blast
  obtain n n' where n: "plain_comp n" "queue_path attr x = Path (nic_Env r) (queues_at r @ [n, attr])"
    and n': "plain_comp n'" "queue_path attr' y = Path (nic_Env r) (queues_at r @ [n', attr'])"
    using queue_path_form[OF r d a(1)] queue_path_form[OF r d' y(1) a(2)] by blast
  have "queues_at r @ [n, attr] = queues_at r @ [n', attr']"
    by (rule Path_inj[of _ _ "nic_Env r"]) (use n n' y(2) queues_at_plain[OF r] a in auto)
  with a(3) show False by simp
qed

text \<open>Writing queue attributes does not change which queues there are.\<close>

lemma queueDirs_shape:
  assumes r: "nic_rooted r" and a: "plain_comp attr"
    and d: "plain_dirn direction" "queueDirs r direction w = Inr dirs"
    and sh: "same_shape (queue_path attr ` set dirs) w w'"
  shows "queueDirs r direction' w' = queueDirs r direction' w"
proof -
  have none: "child_name (Path (nic_Env r) (queues_at r)) q = None" if q: "q \<in> queue_path attr ` set dirs" for q
  proof -
    from q obtain x where x: "x \<in> set dirs" "q = queue_path attr x" by blast
    from queue_path_form[OF r d x(1) a] obtain n where
      n: "plain_comp n" "queue_path attr x = Path (nic_Env r) (queues_at r @ [n, attr])" by blast
    have ne: "queues_at r \<noteq> []" by (simp add: queues_at_def)
    have pl: "\<forall>c \<in> set (queues_at r @ [n, attr]). plain_comp c" using queues_at_plain[OF r] n(1) a by auto
    from r have "rooted (env_root (nic_Env r))" by (simp add: nic_rooted_def)
    from child_name_deep[OF this pl ne] n(2) x(2) show ?thesis by simp
  qed
  then have "glob_level ps w' [Path (nic_Env r) (queues_at r)] = glob_level ps w [Path (nic_Env r) (queues_at r)]" for ps
    by (intro glob_level_shape[OF sh]) simp
  then show ?thesis by (simp add: queueDirs_def queues_at_def)
qed

section \<open>Queue masks\<close>

definition mask_fine :: "'x NICResource \<Rightarrow> string \<Rightarrow> bool" where
  "mask_fine r c \<longleftrightarrow> cpuMasksEqual c (cpumaskAll (nic_NumCPUs r))"

text \<open>
  What the kernel is relied on for: a queue attribute that accepts a mask reads back as the same set
  of CPUs; writing an attribute that exists does not fail with \<^verbatim>\<open>ENOENT\<close>; and in a queue directory no
  attribute can be created.
\<close>

definition no_enoent :: "string \<Rightarrow> node option \<Rightarrow> bool" where
  "no_enoent v n \<longleftrightarrow>
     (case n of
        Some (File f) \<Rightarrow> f_locked f \<noteq> Some ENOENT \<and>
          (case f_kind f of
             Regular opts \<Rightarrow> o_write_err opts \<noteq> Some ENOENT \<and> o_close_err opts \<noteq> Some ENOENT
           | Knob h \<Rightarrow> \<forall>old. fst (h old v) \<noteq> Some ENOENT)
      | _ \<Rightarrow> True)"

definition queue_honest :: "'x NICResource \<Rightarrow> string \<Rightarrow> string \<Rightarrow> 'y world \<Rightarrow> bool" where
  "queue_honest r attr dir w \<longleftrightarrow>
     honest (mask_fine r) (cpumaskAll (nic_NumCPUs r)) (node_at w (queue_path attr dir)) \<and>
     no_enoent (cpumaskAll (nic_NumCPUs r)) (node_at w (queue_path attr dir)) \<and>
     (\<forall>d. node_at w (queue_path attr dir) = None \<longrightarrow>
        node_at w (filepath_Dir (queue_path attr dir)) = Some (Dir d) \<longrightarrow> d_creat_err d \<noteq> None)"

lemma queue_step_cases:
  assumes "queue_step r attr dir w = (e, w')"
  shows "w' = w \<and> e = None \<and> settled (mask_fine r) (queue_path attr dir) w \<or>
    (\<exists>e'. os_WriteFile (queue_path attr dir) (cpumaskAll (nic_NumCPUs r)) 420 w = (e', w') \<and>
      (e = None \<longleftrightarrow> e' = None \<or> (\<exists>x. e' = Some x \<and> os_IsNotExist x)))"
  using assms
  by (auto simp: queue_step_def Let_def ReadFileString_def settled_def mask_fine_def
      split: sum.splits if_splits prod.splits option.splits)

lemma write_existing_no_enoent:
  assumes "write_existing p v f w = (Some x, w')" "os_IsNotExist x" "no_enoent v (Some (File f))"
  shows False
  using assms
  by (auto simp: write_existing_def write_trunc_def no_enoent_def Let_def
      split: option.splits prod.splits fkind.splits) (metis fst_conv)+

lemma write_existing_keeps_no_enoent:
  assumes "write_existing p v f w = (e, w')" "no_enoent v (Some (File f))" "node_at w p = Some (File f)"
  shows "no_enoent v (node_at w' p) \<and> node_at w' p \<noteq> None"
  using assms
  by (auto simp: write_existing_def write_trunc_def no_enoent_def Let_def
      split: option.splits prod.splits fkind.splits)

lemma queue_step_settles:
  assumes s: "queue_step r attr dir w = (None, w')" and h: "queue_honest r attr dir w"
  shows "settled (mask_fine r) (queue_path attr dir) w' \<and> queue_honest r attr dir w'"
proof -
  let ?p = "queue_path attr dir" and ?v = "cpumaskAll (nic_NumCPUs r)"
  from queue_step_cases[OF s] show ?thesis
  proof
    assume "w' = w \<and> None = None \<and> settled (mask_fine r) ?p w"
    with h show ?thesis by simp
  next
    assume "\<exists>e'. os_WriteFile ?p ?v 420 w = (e', w') \<and>
      (None = None \<longleftrightarrow> e' = None \<or> (\<exists>x. e' = Some x \<and> os_IsNotExist x))"
    then obtain e' where wr: "os_WriteFile ?p ?v 420 w = (e', w')"
      and e': "e' = None \<or> (\<exists>x. e' = Some x \<and> os_IsNotExist x)" by auto
    show ?thesis
    proof (cases "node_at w ?p")
      case None
      with h wr have "w' = w"
        by (auto simp: queue_honest_def os_WriteFile_def create_in_def split: option.splits node.splits)
      with h None show ?thesis by (simp add: settled_def os_ReadFile_def)
    next
      case (Some n)
      with wr e' obtain f where f: "n = File f" "write_existing ?p ?v f w = (e', w')"
        by (auto simp: os_WriteFile_def split: node.splits)
      have ne: "no_enoent ?v (Some (File f))" using h Some f(1) by (simp add: queue_honest_def)
      have "e' = None"
        using e' write_existing_no_enoent[OF _ _ ne] f(2) by blast
      with f(2) write_existing_honest[of ?p ?v f w w' "mask_fine r"] h Some f(1)
        write_existing_keeps_no_enoent[OF f(2) ne]
      show ?thesis by (auto simp: queue_honest_def)
    qed
  qed
qed

interpretation queue: knob_steps "queue_step r attr" "queue_path attr" "\<lambda>dir. mask_fine r" "queue_honest r attr"
  for r :: "'x NICResource" and attr
proof unfold_locales
  fix dir w e and w' :: "'x world"
  assume "queue_step r attr dir w = (e, w')"
  note c = queue_step_cases[OF this]
  show "only_writes {queue_path attr dir} w w'"
    using c os_WriteFile_writes[of "queue_path attr dir" _ 420 w _ w'] by blast
  show "same_shape {queue_path attr dir} w w' \<and>
      (node_at w (queue_path attr dir) \<noteq> None \<longrightarrow> same_shape {} w w')"
    using c os_WriteFile_shape[of "queue_path attr dir" _ 420 w _ w'] by blast
next
  fix dir w and w' :: "'x world"
  assume "queue_step r attr dir w = (None, w')" "queue_honest r attr dir w"
  then show "settled (mask_fine r) (queue_path attr dir) w' \<and> queue_honest r attr dir w'"
    by (rule queue_step_settles)
next
  fix P w dir and w' :: "'x world"
  assume w: "only_writes P w w'" "same_shape P w w'" "queue_path attr dir \<notin> P" "queue_honest r attr dir w"
  then show "queue_honest r attr dir w'"
    by (simp add: queue_honest_def only_writes_node[OF w(1)] same_shape_def)
qed

section \<open>Convergence\<close>

text \<open>
  What \<^verbatim>\<open>ethtool\<close> is relied on for: asking changes nothing and depends on the device only; a successful
  \<^verbatim>\<open>ethtool -G\<close> with the arguments asked for sets exactly those directions, leaves the maximums, and
  writes no file.
\<close>

definition ring_raised :: "ringParams \<Rightarrow> ringParams" where
  "ring_raised rp = rp\<lparr>curRX := (if rx_low rp then maxRX rp else curRX rp),
                       curTX := (if tx_low rp then maxTX rp else curTX rp)\<rparr>"

abbreviation ethtool_g :: "'x NICResource \<Rightarrow> 'x world \<Rightarrow> (string \<times> goerror option) \<times> 'x world" where
  "ethtool_g r w \<equiv> nic_Runner r ''ethtool'' [''-g'', nic_Interface r] w"

definition ethtool_reads :: "'x NICResource \<Rightarrow> bool" where
  "ethtool_reads r \<longleftrightarrow>
     (\<forall>w. snd (ethtool_g r w) = w) \<and>
     (\<forall>w w'. w_ext w' = w_ext w \<longrightarrow> fst (ethtool_g r w') = fst (ethtool_g r w))"

definition ethtool_sets :: "'x NICResource \<Rightarrow> bool" where
  "ethtool_sets r \<longleftrightarrow>
     (\<forall>w out res w'. fst (ethtool_g r w) = (out, None) \<longrightarrow>
        nic_Runner r ''ethtool'' ([''-G'', nic_Interface r] @ ring_args (parseEthtoolRingParams out)) w = ((res, None), w') \<longrightarrow>
        w_fs w' = w_fs w \<and>
        (\<exists>out'. fst (ethtool_g r w') = (out', None) \<and>
           parseEthtoolRingParams out' = ring_raised (parseEthtoolRingParams out)))"

definition queues_honest :: "'x NICResource \<Rightarrow> string \<Rightarrow> string \<Rightarrow> 'x world \<Rightarrow> bool" where
  "queues_honest r direction attr w \<longleftrightarrow>
     (\<forall>dirs. queueDirs r direction w = Inr dirs \<longrightarrow> (\<forall>d \<in> set dirs. queue_honest r attr d w))"

definition nic_reliable :: "'x NICResource \<Rightarrow> 'x world \<Rightarrow> bool" where
  "nic_reliable r w \<longleftrightarrow>
     nic_rooted r \<and> ethtool_reads r \<and> ethtool_sets r \<and>
     queues_honest r ''rx'' ''rps_cpus'' w \<and> queues_honest r ''tx'' ''xps_cpus'' w"

definition ring_quiet :: "'x NICResource \<Rightarrow> 'x world \<Rightarrow> bool" where
  "ring_quiet r w \<longleftrightarrow> (case fst (ethtool_g r w) of (out, Some e) \<Rightarrow> True | (out, None) \<Rightarrow> ringDrift (parseEthtoolRingParams out) = [])"

definition queues_settled :: "'x NICResource \<Rightarrow> string \<Rightarrow> string \<Rightarrow> 'x world \<Rightarrow> bool" where
  "queues_settled r direction attr w \<longleftrightarrow>
     (\<forall>dirs. queueDirs r direction w = Inr dirs \<longrightarrow> (\<forall>d \<in> set dirs. settled (mask_fine r) (queue_path attr d) w))"

lemma ring_args_Nil: "ring_args rp = [] \<longleftrightarrow> ringDrift rp = []"
  by (simp add: ring_args_def ringDrift_def Let_def)

lemma ringDrift_raised: "ringDrift (ring_raised rp) = []"
  by (simp add: ringDrift_def ring_raised_def rx_low_def tx_low_def)

lemma applyRingBufferMax_quiet:
  assumes ap: "applyRingBufferMax r w = (None, w')" and rd: "ethtool_reads r" and st: "ethtool_sets r"
  shows "ring_quiet r w' \<and> w_fs w' = w_fs w"
proof -
  obtain out e w1 where g: "ethtool_g r w = ((out, e), w1)" by (metis prod.exhaust)
  with rd have w1: "w1 = w" by (metis ethtool_reads_def snd_conv)
  show ?thesis
  proof (cases e)
    case (Some err)
    with ap g w1 have "w' = w" by (simp add: applyRingBufferMax_def)
    with g Some show ?thesis by (simp add: ring_quiet_def)
  next
    case None
    let ?rp = "parseEthtoolRingParams out"
    show ?thesis
    proof (cases "ring_args ?rp = []")
      case True
      with ap g w1 None have "w' = w" by (simp add: applyRingBufferMax_def)
      with g None True show ?thesis by (simp add: ring_quiet_def ring_args_Nil)
    next
      case False
      with ap g w1 None obtain res where
        "nic_Runner r ''ethtool'' ([''-G'', nic_Interface r] @ ring_args ?rp) w = ((res, None), w')"
        by (auto simp: applyRingBufferMax_def Let_def split: prod.splits option.splits)
      moreover have "fst (ethtool_g r w) = (out, None)" using g None by simp
      ultimately obtain out' where "w_fs w' = w_fs w" "fst (ethtool_g r w') = (out', None)"
        "parseEthtoolRingParams out' = ring_raised ?rp"
        using st[unfolded ethtool_sets_def] by blast
      then show ?thesis by (simp add: ring_quiet_def ringDrift_raised)
    qed
  qed
qed

lemma queue_drifted_settled: "queue_drifted r w p \<longleftrightarrow> \<not> settled (mask_fine r) p w"
  by (auto simp: queue_drifted_def settled_def ReadFileString_def mask_fine_def split: sum.splits)

lemma queue_detail_settled:
  "queue_detail x (queueMaskDrift r direction attr w) = [] \<longleftrightarrow> queues_settled r direction attr w"
  by (auto simp: queue_detail_def queueMaskDrift_def queueDirs_def queues_settled_def filter_empty_iff
      queue_drifted_settled split: sum.splits)

lemma NICResource_Check_status:
  assumes "ethtool_reads r"
  shows "r_Status (fst (fst (NICResource_Check r w))) =
     (if nic_Interface r = [] then StatusSkipped
      else if (nic_RingBufferMax r \<longrightarrow> ring_quiet r w) \<and>
        (nic_RPS r \<and> 1 < nic_NumCPUs r \<longrightarrow> queues_settled r ''rx'' ''rps_cpus'' w) \<and>
        (nic_XPS r \<and> 1 < nic_NumCPUs r \<longrightarrow> queues_settled r ''tx'' ''xps_cpus'' w)
      then StatusUnchanged else StatusWouldChange) \<and>
   snd (NICResource_Check r w) = w"
proof -
  obtain out e where g: "ethtool_g r w = ((out, e), w)"
    using assms by (metis ethtool_reads_def prod.exhaust snd_conv)
  have ring: "ringBufferDrift r w = (case e of Some err \<Rightarrow> (Inl (Errorf (''ethtool -g '' @ nic_Interface r) err), w)
      | None \<Rightarrow> (Inr (ringDrift (parseEthtoolRingParams out)), w))"
    using g by (simp add: ringBufferDrift_def split: option.split)
  have quiet: "ring_quiet r w \<longleftrightarrow> (case e of Some err \<Rightarrow> True | None \<Rightarrow> ringDrift (parseEthtoolRingParams out) = [])"
    using g by (simp add: ring_quiet_def split: option.split)
  show ?thesis
    by (cases e) (auto simp: NICResource_Check_def Let_def ring quiet queue_detail_settled)
qed

lemma queue_names: "plain_dirn ''rx''" "plain_dirn ''tx''" "plain_comp ''rps_cpus''" "plain_comp ''xps_cpus''"
  by (simp_all add: plain_dirn_def plain_comp_def)

text \<open>Applying one direction settles it and leaves the other direction and the device as they are.\<close>

lemma applyQueueMask_settles:
  assumes ap: "applyQueueMask r direction attr w = (None, w')" and r: "nic_rooted r"
    and d: "plain_dirn direction" "plain_comp attr" and h: "queues_honest r direction attr w"
    and d': "plain_dirn direction'" "plain_comp attr'" "attr' \<noteq> attr"
  shows "queues_settled r direction attr w' \<and> queues_honest r direction attr w' \<and> w_ext w' = w_ext w \<and>
    (queues_honest r direction' attr' w \<longrightarrow> queues_honest r direction' attr' w') \<and>
    (queues_settled r direction' attr' w \<longrightarrow> queues_settled r direction' attr' w')"
proof -
  obtain dirs where q: "queueDirs r direction w = Inr dirs" by (simp add: queueDirs_def)
  obtain dirs' where q': "queueDirs r direction' w = Inr dirs'" by (simp add: queueDirs_def)
  from ap q have loop: "for_each (queue_step r attr) dirs w = (None, w')" by (simp add: applyQueueMask_def)
  note wr = queue.loop_writes[OF loop] and sh = queue.loop_shape[OF loop]
  have qd: "queueDirs r x w' = queueDirs r x w" for x by (rule queueDirs_shape[OF r d(2) d(1) q sh])
  have "\<forall>x \<in> set dirs. queue_honest r attr x w" using h q by (simp add: queues_honest_def)
  from queue.loop_settles[OF loop queue_path_inj[OF r d(1) q d(2)] this] q qd
  have "queues_settled r direction attr w'" "queues_honest r direction attr w'"
    by (simp_all add: queues_settled_def queues_honest_def)
  moreover have "w_ext w' = w_ext w" using wr by (simp add: only_writes_def)
  moreover have apart: "queue_path attr' x \<notin> queue_path attr ` set dirs" if "x \<in> set dirs'" for x
    by (rule queue_paths_apart[OF r d'(2) d(2) d'(3) d'(1) q' that d(1) q])
  have "queue_honest r attr' x w'" if "x \<in> set dirs'" "queue_honest r attr' x w" for x
    by (rule queue.hon_frame[OF wr sh apart[OF that(1)] that(2)])
  moreover have "settled (mask_fine r) (queue_path attr' x) w' = settled (mask_fine r) (queue_path attr' x) w"
    if "x \<in> set dirs'" for x
    by (rule settled_cong) (rule only_writes_node[OF wr apart[OF that]])
  ultimately show ?thesis using q' qd by (simp add: queues_settled_def queues_honest_def)
qed

lemma queues_fs:
  assumes "w_fs w' = w_fs w"
  shows "queues_honest r direction attr w' = queues_honest r direction attr w"
proof -
  have n: "node_at w' p = node_at w p" for p using assms by (simp add: node_at_def)
  then have "queueDirs r direction w' = queueDirs r direction w"
    using glob_level_shape[of "{}" w w'] by (simp add: queueDirs_def same_shape_def)
  with n show ?thesis by (simp add: queues_honest_def queue_honest_def)
qed

lemma ring_quiet_ext: "ethtool_reads r \<Longrightarrow> w_ext w' = w_ext w \<Longrightarrow> ring_quiet r w' = ring_quiet r w"
proof -
  assume "ethtool_reads r" "w_ext w' = w_ext w"
  then have "fst (ethtool_g r w') = fst (ethtool_g r w)" unfolding ethtool_reads_def by blast
  then show ?thesis by (simp only: ring_quiet_def)
qed

lemma NICResource_Apply_settles:
  assumes ap: "NICResource_Apply r w = (None, w')" and ok: "nic_reliable r w" and i: "nic_Interface r \<noteq> []"
  shows "r_Status (fst (fst (NICResource_Check r w'))) = StatusUnchanged \<and> nic_reliable r w'"
proof -
  let ?rps = "nic_RPS r \<and> 1 < nic_NumCPUs r" and ?xps = "nic_XPS r \<and> 1 < nic_NumCPUs r"
  from ok have r: "nic_rooted r" and rd: "ethtool_reads r" and st: "ethtool_sets r"
    and h: "queues_honest r ''rx'' ''rps_cpus'' w" "queues_honest r ''tx'' ''xps_cpus'' w"
    by (simp_all add: nic_reliable_def)
  from ap i obtain w1 w2 where
    s1: "(if nic_RingBufferMax r then applyRingBufferMax r w else (None, w)) = (None, w1)"
    and s2: "(if ?rps then applyQueueMask r ''rx'' ''rps_cpus'' w1 else (None, w1)) = (None, w2)"
    and s3: "(if ?xps then applyQueueMask r ''tx'' ''xps_cpus'' w2 else (None, w2)) = (None, w')"
    by (auto simp: NICResource_Apply_def split: prod.splits option.splits)
  have a1: "(nic_RingBufferMax r \<longrightarrow> ring_quiet r w1) \<and> w_fs w1 = w_fs w"
    using s1 applyRingBufferMax_quiet[OF _ rd st] by (auto split: if_splits)
  then have h1: "queues_honest r ''rx'' ''rps_cpus'' w1" "queues_honest r ''tx'' ''xps_cpus'' w1"
    using h queues_fs by blast+
  have a2: "(?rps \<longrightarrow> queues_settled r ''rx'' ''rps_cpus'' w2) \<and> w_ext w2 = w_ext w1 \<and>
      queues_honest r ''rx'' ''rps_cpus'' w2 \<and> queues_honest r ''tx'' ''xps_cpus'' w2"
    using s2 h1 applyQueueMask_settles[OF _ r queue_names(1,3) h1(1) queue_names(2,4)]
    by (auto split: if_splits)
  then have h2: "queues_honest r ''tx'' ''xps_cpus'' w2" by simp
  have "(?xps \<longrightarrow> queues_settled r ''tx'' ''xps_cpus'' w') \<and> w_ext w' = w_ext w2 \<and>
      queues_honest r ''rx'' ''rps_cpus'' w' \<and> queues_honest r ''tx'' ''xps_cpus'' w' \<and>
      (?rps \<longrightarrow> queues_settled r ''rx'' ''rps_cpus'' w')"
    using s3 a2 applyQueueMask_settles[OF _ r queue_names(2,4) h2 queue_names(1,3)]
    by (auto split: if_splits)
  with a1 a2 r rd st i ring_quiet_ext[OF rd, of w' w1] show ?thesis
    by (simp add: NICResource_Check_status[OF rd] nic_reliable_def)
qed

lemma NICResource_Check_shape:
  "r_Name (fst (fst (NICResource_Check r w))) = ''nic-tuning'' \<and> snd (fst (NICResource_Check r w)) = None \<and>
   r_Status (fst (fst (NICResource_Check r w))) \<in> {StatusUnchanged, StatusSkipped, StatusWouldChange}"
  by (simp add: NICResource_Check_def Let_def case_prod_beta)

interpretation nic: convergent_resource "nicResource r" "nic_reliable r" for r :: "'x NICResource"
proof unfold_locales
  fix w w' :: "'x world"
  note sh = NICResource_Check_shape[of r]
  show "r_Name (chk_result (nicResource r) w) = res_Name (nicResource r)"
    "(chk_status (nicResource r) w = StatusFailed) = (chk_error (nicResource r) w \<noteq> None)"
    "chk_status (nicResource r) w \<noteq> StatusChanged"
    using sh[of w] by (auto simp: nicResource_def)
  assume ok: "nic_reliable r w"
  then have rd: "ethtool_reads r" by (simp add: nic_reliable_def)
  show "snd (res_Check (nicResource r) w) = w"
    using NICResource_Check_status[OF rd] by (simp add: nicResource_def)
  assume "res_Apply (nicResource r) w = (None, w')"
  then have ap: "NICResource_Apply r w = (None, w')" by (simp add: nicResource_def)
  have st: "r_Status (fst (fst (NICResource_Check r w'))) \<in> {StatusUnchanged, StatusSkipped} \<and> nic_reliable r w'"
  proof (cases "nic_Interface r = []")
    case True
    with ap ok show ?thesis by (simp add: NICResource_Apply_def NICResource_Check_def)
  next
    case False
    from NICResource_Apply_settles[OF ap ok False] show ?thesis by simp
  qed
  then show "nic_reliable r w'" by simp
  show "chk_error (nicResource r) w' = None \<and> chk_status (nicResource r) w' \<noteq> StatusWouldChange"
    using st sh[of w'] by (auto simp: nicResource_def)
qed

section \<open>Properties\<close>

lemma mask_set_pad: "mask_set (replicate k 0 @ ws) = mask_set ws"
  by (induction k) (simp_all add: mask_set_Cons)

lemma mask_cpus_pad: "mask_cpus (replicate k 0 @ ws) = mask_cpus ws"
proof (rule sorted_list_of_distinct_eq)
  have "set (mask_cpus us) = mask_set us" for us by (auto simp: mask_cpus_def mask_set_def)
  then show "set (mask_cpus (replicate k 0 @ ws)) = set (mask_cpus ws)" by (simp add: mask_set_pad)
qed (simp_all add: mask_cpus_def sorted_wrt_filter)

lemma render_mask_pad:
  "ws \<noteq> [] \<Longrightarrow> render_mask (replicate k 0 @ ws) = concat (replicate k ''00000000,'') @ render_mask ws"
proof (induction k)
  case (Suc k)
  have "fmt_08x 0 = ''00000000''" by code_simp
  with Suc show ?case by (simp add: render_mask_def strings_Join_Cons)
qed simp

lemma cpuMasksEqual_pad:
  assumes "0 < n" "n + 31 < 2 ^ 63"
  shows "cpuMasksEqual (concat (replicate k ''00000000,'') @ cpumaskAll n @ [NL]) (cpumaskAll n)"
proof -
  define m where "m = nat ((n + 31) div 32)"
  let ?ws = "rev (mask_words m n)"
  note r = cpumaskAll_render[OF assms, folded m_def]
  then have ne: "?ws \<noteq> []" by (metis length_mask_words length_rev less_nat_zero_code list.size(3))
  have "concat (replicate k ''00000000,'') @ cpumaskAll n @ [NL] = render_mask (replicate k 0 @ ?ws) @ [NL]"
    using r render_mask_pad[OF ne, of k] by simp
  moreover have "parseCPUMaskBits (render_mask (replicate k 0 @ ?ws) @ [NL]) = mask_cpus ?ws"
    using ne by (subst parseCPUMaskBits_render(2)) (simp_all add: mask_cpus_pad)
  moreover have "parseCPUMaskBits (cpumaskAll n) = mask_cpus ?ws"
    using r ne by (simp add: parseCPUMaskBits_render(1))
  ultimately show ?thesis by (simp only: cpuMasksEqual_def)
qed

text \<open>
  C9. CPU masks: the mask written for \<open>n\<close> CPUs names exactly the CPUs from 0 to \<open>n - 1\<close>, and what a
  kernel reads back, padded with any number of zero words and ended by a newline, compares equal to it.
\<close>

theorem cpumaskAll_exact:
  assumes "0 < n" "n + 31 < 2 ^ 63"
  shows "parseCPUMaskBits (cpumaskAll n) = [0..<nat n] \<and>
    cpuMasksEqual (concat (replicate k ''00000000,'') @ cpumaskAll n @ [NL]) (cpumaskAll n)"
  using parseCPUMaskBits_all[OF assms] cpuMasksEqual_pad[OF assms] ..

theorem cpumaskAll_exact_witness:
  "parseCPUMaskBits (cpumaskAll 36) = [0..<36] \<and> cpumaskAll 4 = ''0000000f'' \<and>
   cpuMasksEqual (''00000000,0000000f'' @ [NL]) ''0000000f''"
proof -
  have four: "cpumaskAll 4 = ''0000000f''" by code_simp
  have "parseCPUMaskBits (cpumaskAll 36) = [0..<36]"
    using cpumaskAll_exact[of 36 0] by simp
  moreover have "cpuMasksEqual (''00000000,0000000f'' @ [NL]) ''0000000f''"
    using cpumaskAll_exact[of 4 1] by (simp add: four)
  ultimately show ?thesis using four by blast
qed


text \<open>
  A device with a receive ring of 4 of at most 8 entries and no transmit ring, on a kernel that pads
  masks and has no transmit attribute.
\<close>

definition ring_text :: "bool \<Rightarrow> string" where
  "ring_text raised = ''Pre-set maximums:'' @ [NL] @ ''RX: 8'' @ [NL] @ ''TX: n/a'' @ [NL]
     @ ''Current hardware settings:'' @ [NL] @ (if raised then ''RX: 8'' else ''RX: 4'') @ [NL]"

definition fake_ethtool :: "bool runner" where
  "fake_ethtool name args w =
     (if hd args = ''-g'' then ((ring_text (w_ext w), None), w) else (([], None), w\<lparr>w_ext := True\<rparr>))"

definition pad_knob :: "string \<Rightarrow> string \<Rightarrow> errno option \<times> string" where
  "pad_knob old v = (None, ''00000000,'' @ v @ [NL])"

definition eth0_nic :: "bool NICResource" where
  "eth0_nic = \<lparr>nic_Env = New, nic_Runner = fake_ethtool, nic_Interface = ''eth0'', nic_NumCPUs = 2,
     nic_RingBufferMax = True, nic_RPS = True, nic_XPS = True\<rparr>"

definition bare_dir :: node where
  "bare_dir = Dir \<lparr>d_readdir_err = None, d_creat_err = Some ENOENT, d_opts = fsopts_ok\<rparr>"

definition nic_world :: "bool world" where
  "nic_world = \<lparr>w_fs = [(''/sys/class/net/eth0/queues'', plain_dir),
     (''/sys/class/net/eth0/queues/rx-0'', bare_dir), (''/sys/class/net/eth0/queues/tx-0'', bare_dir),
     (''/sys/class/net/eth0/queues/rx-0/rps_cpus'', knob pad_knob (''00000000,00000000'' @ [NL]))],
     w_ext = False\<rparr>"

lemma eth0_nic_reliable: "nic_reliable eth0_nic nic_world"
  unfolding nic_reliable_def
proof (intro conjI)
  show "nic_rooted eth0_nic"
    by (simp add: nic_rooted_def eth0_nic_def New_def env_root_def rooted_def plain_comp_def)
  have g: "nic_Runner eth0_nic ''ethtool'' [''-g'', nic_Interface eth0_nic] w = ((ring_text (w_ext w), None), w)" for w
    by (simp add: eth0_nic_def fake_ethtool_def)
  then show "ethtool_reads eth0_nic" by (simp add: ethtool_reads_def)
  have "parseEthtoolRingParams (ring_text True) = ring_raised (parseEthtoolRingParams (ring_text True))"
    "parseEthtoolRingParams (ring_text True) = ring_raised (parseEthtoolRingParams (ring_text False))"
    by code_simp+
  then have "parseEthtoolRingParams (ring_text True) = ring_raised (parseEthtoolRingParams (ring_text b))" for b
    by (cases b) (simp_all only:)
  moreover have "nic_Runner eth0_nic ''ethtool'' ([''-G'', i] @ as) w = (([], None), w\<lparr>w_ext := True\<rparr>)" for i as w
    by (simp add: eth0_nic_def fake_ethtool_def)
  ultimately show "ethtool_sets eth0_nic" by (auto simp: ethtool_sets_def g)
  have fine: "mask_fine eth0_nic (''00000000,'' @ cpumaskAll (nic_NumCPUs eth0_nic) @ [NL])"
    "mask_fine eth0_nic (cpumaskAll (nic_NumCPUs eth0_nic))" by code_simp+
  have rx: "queueDirs eth0_nic ''rx'' nic_world = Inr [''/sys/class/net/eth0/queues/rx-0'']" by code_simp
  have "queue_path ''rps_cpus'' ''/sys/class/net/eth0/queues/rx-0'' = ''/sys/class/net/eth0/queues/rx-0/rps_cpus''"
    by code_simp
  moreover have "node_at nic_world ''/sys/class/net/eth0/queues/rx-0/rps_cpus'' =
      Some (knob pad_knob (''00000000,00000000'' @ [NL]))" by (simp add: node_at_def nic_world_def)
  ultimately show "queues_honest eth0_nic ''rx'' ''rps_cpus'' nic_world"
    using fine(1) unfolding queues_honest_def rx queue_honest_def
    by (simp add: honest_def no_enoent_def knob_def pad_knob_def)
  have tx: "queueDirs eth0_nic ''tx'' nic_world = Inr [''/sys/class/net/eth0/queues/tx-0'']" by code_simp
  have "queue_path ''xps_cpus'' ''/sys/class/net/eth0/queues/tx-0'' = ''/sys/class/net/eth0/queues/tx-0/xps_cpus''"
    "filepath_Dir ''/sys/class/net/eth0/queues/tx-0/xps_cpus'' = ''/sys/class/net/eth0/queues/tx-0''"
    by code_simp+
  moreover have "node_at nic_world ''/sys/class/net/eth0/queues/tx-0/xps_cpus'' = None"
    "node_at nic_world ''/sys/class/net/eth0/queues/tx-0'' = Some bare_dir"
    by (simp_all add: node_at_def nic_world_def)
  ultimately show "queues_honest eth0_nic ''tx'' ''xps_cpus'' nic_world"
    using fine(2) unfolding queues_honest_def tx queue_honest_def
    by (simp add: honest_def no_enoent_def bare_dir_def)
qed


end
