(* ===== verification/Irq_Resource.thy ===== *)
theory Irq_Resource
  imports Knobs
begin

text \<open>
  \<^verbatim>\<open>internal/resource/irqaffinity.go\<close>: the queue interrupts of the network interface, spread round-robin
  over the CPUs.
\<close>

record IRQAffinityResource =
  iq_Env :: Env
  iq_Interface :: string
  iq_NumCPUs :: int

definition irq_line :: "string \<Rightarrow> string \<Rightarrow> int list" where
  "irq_line pre line =
     (let fields = strings_Fields line in
      if length fields = 0 then []
      else let desc = last fields in
        if \<not> strings_HasPrefix desc pre then []
        else (case strconv_Atoi (strings_TrimSuffix (hd fields) '':'') of
                None \<Rightarrow> []
              | Some irqNum \<Rightarrow> [irqNum]))"

definition enaIRQs :: "IRQAffinityResource \<Rightarrow> 'x world \<Rightarrow> goerror + string list" where
  "enaIRQs r w =
     (case os_OpenScan (Path (iq_Env r) [''proc'', ''interrupts'']) w of
        Inl err \<Rightarrow> Inl (Errorf ''reading /proc/interrupts'' err)
      | Inr (ls, Some err) \<Rightarrow> Inl err
      | Inr (ls, None) \<Rightarrow>
          Inr (map strconv_Itoa (sort (concat (map (irq_line (iq_Interface r @ ''-'')) ls)))))"

text \<open>The map is built in order: a later occurrence of an interrupt overwrites an earlier one.\<close>

fun affinity_loop :: "int \<Rightarrow> int \<Rightarrow> string list \<Rightarrow> (string \<Rightarrow> int option) \<Rightarrow> (string \<Rightarrow> int option)" where
  "affinity_loop n i [] want = want"
| "affinity_loop n i (irq # irqs) want = affinity_loop n (i + 1) irqs (want(irq \<mapsto> i mod n))"

definition desiredAffinity :: "IRQAffinityResource \<Rightarrow> string list \<Rightarrow> (string \<Rightarrow> int option)" where
  "desiredAffinity r irqs =
     (let n = (if iq_NumCPUs r \<le> 0 then 1 else iq_NumCPUs r) in affinity_loop n 0 irqs (\<lambda>_. None))"

text \<open>Reading a Go map: a missing key gives zero.\<close>

definition wantStr :: "(string \<Rightarrow> int option) \<Rightarrow> string \<Rightarrow> string" where
  "wantStr want irq = strconv_Itoa (case want irq of None \<Rightarrow> 0 | Some v \<Rightarrow> v)"

definition affinityPath :: "IRQAffinityResource \<Rightarrow> string \<Rightarrow> string" where
  "affinityPath r irq = Path (iq_Env r) [''proc'', ''irq'', irq, ''smp_affinity_list'']"

definition irq_drift :: "IRQAffinityResource \<Rightarrow> (string \<Rightarrow> int option) \<Rightarrow> 'x world \<Rightarrow> string \<Rightarrow> string list" where
  "irq_drift r want w irq =
     (case ReadFileString (affinityPath r irq) w of
        Inl err \<Rightarrow> []
      | Inr cur \<Rightarrow>
          (let cur = strings_TrimSpace cur in
           if cur \<noteq> wantStr want irq then [''irq '' @ irq @ '': '' @ cur @ '' -> '' @ wantStr want irq] else []))"

definition IRQAffinityResource_Check :: "IRQAffinityResource \<Rightarrow> 'x world \<Rightarrow> Result \<times> goerror option" where
  "IRQAffinityResource_Check r w =
     (let name = ''irq-affinity'' in
      if iq_Interface r = [] \<or> iq_NumCPUs r \<le> 1
      then (mkResult name StatusSkipped ''no interface or only one vCPU, nothing to spread'', None)
      else (case enaIRQs r w of
        Inl err \<Rightarrow> (mkResult name StatusFailed (errText err), Some err)
      | Inr irqs \<Rightarrow>
          if length irqs = 0
          then (mkResult name StatusSkipped (''no queue IRQs found for '' @ iq_Interface r), None)
          else
            (let want = desiredAffinity r irqs; drift = concat (map (irq_drift r want w) irqs) in
             if length drift = 0 then (mkResult name StatusUnchanged [], None)
             else (mkResult name StatusWouldChange (strings_Join drift '', ''), None))))"

definition irq_step ::
  "IRQAffinityResource \<Rightarrow> (string \<Rightarrow> int option) \<Rightarrow> string \<Rightarrow> 'x world \<Rightarrow> goerror option \<times> 'x world" where
  "irq_step r want irq w =
     (let path = affinityPath r irq in
      if (case ReadFileString path w of Inl err \<Rightarrow> False | Inr cur \<Rightarrow> strings_TrimSpace cur = wantStr want irq)
      then (None, w)
      else (case os_WriteFile path (wantStr want irq) 420 w of
              (Some err, w') \<Rightarrow> (Some (Errorf (''setting affinity for irq '' @ irq) err), w')
            | (None, w') \<Rightarrow> (None, w')))"

definition IRQAffinityResource_Apply :: "IRQAffinityResource \<Rightarrow> 'x world \<Rightarrow> goerror option \<times> 'x world" where
  "IRQAffinityResource_Apply r w =
     (case enaIRQs r w of
        Inl err \<Rightarrow> (Some err, w)
      | Inr irqs \<Rightarrow> for_each (irq_step r (desiredAffinity r irqs)) irqs w)"

definition irqAffinityResource :: "IRQAffinityResource \<Rightarrow> 'x world Resource" where
  "irqAffinityResource r =
     \<lparr>res_Name = ''irq-affinity'', res_Check = (\<lambda>w. (IRQAffinityResource_Check r w, w)),
      res_Apply = IRQAffinityResource_Apply r\<rparr>"

section \<open>Round robin\<close>

lemma affinity_loop_notin: "irq \<notin> set irqs \<Longrightarrow> affinity_loop n i irqs want irq = want irq"
  by (induction irqs arbitrary: i want) auto

lemma affinity_loop_nth:
  "distinct irqs \<Longrightarrow> k < length irqs \<Longrightarrow> affinity_loop n i irqs want (irqs ! k) = Some ((i + int k) mod n)"
proof (induction irqs arbitrary: i k want)
  case (Cons irq irqs)
  show ?case
  proof (cases k)
    case 0
    with Cons.prems show ?thesis by (simp add: affinity_loop_notin)
  next
    case (Suc j)
    with Cons show ?thesis by (simp add: algebra_simps)
  qed
qed simp

lemma desiredAffinity_nth:
  "distinct irqs \<Longrightarrow> k < length irqs \<Longrightarrow>
   desiredAffinity r irqs (irqs ! k) = Some (int k mod (if iq_NumCPUs r \<le> 0 then 1 else iq_NumCPUs r))"
  using affinity_loop_nth[of irqs k _ 0] by (simp add: desiredAffinity_def Let_def)

text \<open>How many of the first \<open>k\<close> numbers have a given remainder.\<close>

lemma count_mod:
  fixes n c :: nat
  assumes "c < n"
  shows "card {i. i < k \<and> i mod n = c} = k div n + (if c < k mod n then 1 else 0)"
proof (induction k)
  case (Suc k)
  have s: "{i. i < Suc k \<and> i mod n = c} = {i. i < k \<and> i mod n = c} \<union> (if k mod n = c then {k} else {})"
    by (auto simp: less_Suc_eq)
  have "card {i. i < Suc k \<and> i mod n = c} = card {i. i < k \<and> i mod n = c} + (if k mod n = c then 1 else 0)"
    unfolding s by (subst card_Un_disjoint) auto
  moreover have "Suc k div n = k div n + (if Suc (k mod n) = n then 1 else 0)"
    "Suc k mod n = (if Suc (k mod n) = n then 0 else Suc (k mod n))"
    by (simp_all add: div_Suc mod_Suc)
  ultimately show ?case using Suc.IH assms by (auto split: if_splits)
qed simp

definition irq_load :: "IRQAffinityResource \<Rightarrow> string list \<Rightarrow> int \<Rightarrow> nat" where
  "irq_load r irqs cpu = length (filter (\<lambda>irq. desiredAffinity r irqs irq = Some cpu) irqs)"

lemma irq_load_count:
  assumes "distinct irqs" "0 < iq_NumCPUs r" "0 \<le> cpu" "cpu < iq_NumCPUs r"
  shows "irq_load r irqs cpu =
    length irqs div nat (iq_NumCPUs r) + (if nat cpu < length irqs mod nat (iq_NumCPUs r) then 1 else 0)"
proof -
  let ?n = "nat (iq_NumCPUs r)"
  have "desiredAffinity r irqs (irqs ! i) = Some cpu \<longleftrightarrow> i mod ?n = nat cpu" if "i < length irqs" for i
  proof -
    have "int i mod iq_NumCPUs r = int (i mod ?n)" using assms(2) by (simp add: zmod_int)
    then show ?thesis using desiredAffinity_nth[OF assms(1) that, of r] assms(2,3) by auto
  qed
  then have "{i. i < length irqs \<and> desiredAffinity r irqs (irqs ! i) = Some cpu} =
      {i. i < length irqs \<and> i mod ?n = nat cpu}" by auto
  then show ?thesis
    using count_mod[of "nat cpu" ?n "length irqs"] assms(3,4)
    by (simp add: irq_load_def length_filter_conv_card)
qed

section \<open>Contracts\<close>

definition irq_fine :: "(string \<Rightarrow> int option) \<Rightarrow> string \<Rightarrow> string \<Rightarrow> bool" where
  "irq_fine want irq c \<longleftrightarrow> strings_TrimSpace c = wantStr want irq"

lemma irq_write_step:
  "irq_step r want irq w = (e, w') \<Longrightarrow>
   write_step (irq_fine want irq) (affinityPath r irq) (wantStr want irq) w e w'"
  by (auto simp: irq_step_def ReadFileString_def write_step_def settled_def irq_fine_def Let_def
      split: sum.splits if_splits prod.splits option.splits)

interpretation irq: knob_steps "irq_step r want" "affinityPath r" "irq_fine want"
  "\<lambda>irq w. honest (irq_fine want irq) (wantStr want irq) (node_at w (affinityPath r irq))"
  for r :: IRQAffinityResource and want
  by unfold_locales
    (drule irq_write_step, erule (1) write_step_laws | drule irq_write_step, erule write_step_laws
     | erule (3) honest_frame)+

lemma irq_drift_settled:
  "irq_drift r want w irq = [] \<longleftrightarrow> settled (irq_fine want irq) (affinityPath r irq) w"
  by (auto simp: irq_drift_def ReadFileString_def settled_def irq_fine_def Let_def split: sum.splits)

lemma IRQAffinityResource_Check_status:
  "r_Status (fst (IRQAffinityResource_Check r w)) =
     (if iq_Interface r = [] \<or> iq_NumCPUs r \<le> 1 then StatusSkipped
      else case enaIRQs r w of
        Inl e \<Rightarrow> StatusFailed
      | Inr irqs \<Rightarrow>
          if irqs = [] then StatusSkipped
          else if \<forall>irq \<in> set irqs. settled (irq_fine (desiredAffinity r irqs) irq) (affinityPath r irq) w
          then StatusUnchanged else StatusWouldChange)"
  by (auto simp: IRQAffinityResource_Check_def Let_def irq_drift_settled split: sum.splits)

text \<open>
  What the kernel is relied on for: an affinity file that accepts a CPU reads back as that CPU, up to
  surrounding white space.
\<close>

definition irqs_honest :: "IRQAffinityResource \<Rightarrow> 'x world \<Rightarrow> bool" where
  "irqs_honest r w \<longleftrightarrow>
     (case enaIRQs r w of
        Inl e \<Rightarrow> True
      | Inr irqs \<Rightarrow> \<forall>irq \<in> set irqs.
          honest (irq_fine (desiredAffinity r irqs) irq) (wantStr (desiredAffinity r irqs) irq)
            (node_at w (affinityPath r irq)))"

lemma Itoa_plain: "plain_comp (strconv_Itoa i)"
proof -
  have "c \<noteq> CHR ''/'' \<and> c \<noteq> CHR ''.''" if "c \<in> set (strconv_Itoa i)" for c
    using Itoa_chars[OF that] by auto
  then have "CHR ''/'' \<notin> set (strconv_Itoa i)" "CHR ''.'' \<notin> set (strconv_Itoa i)" by blast+
  then show ?thesis by (auto simp: plain_comp_def)
qed

lemma enaIRQs_plain: "enaIRQs r w = Inr irqs \<Longrightarrow> \<forall>irq \<in> set irqs. plain_comp irq"
  by (auto simp: enaIRQs_def Itoa_plain split: sum.splits option.splits)

lemma irq_comps_plain:
  "plain_comp ''proc''" "plain_comp ''irq''" "plain_comp ''smp_affinity_list''" "plain_comp ''interrupts''"
  by (simp_all add: plain_comp_def)

lemma affinityPath_inj: "\<forall>d \<in> D. plain_comp d \<Longrightarrow> inj_on (affinityPath r) D"
proof (rule inj_onI)
  fix d d'
  assume D: "\<forall>d \<in> D. plain_comp d" "d \<in> D" "d' \<in> D" "affinityPath r d = affinityPath r d'"
  then have "plain_comp d" "plain_comp d'" by blast+
  with irq_comps_plain D(4) have "[''proc'', ''irq'', d, ''smp_affinity_list''] = [''proc'', ''irq'', d', ''smp_affinity_list'']"
    unfolding affinityPath_def by (intro Path_inj[of _ _ "iq_Env r"]) simp_all
  then show "d = d'" by simp
qed

lemma affinityPath_apart: "plain_comp d \<Longrightarrow> affinityPath r d \<noteq> Path (iq_Env r) [''proc'', ''interrupts'']"
proof
  assume d: "plain_comp d" and "affinityPath r d = Path (iq_Env r) [''proc'', ''interrupts'']"
  then have "[''proc'', ''irq'', d, ''smp_affinity_list''] = [''proc'', ''interrupts'']"
    unfolding affinityPath_def using irq_comps_plain by (intro Path_inj[of _ _ "iq_Env r"]) simp_all
  then show False by simp
qed

lemma enaIRQs_frame:
  assumes "only_writes (affinityPath r ` set irqs) w w'" "enaIRQs r w = Inr irqs"
  shows "enaIRQs r w' = Inr irqs"
proof -
  have "Path (iq_Env r) [''proc'', ''interrupts''] \<notin> affinityPath r ` set irqs"
  proof
    assume "Path (iq_Env r) [''proc'', ''interrupts''] \<in> affinityPath r ` set irqs"
    then obtain d where "d \<in> set irqs" "affinityPath r d = Path (iq_Env r) [''proc'', ''interrupts'']"
      by (elim imageE) simp
    then show False using enaIRQs_plain[OF assms(2)] affinityPath_apart[of d r] by blast
  qed
  from only_touches_scan[OF only_writes_touches[OF assms(1)] _ this] assms(2) show ?thesis
    by (auto simp: enaIRQs_def split: sum.splits option.splits)
qed

lemma IRQAffinityResource_Apply_settles:
  assumes ap: "IRQAffinityResource_Apply r w = (None, w')" and h: "irqs_honest r w"
  shows "r_Status (fst (IRQAffinityResource_Check r w')) \<in> {StatusUnchanged, StatusSkipped} \<and> irqs_honest r w'"
proof -
  from ap obtain irqs where i: "enaIRQs r w = Inr irqs"
    and loop: "for_each (irq_step r (desiredAffinity r irqs)) irqs w = (None, w')"
    by (auto simp: IRQAffinityResource_Apply_def split: sum.splits)
  have i': "enaIRQs r w' = Inr irqs" by (rule enaIRQs_frame[OF irq.loop_writes[OF loop] i])
  have hon: "\<forall>irq \<in> set irqs. honest (irq_fine (desiredAffinity r irqs) irq)
      (wantStr (desiredAffinity r irqs) irq) (node_at w (affinityPath r irq))"
    using h i by (simp add: irqs_honest_def)
  from irq.loop_settles[OF loop affinityPath_inj[OF enaIRQs_plain[OF i]] hon] i'
  show ?thesis by (simp add: IRQAffinityResource_Check_status irqs_honest_def)
qed

interpretation irq: convergent_resource "irqAffinityResource r" "irqs_honest r"
  for r :: IRQAffinityResource
proof unfold_locales
  fix w w' :: "'x world"
  let ?r = "irqAffinityResource r :: 'x world Resource"
  show "r_Name (chk_result ?r w) = res_Name ?r"
    by (simp add: irqAffinityResource_def IRQAffinityResource_Check_def Let_def split: sum.split)
  show err: "(chk_status ?r w = StatusFailed) = (chk_error ?r w \<noteq> None)" for w :: "'x world"
    by (simp add: irqAffinityResource_def IRQAffinityResource_Check_def Let_def split: sum.split)
  show "chk_status ?r w \<noteq> StatusChanged"
    by (simp add: irqAffinityResource_def IRQAffinityResource_Check_status split: sum.split)
  show "snd (res_Check ?r w) = w" by (simp add: irqAffinityResource_def)
  assume ok: "irqs_honest r w" and "res_Apply ?r w = (None, w')"
  then have ap: "IRQAffinityResource_Apply r w = (None, w')" by (simp add: irqAffinityResource_def)
  note st = IRQAffinityResource_Apply_settles[OF ap ok]
  then show "irqs_honest r w'" by simp
  show "chk_error ?r w' = None \<and> chk_status ?r w' \<noteq> StatusWouldChange"
    using st err[of w'] by (auto simp: irqAffinityResource_def)
qed

section \<open>Properties\<close>

text \<open>
  C17. Interrupts are spread evenly: every interrupt of the list is given one of the CPUs, and two CPUs
  never differ by more than one in the number of interrupts they serve.
\<close>

theorem desiredAffinity_balanced:
  assumes "distinct irqs" "0 < iq_NumCPUs r"
  shows "(\<forall>irq \<in> set irqs. \<exists>cpu. desiredAffinity r irqs irq = Some cpu \<and> 0 \<le> cpu \<and> cpu < iq_NumCPUs r) \<and>
    (\<forall>a b. 0 \<le> a \<and> a < iq_NumCPUs r \<and> 0 \<le> b \<and> b < iq_NumCPUs r \<longrightarrow>
       irq_load r irqs a \<le> irq_load r irqs b + 1)"
proof (intro conjI ballI allI impI)
  fix irq
  assume "irq \<in> set irqs"
  then obtain k where "k < length irqs" "irq = irqs ! k" by (auto simp: in_set_conv_nth)
  with desiredAffinity_nth[OF assms(1)] assms(2)
  show "\<exists>cpu. desiredAffinity r irqs irq = Some cpu \<and> 0 \<le> cpu \<and> cpu < iq_NumCPUs r" by auto
next
  fix a b
  assume "0 \<le> a \<and> a < iq_NumCPUs r \<and> 0 \<le> b \<and> b < iq_NumCPUs r"
  then show "irq_load r irqs a \<le> irq_load r irqs b + 1"
    using irq_load_count[OF assms] by simp
qed

definition eth0_irqs :: IRQAffinityResource where
  "eth0_irqs = \<lparr>iq_Env = New, iq_Interface = ''eth0'', iq_NumCPUs = 2\<rparr>"

theorem desiredAffinity_balanced_witness:
  "irq_load eth0_irqs [''24'', ''25'', ''26''] 0 \<le> irq_load eth0_irqs [''24'', ''25'', ''26''] 1 + 1 \<and>
   irq_load eth0_irqs [''24'', ''25'', ''26''] 0 = 2"
proof -
  have "distinct [''24'', ''25'', ''26'']" "0 < iq_NumCPUs eth0_irqs" by (simp_all add: eth0_irqs_def)
  from desiredAffinity_balanced[OF this]
  have "irq_load eth0_irqs [''24'', ''25'', ''26''] 0 \<le> irq_load eth0_irqs [''24'', ''25'', ''26''] 1 + 1"
    by (simp add: eth0_irqs_def)
  moreover have "irq_load eth0_irqs [''24'', ''25'', ''26''] 0 = 2" by code_simp
  ultimately show ?thesis ..
qed

text \<open>
  C18. Interrupt convergence: on a kernel whose affinity files echo an accepted CPU, a successful \<^verbatim>\<open>Apply\<close>
  leaves nothing for \<^verbatim>\<open>Check\<close> to report, and writes only affinity files of the interface's own queue
  interrupts.
\<close>

theorem IRQAffinityResource_converges:
  assumes "IRQAffinityResource_Apply r w = (None, w')" "irqs_honest r w"
  shows "r_Status (fst (IRQAffinityResource_Check r w')) \<in> {StatusUnchanged, StatusSkipped} \<and>
    (\<exists>irqs. enaIRQs r w = Inr irqs \<and> only_writes (affinityPath r ` set irqs) w w')"
proof
  show "r_Status (fst (IRQAffinityResource_Check r w')) \<in> {StatusUnchanged, StatusSkipped}"
    using IRQAffinityResource_Apply_settles[OF assms] ..
  from assms(1) show "\<exists>irqs. enaIRQs r w = Inr irqs \<and> only_writes (affinityPath r ` set irqs) w w'"
    by (auto simp: IRQAffinityResource_Apply_def split: sum.splits intro: irq.loop_writes)
qed

definition irq_world :: "unit world" where
  "irq_world = \<lparr>w_fs = [(''/proc/interrupts'',
       regular (''24: 1 2 eth0-Tx-Rx-0'' @ [NL] @ ''25: 1 2 eth0-Tx-Rx-1'' @ [NL] @ ''NMI: 0 0 eth0-x'' @ [NL])),
     (''/proc/irq/24/smp_affinity_list'', knob (\<lambda>old v. (None, v @ [NL])) (''0'' @ [NL])),
     (''/proc/irq/25/smp_affinity_list'', knob (\<lambda>old v. (None, v @ [NL])) (''0'' @ [NL]))], w_ext = ()\<rparr>"

theorem IRQAffinityResource_converges_witness:
  "\<exists>w'. IRQAffinityResource_Apply eth0_irqs irq_world = (None, w') \<and>
     r_Status (fst (IRQAffinityResource_Check eth0_irqs irq_world)) = StatusWouldChange \<and>
     r_Status (fst (IRQAffinityResource_Check eth0_irqs w')) \<in> {StatusUnchanged, StatusSkipped}"
proof -
  let ?w' = "snd (IRQAffinityResource_Apply eth0_irqs irq_world)"
  let ?want = "desiredAffinity eth0_irqs [''24'', ''25'']"
  have "fst (IRQAffinityResource_Apply eth0_irqs irq_world) = None" by code_simp
  then have ap: "IRQAffinityResource_Apply eth0_irqs irq_world = (None, ?w')"
    by (simp add: prod_eq_iff)
  have i: "enaIRQs eth0_irqs irq_world = Inr [''24'', ''25'']" by code_simp
  have p: "affinityPath eth0_irqs ''24'' = ''/proc/irq/24/smp_affinity_list''"
    "affinityPath eth0_irqs ''25'' = ''/proc/irq/25/smp_affinity_list''" by code_simp+
  have n: "node_at irq_world ''/proc/irq/24/smp_affinity_list'' = Some (knob (\<lambda>old v. (None, v @ [NL])) (''0'' @ [NL]))"
    "node_at irq_world ''/proc/irq/25/smp_affinity_list'' = Some (knob (\<lambda>old v. (None, v @ [NL])) (''0'' @ [NL]))"
    by (simp_all add: node_at_def irq_world_def)
  have "irq_fine ?want ''24'' (wantStr ?want ''24'' @ [NL])" "irq_fine ?want ''25'' (wantStr ?want ''25'' @ [NL])"
    by code_simp+
  then have h: "irqs_honest eth0_irqs irq_world"
    using i p n by (simp add: irqs_honest_def honest_def knob_def)
  from IRQAffinityResource_converges[OF ap h]
  have "r_Status (fst (IRQAffinityResource_Check eth0_irqs ?w')) \<in> {StatusUnchanged, StatusSkipped}" by blast
  moreover have "r_Status (fst (IRQAffinityResource_Check eth0_irqs irq_world)) = StatusWouldChange"
    by code_simp
  ultimately show ?thesis using ap by blast
qed

text \<open>
  \<^verbatim>\<open>Apply\<close> does not repeat the guard of \<^verbatim>\<open>Check\<close>: there is a host on which \<^verbatim>\<open>Check\<close> skips the resource,
  having no interface, and an unconditional \<^verbatim>\<open>Apply\<close> still writes an affinity file.
\<close>

lemma IRQAffinityResource_Apply_unguarded:
  "\<exists>r (w :: unit world). r_Status (fst (IRQAffinityResource_Check r w)) = StatusSkipped \<and>
     ReadFileString ''/proc/irq/9/smp_affinity_list'' w = Inr ''3'' \<and>
     ReadFileString ''/proc/irq/9/smp_affinity_list'' (snd (IRQAffinityResource_Apply r w)) = Inr ''0''"
proof -
  let ?r = "eth0_irqs\<lparr>iq_Interface := []\<rparr>"
  let ?w = "\<lparr>w_fs = [(''/proc/interrupts'', regular (''9: 1 2 -x'' @ [NL])),
     (''/proc/irq/9/smp_affinity_list'', regular ''3'')], w_ext = ()\<rparr> :: unit world"
  have "r_Status (fst (IRQAffinityResource_Check ?r ?w)) = StatusSkipped"
    "ReadFileString ''/proc/irq/9/smp_affinity_list'' ?w = Inr ''3''"
    "ReadFileString ''/proc/irq/9/smp_affinity_list'' (snd (IRQAffinityResource_Apply ?r ?w)) = Inr ''0''"
    by code_simp+
  then show ?thesis by blast
qed

end
