(* ===== verification/Governor_Resource.thy ===== *)
theory Governor_Resource
  imports Knobs
begin

text \<open>
  \<^verbatim>\<open>internal/resource/cpugovernor.go\<close>: the cpufreq governor of every CPU.
\<close>

record CPUGovernorResource =
  gv_Env :: Env
  gv_Governor :: string

text \<open>The pattern is well formed, so \<^verbatim>\<open>filepath.Glob\<close> returns no error.\<close>

definition governorPaths :: "CPUGovernorResource \<Rightarrow> 'x world \<Rightarrow> goerror + string list" where
  "governorPaths r w =
     Inr (glob_level (map PChar ''scaling_governor'') w
           (glob_level (map PChar ''cpufreq'') w
             (glob_level (map PChar ''cpu'' @ [PDigit, PStar]) w
               [Path (gv_Env r) [''sys'', ''devices'', ''system'', ''cpu'']])))"

definition governor_drifted :: "CPUGovernorResource \<Rightarrow> 'x world \<Rightarrow> string \<Rightarrow> bool" where
  "governor_drifted r w p =
     (case ReadFileString p w of Inl err \<Rightarrow> False | Inr cur \<Rightarrow> strings_TrimSpace cur \<noteq> gv_Governor r)"

definition CPUGovernorResource_Check :: "CPUGovernorResource \<Rightarrow> 'x world \<Rightarrow> Result \<times> goerror option" where
  "CPUGovernorResource_Check r w =
     (let name = ''cpu-governor'' in
      if gv_Governor r = [] then (mkResult name StatusSkipped ''disabled'', None)
      else (case governorPaths r w of
        Inl err \<Rightarrow> (mkResult name StatusFailed (errText err), Some err)
      | Inr paths \<Rightarrow>
          if length paths = 0
          then (mkResult name StatusSkipped ''no adjustable cpufreq governor on this host'', None)
          else
            (let drift = length (filter (governor_drifted r w) paths) in
             if drift = 0 then (mkResult name StatusUnchanged [], None)
             else (mkResult name StatusWouldChange
               (nat_str drift @ '' of '' @ nat_str (length paths) @ '' CPUs not on '' @ fmt_q (gv_Governor r)
                @ '' governor''), None))))"

definition governor_step :: "CPUGovernorResource \<Rightarrow> string \<Rightarrow> 'x world \<Rightarrow> goerror option \<times> 'x world" where
  "governor_step r p w =
     (if (case ReadFileString p w of Inl err \<Rightarrow> False | Inr cur \<Rightarrow> strings_TrimSpace cur = gv_Governor r)
      then (None, w)
      else (case os_WriteFile p (gv_Governor r) 420 w of
              (Some err, w') \<Rightarrow> (Some (Errorf (''setting governor via '' @ p) err), w')
            | (None, w') \<Rightarrow> (None, w')))"

definition CPUGovernorResource_Apply :: "CPUGovernorResource \<Rightarrow> 'x world \<Rightarrow> goerror option \<times> 'x world" where
  "CPUGovernorResource_Apply r w =
     (if gv_Governor r = [] then (None, w)
      else (case governorPaths r w of
              Inl err \<Rightarrow> (Some err, w)
            | Inr paths \<Rightarrow> for_each (governor_step r) paths w))"

definition cpuGovernorResource :: "CPUGovernorResource \<Rightarrow> 'x world Resource" where
  "cpuGovernorResource r =
     \<lparr>res_Name = ''cpu-governor'', res_Check = (\<lambda>w. (CPUGovernorResource_Check r w, w)),
      res_Apply = CPUGovernorResource_Apply r\<rparr>"

section \<open>Contracts\<close>

definition on_governor :: "CPUGovernorResource \<Rightarrow> string \<Rightarrow> bool" where
  "on_governor r c \<longleftrightarrow> strings_TrimSpace c = gv_Governor r"

lemma governor_write_step:
  "governor_step r p w = (e, w') \<Longrightarrow> write_step (on_governor r) p (gv_Governor r) w e w'"
  by (auto simp: governor_step_def ReadFileString_def write_step_def settled_def on_governor_def
      split: sum.splits if_splits prod.splits option.splits)

interpretation governor: knob_steps "governor_step r" "\<lambda>p. p" "\<lambda>p. on_governor r"
  "\<lambda>p w. honest (on_governor r) (gv_Governor r) (node_at w p)"
  for r :: CPUGovernorResource
  by unfold_locales
    (drule governor_write_step, erule (1) write_step_laws | drule governor_write_step, erule write_step_laws
     | erule (3) honest_frame)+

text \<open>
  What the kernel is relied on for: the files the pattern finds exist, and one that accepts the
  governor reads back as that governor, up to surrounding white space.
\<close>

definition governors_honest :: "CPUGovernorResource \<Rightarrow> 'x world \<Rightarrow> bool" where
  "governors_honest r w \<longleftrightarrow>
     (case governorPaths r w of
        Inl e \<Rightarrow> False
      | Inr paths \<Rightarrow>
          (\<forall>p \<in> set paths. node_at w p \<noteq> None \<and> honest (on_governor r) (gv_Governor r) (node_at w p)))"

lemma governorPaths_shape: "same_shape {} w w' \<Longrightarrow> governorPaths r w' = governorPaths r w"
  by (simp add: governorPaths_def glob_level_shape)

lemma governor_drifted_settled: "governor_drifted r w p \<longleftrightarrow> \<not> settled (on_governor r) p w"
  by (auto simp: governor_drifted_def settled_def ReadFileString_def on_governor_def split: sum.splits)

lemma CPUGovernorResource_Check_status:
  "r_Status (fst (CPUGovernorResource_Check r w)) =
     (case governorPaths r w of
        Inl e \<Rightarrow> if gv_Governor r = [] then StatusSkipped else StatusFailed
      | Inr paths \<Rightarrow>
          if gv_Governor r = [] \<or> paths = [] then StatusSkipped
          else if \<forall>p \<in> set paths. settled (on_governor r) p w then StatusUnchanged
          else StatusWouldChange)"
  by (auto simp: CPUGovernorResource_Check_def Let_def filter_empty_iff governor_drifted_settled
      split: sum.splits)

lemma CPUGovernorResource_Apply_settles:
  assumes ap: "CPUGovernorResource_Apply r w = (None, w')" and h: "governors_honest r w"
  shows "r_Status (fst (CPUGovernorResource_Check r w')) \<in> {StatusUnchanged, StatusSkipped} \<and> governors_honest r w'"
proof (cases "gv_Governor r = []")
  case True
  with ap h show ?thesis
    by (simp add: CPUGovernorResource_Apply_def CPUGovernorResource_Check_status split: sum.split)
next
  case False
  from h obtain paths where p: "governorPaths r w = Inr paths"
    and ex: "\<forall>p \<in> set paths. node_at w p \<noteq> None"
    and hon: "\<forall>p \<in> set paths. honest (on_governor r) (gv_Governor r) (node_at w p)"
    by (auto simp: governors_honest_def split: sum.splits)
  from ap False p have loop: "for_each (governor_step r) paths w = (None, w')"
    by (simp add: CPUGovernorResource_Apply_def)
  note shape = governor.loop_shape_existing[OF loop ex]
  from shape p have p': "governorPaths r w' = Inr paths" by (simp add: governorPaths_shape)
  from governor.loop_settles[OF loop inj_on_id2 hon] have
    "\<forall>p \<in> set paths. settled (on_governor r) p w'"
    "\<forall>p \<in> set paths. honest (on_governor r) (gv_Governor r) (node_at w' p)" by simp_all
  moreover have "\<forall>p \<in> set paths. node_at w' p \<noteq> None" using shape ex by (simp add: same_shape_def)
  ultimately show ?thesis
    using p' by (simp add: CPUGovernorResource_Check_status governors_honest_def)
qed

interpretation governor: convergent_resource "cpuGovernorResource r" "governors_honest r"
  for r :: CPUGovernorResource
proof unfold_locales
  fix w w' :: "'x world"
  let ?r = "cpuGovernorResource r :: 'x world Resource"
  show "r_Name (chk_result ?r w) = res_Name ?r"
    by (simp add: cpuGovernorResource_def CPUGovernorResource_Check_def Let_def split: sum.split)
  show err: "(chk_status ?r w = StatusFailed) = (chk_error ?r w \<noteq> None)" for w :: "'x world"
    by (simp add: cpuGovernorResource_def CPUGovernorResource_Check_def Let_def split: sum.split)
  show "chk_status ?r w \<noteq> StatusChanged"
    by (simp add: cpuGovernorResource_def CPUGovernorResource_Check_status split: sum.split)
  show "snd (res_Check ?r w) = w" by (simp add: cpuGovernorResource_def)
  assume ok: "governors_honest r w" and "res_Apply ?r w = (None, w')"
  then have ap: "CPUGovernorResource_Apply r w = (None, w')" by (simp add: cpuGovernorResource_def)
  note st = CPUGovernorResource_Apply_settles[OF ap ok]
  then show "governors_honest r w'" by simp
  show "chk_error ?r w' = None \<and> chk_status ?r w' \<noteq> StatusWouldChange"
    using st err[of w'] by (auto simp: cpuGovernorResource_def)
qed

section \<open>Properties\<close>

text \<open>
  C20. Governor convergence: on a kernel whose governor files exist and echo an accepted governor, a
  successful \<^verbatim>\<open>Apply\<close> leaves \<^verbatim>\<open>Check\<close> with nothing left to do, and no file changes but the governor files.
\<close>

theorem CPUGovernorResource_converges:
  assumes "CPUGovernorResource_Apply r w = (None, w')" "governors_honest r w" "gv_Governor r \<noteq> []"
  shows "r_Status (fst (CPUGovernorResource_Check r w')) \<in> {StatusUnchanged, StatusSkipped} \<and>
    (\<forall>paths. governorPaths r w = Inr paths \<longrightarrow> only_writes (set paths) w w')"
proof (intro conjI allI impI)
  show "r_Status (fst (CPUGovernorResource_Check r w')) \<in> {StatusUnchanged, StatusSkipped}"
    using CPUGovernorResource_Apply_settles[OF assms(1,2)] ..
  fix paths
  assume "governorPaths r w = Inr paths"
  with assms(1,3) have "for_each (governor_step r) paths w = (None, w')"
    by (simp add: CPUGovernorResource_Apply_def)
  then show "only_writes (set paths) w w'" using governor.loop_writes by fastforce
qed

definition governor_world :: "unit world" where
  "governor_world = \<lparr>w_fs = [(''/sys/devices/system/cpu'', plain_dir),
     (''/sys/devices/system/cpu/cpu0'', plain_dir), (''/sys/devices/system/cpu/cpuidle'', plain_dir),
     (''/sys/devices/system/cpu/cpu0/cpufreq'', plain_dir),
     (''/sys/devices/system/cpu/cpu0/cpufreq/scaling_governor'',
        knob (\<lambda>old v. (None, v @ [NL])) (''powersave'' @ [NL]))], w_ext = ()\<rparr>"

definition performance :: CPUGovernorResource where
  "performance = \<lparr>gv_Env = New, gv_Governor = ''performance''\<rparr>"

theorem CPUGovernorResource_converges_witness:
  "\<exists>w'. CPUGovernorResource_Apply performance governor_world = (None, w') \<and>
     r_Status (fst (CPUGovernorResource_Check performance governor_world)) = StatusWouldChange \<and>
     r_Status (fst (CPUGovernorResource_Check performance w')) \<in> {StatusUnchanged, StatusSkipped}"
proof -
  let ?w' = "snd (CPUGovernorResource_Apply performance governor_world)"
  let ?p = "''/sys/devices/system/cpu/cpu0/cpufreq/scaling_governor''"
  have "fst (CPUGovernorResource_Apply performance governor_world) = None" by code_simp
  then have ap: "CPUGovernorResource_Apply performance governor_world = (None, ?w')"
    by (simp add: prod_eq_iff)
  have paths: "governorPaths performance governor_world = Inr [?p]" by code_simp
  have "on_governor performance (''performance'' @ [NL])" by code_simp
  then have "honest (on_governor performance) ''performance'' (Some (knob (\<lambda>old v. (None, v @ [NL])) (''powersave'' @ [NL])))"
    by (simp add: honest_def knob_def del: append_Cons)
  moreover have "node_at governor_world ?p = Some (knob (\<lambda>old v. (None, v @ [NL])) (''powersave'' @ [NL]))"
    by (simp add: node_at_def governor_world_def)
  ultimately have h: "governors_honest performance governor_world"
    using paths by (simp add: governors_honest_def performance_def del: append_Cons)
  have "gv_Governor performance \<noteq> []" by (simp add: performance_def)
  from CPUGovernorResource_converges[OF ap h this] ap
  have "r_Status (fst (CPUGovernorResource_Check performance ?w')) \<in> {StatusUnchanged, StatusSkipped}" by blast
  moreover have "r_Status (fst (CPUGovernorResource_Check performance governor_world)) = StatusWouldChange"
    by code_simp
  ultimately show ?thesis using ap by blast
qed

end
