(* ===== verification/IoSched_Resource.thy ===== *)
theory IoSched_Resource
  imports Knobs
begin

text \<open>
  \<^verbatim>\<open>internal/resource/ioscheduler.go\<close>: the I/O scheduler of the NVMe disks.
\<close>

record IOSchedulerResource =
  io_Env :: Env
  io_Scheduler :: string

text \<open>The regular expression \<^verbatim>\<open>^nvme\d+n\d+$\<close>.\<close>

definition all_digits :: "string \<Rightarrow> bool" where
  "all_digits s \<longleftrightarrow> s \<noteq> [] \<and> list_all (\<lambda>c. dec_val c \<noteq> None) s"

definition nvmeWholeDiskRe :: "string \<Rightarrow> bool" where
  "nvmeWholeDiskRe s =
     (strings_HasPrefix s ''nvme'' \<and>
      (let rest = drop 4 s;
           a = takeWhile (\<lambda>c. dec_val c \<noteq> None) rest;
           b = dropWhile (\<lambda>c. dec_val c \<noteq> None) rest
       in a \<noteq> [] \<and> b \<noteq> [] \<and> hd b = CHR ''n'' \<and> all_digits (tl b)))"

definition nvmeDevices :: "IOSchedulerResource \<Rightarrow> 'x world \<Rightarrow> goerror + string list" where
  "nvmeDevices r w =
     (case os_ReadDir (Path (io_Env r) [''sys'', ''block'']) w of
        Inl err \<Rightarrow> if os_IsNotExist err then Inr [] else Inl (Errorf ''reading /sys/block'' err)
      | Inr entries \<Rightarrow> Inr (filter nvmeWholeDiskRe entries))"

definition schedulerPath :: "IOSchedulerResource \<Rightarrow> string \<Rightarrow> string" where
  "schedulerPath r dev = Path (io_Env r) [''sys'', ''block'', dev, ''queue'', ''scheduler'']"

fun scheduler_loop :: "string list \<Rightarrow> string \<Rightarrow> string list \<Rightarrow> string \<times> string list" where
  "scheduler_loop [] current available = (current, available)"
| "scheduler_loop (f # fs) current available =
     (if strings_HasPrefix f ''['' \<and> strings_HasSuffix f '']'' then
        let name = strings_Trim f ''[]'' in scheduler_loop fs name (available @ [name])
      else scheduler_loop fs current (available @ [f]))"

definition parseScheduler :: "string \<Rightarrow> string \<times> string list" where
  "parseScheduler raw = scheduler_loop (strings_Fields (strings_TrimSpace raw)) [] []"

definition readScheduler ::
  "IOSchedulerResource \<Rightarrow> string \<Rightarrow> 'x world \<Rightarrow> goerror + string \<times> string list" where
  "readScheduler r dev w =
     (case ReadFileString (schedulerPath r dev) w of
        Inl err \<Rightarrow> Inl err
      | Inr raw \<Rightarrow> Inr (parseScheduler raw))"

definition scheduler_drift :: "IOSchedulerResource \<Rightarrow> 'x world \<Rightarrow> string \<Rightarrow> string list" where
  "scheduler_drift r w dev =
     (case readScheduler r dev w of
        Inl err \<Rightarrow> []
      | Inr (cur, available) \<Rightarrow>
          if cur = io_Scheduler r then []
          else if io_Scheduler r \<notin> set available then []
          else [dev @ '': '' @ cur @ '' -> '' @ io_Scheduler r])"

definition IOSchedulerResource_Check :: "IOSchedulerResource \<Rightarrow> 'x world \<Rightarrow> Result \<times> goerror option" where
  "IOSchedulerResource_Check r w =
     (let name = ''io-scheduler'' in
      if io_Scheduler r = [] then (mkResult name StatusSkipped ''disabled'', None)
      else (case nvmeDevices r w of
        Inl err \<Rightarrow> (mkResult name StatusFailed (errText err), Some err)
      | Inr devices \<Rightarrow>
          if length devices = 0 then (mkResult name StatusSkipped ''no NVMe block devices found'', None)
          else
            (let drift = concat (map (scheduler_drift r w) devices) in
             if length drift = 0 then (mkResult name StatusUnchanged [], None)
             else (mkResult name StatusWouldChange (strings_Join drift '', ''), None))))"

definition scheduler_step :: "IOSchedulerResource \<Rightarrow> string \<Rightarrow> 'x world \<Rightarrow> goerror option \<times> 'x world" where
  "scheduler_step r dev w =
     (if (case readScheduler r dev w of
            Inl err \<Rightarrow> True
          | Inr (cur, available) \<Rightarrow> cur = io_Scheduler r \<or> io_Scheduler r \<notin> set available)
      then (None, w)
      else (case os_WriteFile (schedulerPath r dev) (io_Scheduler r) 420 w of
              (Some err, w') \<Rightarrow> (Some (Errorf (''setting scheduler for '' @ dev) err), w')
            | (None, w') \<Rightarrow> (None, w')))"

definition IOSchedulerResource_Apply :: "IOSchedulerResource \<Rightarrow> 'x world \<Rightarrow> goerror option \<times> 'x world" where
  "IOSchedulerResource_Apply r w =
     (if io_Scheduler r = [] then (None, w)
      else (case nvmeDevices r w of
              Inl err \<Rightarrow> (Some err, w)
            | Inr devices \<Rightarrow> for_each (scheduler_step r) devices w))"

definition ioSchedulerResource :: "IOSchedulerResource \<Rightarrow> 'x world Resource" where
  "ioSchedulerResource r =
     \<lparr>res_Name = ''io-scheduler'', res_Check = (\<lambda>w. (IOSchedulerResource_Check r w, w)),
      res_Apply = IOSchedulerResource_Apply r\<rparr>"

section \<open>Contracts\<close>

text \<open>A scheduler file is fine if the wanted scheduler is active, or not on offer at all.\<close>

definition scheduler_fine :: "IOSchedulerResource \<Rightarrow> string \<Rightarrow> bool" where
  "scheduler_fine r raw \<longleftrightarrow>
     fst (parseScheduler raw) = io_Scheduler r \<or> io_Scheduler r \<notin> set (snd (parseScheduler raw))"

lemma scheduler_write_step:
  "scheduler_step r dev w = (e, w') \<Longrightarrow>
   write_step (scheduler_fine r) (schedulerPath r dev) (io_Scheduler r) w e w' \<and>
   (node_at w (schedulerPath r dev) = None \<longrightarrow> w' = w)"
  by (auto simp: scheduler_step_def readScheduler_def ReadFileString_def write_step_def settled_def
      scheduler_fine_def os_ReadFile_def
      split: sum.splits if_splits prod.splits option.splits)

text \<open>
  What the kernel is relied on for: a scheduler file that accepts a scheduler marks it as active.
\<close>

definition scheduler_active :: "IOSchedulerResource \<Rightarrow> string \<Rightarrow> bool" where
  "scheduler_active r raw \<longleftrightarrow> fst (parseScheduler raw) = io_Scheduler r"

lemma scheduler_step_settles:
  assumes "scheduler_step r dev w = (None, w')"
    and "honest (scheduler_active r) (io_Scheduler r) (node_at w (schedulerPath r dev))"
  shows "(if settled (scheduler_fine r) (schedulerPath r dev) w then w' = w
      else settled (scheduler_active r) (schedulerPath r dev) w') \<and>
    settled (scheduler_fine r) (schedulerPath r dev) w' \<and>
    honest (scheduler_active r) (io_Scheduler r) (node_at w' (schedulerPath r dev))"
proof (cases "settled (scheduler_fine r) (schedulerPath r dev) w")
  case True
  with assms have "w' = w"
    by (auto simp: scheduler_step_def readScheduler_def ReadFileString_def settled_def scheduler_fine_def
        split: sum.splits if_splits prod.splits)
  with True assms(2) show ?thesis by simp
next
  case False
  with assms(1) obtain m where "os_WriteFile (schedulerPath r dev) (io_Scheduler r) m w = (None, w')"
    using scheduler_write_step[OF assms(1)] by (auto simp: write_step_def)
  from os_WriteFile_honest[OF this assms(2)] False show ?thesis
    by (auto simp: settled_def scheduler_active_def scheduler_fine_def)
qed

interpretation scheduler: knob_steps "scheduler_step r" "schedulerPath r" "\<lambda>dev. scheduler_fine r"
  "\<lambda>dev w. honest (scheduler_active r) (io_Scheduler r) (node_at w (schedulerPath r dev))"
  for r :: IOSchedulerResource
  by unfold_locales
    (drule scheduler_write_step[THEN conjunct1], erule write_step_laws | drule (1) scheduler_step_settles, simp
     | erule (3) honest_frame)+

text \<open>
  Disk by disk: a file whose content was fine is left alone, and the others end with the wanted scheduler
  active.
\<close>

lemma scheduler_loop_selects:
  assumes "for_each (scheduler_step r) devs w = (None, w')" "inj_on (schedulerPath r) (set devs)"
    and "\<forall>d \<in> set devs. honest (scheduler_active r) (io_Scheduler r) (node_at w (schedulerPath r d))" "d \<in> set devs"
  shows "if settled (scheduler_fine r) (schedulerPath r d) w
    then node_at w' (schedulerPath r d) = node_at w (schedulerPath r d)
    else settled (scheduler_active r) (schedulerPath r d) w'"
  using assms
proof (induction devs arbitrary: w)
  case (Cons t devs)
  let ?p = "schedulerPath r d"
  from Cons.prems(1) obtain w1 where s: "scheduler_step r t w = (None, w1)"
    and rest: "for_each (scheduler_step r) devs w1 = (None, w')"
    by (auto split: prod.splits option.splits)
  note st = scheduler_step_settles[OF s bspec[OF Cons.prems(3) list.set_intros(1)]]
  have other: "node_at w1 (schedulerPath r u) = node_at w (schedulerPath r u)" if "u \<in> set devs" "u \<noteq> t" for u
    using only_writes_node[OF scheduler.step_writes[OF s]] inj_onD[OF Cons.prems(2), of u t] that by auto
  have hon: "\<forall>u \<in> set devs. honest (scheduler_active r) (io_Scheduler r) (node_at w1 (schedulerPath r u))"
    using st other Cons.prems(3) by (metis list.set_intros(2))
  have "inj_on (schedulerPath r) (set devs)" using Cons.prems(2) by (simp add: inj_on_insert)
  note ih = Cons.IH[OF rest this hon]
  show ?case
  proof (cases "d \<in> set devs")
    case True
    then have i: "if settled (scheduler_fine r) ?p w1 then node_at w' ?p = node_at w1 ?p else settled (scheduler_active r) ?p w'"
      using ih by auto
    show ?thesis
    proof (cases "d = t")
      case d: True
      with st i show ?thesis
        using settled_cong[of w' ?p w1 "scheduler_active r"] by (auto split: if_splits)
    next
      case False
      with True i other settled_cong[OF other[OF True False], of "scheduler_fine r"] show ?thesis by simp
    qed
  next
    case False
    with Cons.prems(4) have d: "d = t" by simp
    with False Cons.prems(2) have "?p \<notin> schedulerPath r ` set devs" by (auto simp: inj_on_def)
    with only_writes_node[OF scheduler.loop_writes[OF rest]] have "node_at w' ?p = node_at w1 ?p" by blast
    with st d settled_cong[of w' ?p w1 "scheduler_active r"] show ?thesis by (auto split: if_splits)
  qed
qed simp

lemma scheduler_loop_shape: "for_each (scheduler_step r) devs w = (e, w') \<Longrightarrow> same_shape {} w w'"
proof (induction devs arbitrary: w)
  case (Cons d devs)
  obtain e1 w1 where s: "scheduler_step r d w = (e1, w1)" by force
  have a: "same_shape {} w w1"
    using scheduler.step_shape[OF s] scheduler_write_step[OF s]
    by (cases "node_at w (schedulerPath r d) = None") auto
  show ?case
  proof (cases e1)
    case None
    with s Cons have "same_shape {} w1 w'" by simp
    with a show ?thesis by (rule same_shape_trans)
  qed (use s Cons.prems a in simp)
qed simp

lemma scheduler_drift_settled:
  "scheduler_drift r w dev = [] \<longleftrightarrow> settled (scheduler_fine r) (schedulerPath r dev) w"
  by (auto simp: scheduler_drift_def readScheduler_def ReadFileString_def settled_def scheduler_fine_def
      split: sum.splits prod.splits)

lemma IOSchedulerResource_Check_status:
  "r_Status (fst (IOSchedulerResource_Check r w)) =
     (if io_Scheduler r = [] then StatusSkipped
      else case nvmeDevices r w of
        Inl e \<Rightarrow> StatusFailed
      | Inr devs \<Rightarrow>
          if devs = [] then StatusSkipped
          else if \<forall>d \<in> set devs. settled (scheduler_fine r) (schedulerPath r d) w then StatusUnchanged
          else StatusWouldChange)"
  by (auto simp: IOSchedulerResource_Check_def Let_def scheduler_drift_settled split: sum.splits)

definition schedulers_honest :: "IOSchedulerResource \<Rightarrow> 'x world \<Rightarrow> bool" where
  "schedulers_honest r w \<longleftrightarrow>
     (case nvmeDevices r w of
        Inl e \<Rightarrow> True
      | Inr devs \<Rightarrow> \<forall>d \<in> set devs. honest (scheduler_active r) (io_Scheduler r) (node_at w (schedulerPath r d)))"

lemma nvme_plain: "nvmeWholeDiskRe d \<Longrightarrow> CHR ''/'' \<notin> set d \<Longrightarrow> plain_comp d"
  by (auto simp: nvmeWholeDiskRe_def plain_comp_def strings_HasPrefix_def)

lemma child_names_no_slash: "n \<in> set (child_names w p) \<Longrightarrow> CHR ''/'' \<notin> set n \<and> n \<noteq> []"
  by (auto simp: set_child_names child_name_def Let_def split: if_splits)

lemma nvmeDevices_plain: "nvmeDevices r w = Inr devs \<Longrightarrow> \<forall>d \<in> set devs. plain_comp d"
  by (auto simp: nvmeDevices_def os_ReadDir_def
      split: sum.splits option.splits node.splits if_splits dest!: child_names_no_slash intro: nvme_plain)

lemma schedulerPath_inj: "\<forall>d \<in> D. plain_comp d \<Longrightarrow> inj_on (schedulerPath r) D"
proof (rule inj_onI)
  fix d d'
  assume D: "\<forall>d \<in> D. plain_comp d" "d \<in> D" "d' \<in> D" "schedulerPath r d = schedulerPath r d'"
  have p: "plain_comp ''sys''" "plain_comp ''block''" "plain_comp ''queue''" "plain_comp ''scheduler''"
    by (simp_all add: plain_comp_def)
  from D have "plain_comp d" "plain_comp d'" by blast+
  with p D(4) have "[''sys'', ''block'', d, ''queue'', ''scheduler''] = [''sys'', ''block'', d', ''queue'', ''scheduler'']"
    unfolding schedulerPath_def by (intro Path_inj[of _ _ "io_Env r"]) simp_all
  then show "d = d'" by simp
qed

lemma nvmeDevices_shape:
  assumes "same_shape {} w w'" "nvmeDevices r w = Inr devs" "devs \<noteq> []"
  shows "nvmeDevices r w' = Inr devs"
  using assms os_ReadDir_shape[OF assms(1)]
  by (auto simp: nvmeDevices_def split: sum.splits if_splits)

lemma IOSchedulerResource_Apply_settles:
  assumes ap: "IOSchedulerResource_Apply r w = (None, w')" and h: "schedulers_honest r w"
  shows "r_Status (fst (IOSchedulerResource_Check r w')) \<in> {StatusUnchanged, StatusSkipped} \<and>
    schedulers_honest r w'"
proof (cases "io_Scheduler r = []")
  case True
  with ap h show ?thesis
    by (simp add: IOSchedulerResource_Apply_def IOSchedulerResource_Check_status)
next
  case False
  with ap obtain devs where d: "nvmeDevices r w = Inr devs"
    and loop: "for_each (scheduler_step r) devs w = (None, w')"
    by (auto simp: IOSchedulerResource_Apply_def split: sum.splits)
  show ?thesis
  proof (cases "devs = []")
    case True
    with loop d h False show ?thesis by (simp add: IOSchedulerResource_Check_status)
  next
    case ne: False
    have d': "nvmeDevices r w' = Inr devs"
      by (rule nvmeDevices_shape[OF scheduler_loop_shape[OF loop] d ne])
    have hon: "\<forall>x \<in> set devs. honest (scheduler_active r) (io_Scheduler r) (node_at w (schedulerPath r x))"
      using h d by (simp add: schedulers_honest_def)
    from scheduler.loop_settles[OF loop schedulerPath_inj[OF nvmeDevices_plain[OF d]] hon] d' ne
    show ?thesis by (simp add: IOSchedulerResource_Check_status schedulers_honest_def)
  qed
qed

interpretation scheduler: convergent_resource "ioSchedulerResource r" "schedulers_honest r"
  for r :: IOSchedulerResource
proof unfold_locales
  fix w w' :: "'x world"
  let ?r = "ioSchedulerResource r :: 'x world Resource"
  show "r_Name (chk_result ?r w) = res_Name ?r"
    by (simp add: ioSchedulerResource_def IOSchedulerResource_Check_def Let_def split: sum.split)
  show err: "(chk_status ?r w = StatusFailed) = (chk_error ?r w \<noteq> None)" for w :: "'x world"
    by (simp add: ioSchedulerResource_def IOSchedulerResource_Check_def Let_def split: sum.split)
  show "chk_status ?r w \<noteq> StatusChanged"
    by (simp add: ioSchedulerResource_def IOSchedulerResource_Check_status split: sum.split)
  show "snd (res_Check ?r w) = w" by (simp add: ioSchedulerResource_def)
  assume ok: "schedulers_honest r w" and "res_Apply ?r w = (None, w')"
  then have ap: "IOSchedulerResource_Apply r w = (None, w')" by (simp add: ioSchedulerResource_def)
  note st = IOSchedulerResource_Apply_settles[OF ap ok]
  then show "schedulers_honest r w'" by simp
  show "chk_error ?r w' = None \<and> chk_status ?r w' \<noteq> StatusWouldChange"
    using st err[of w'] by (auto simp: ioSchedulerResource_def)
qed

section \<open>The kernel's format\<close>

text \<open>The kernel lists the schedulers on offer on one line, the active one in brackets.\<close>

definition bracket :: "string \<Rightarrow> string \<Rightarrow> string" where
  "bracket cur s = (if s = cur then ''['' @ s @ '']'' else s)"

definition render_schedulers :: "string \<Rightarrow> string list \<Rightarrow> string" where
  "render_schedulers cur names = strings_Join (map (bracket cur) names) '' '' @ [NL]"

definition scheduler_name :: "string \<Rightarrow> bool" where
  "scheduler_name s \<longleftrightarrow> s \<noteq> [] \<and> list_all (\<lambda>c. graphic c \<and> c \<noteq> CHR ''['' \<and> c \<noteq> CHR '']'') s"

lemma scheduler_name_bracket_field: "scheduler_name s \<Longrightarrow> field (bracket cur s)"
  by (intro graphic_field) (auto simp: bracket_def scheduler_name_def list_all_iff graphic_def)

lemma strings_Trim_bracket: "scheduler_name s \<Longrightarrow> strings_Trim (''['' @ s @ '']'') ''[]'' = s"
proof -
  assume s: "scheduler_name s"
  have hd: "dropWhile (\<lambda>c. c \<in> set ''[]'') (x # xs) = x # xs" if "x \<noteq> CHR ''[''" "x \<noteq> CHR '']''" for x xs
    using that by simp
  from s obtain a t where a: "s = a # t" "a \<noteq> CHR ''[''" "a \<noteq> CHR '']''"
    by (cases s) (auto simp: scheduler_name_def)
  from s obtain u b where b: "s = u @ [b]" "b \<noteq> CHR ''[''" "b \<noteq> CHR '']''"
    by (cases s rule: rev_cases) (auto simp: scheduler_name_def)
  have "dropWhile (\<lambda>c. c \<in> set ''[]'') (''['' @ s @ '']'') = s @ '']''" using a by simp
  moreover have "dropWhile (\<lambda>c. c \<in> set ''[]'') (rev (s @ '']'')) = rev s" using b by simp
  ultimately show ?thesis by (simp only: strings_Trim_def rev_rev_ident)
qed

lemma scheduler_loop_render:
  assumes "\<forall>s \<in> set names. scheduler_name s"
  shows "scheduler_loop (map (bracket cur) names) c av =
    ((if cur \<in> set names then cur else c), av @ names)"
  using assms
proof (induction names arbitrary: c av)
  case (Cons s names)
  then have s: "scheduler_name s" by simp
  show ?case
  proof (cases "s = cur")
    case True
    then have "strings_HasPrefix (bracket cur s) ''[''" "strings_HasSuffix (bracket cur s) '']''"
      by (simp_all add: bracket_def strings_HasPrefix_def strings_HasSuffix_def)
    moreover have "strings_Trim (bracket cur s) ''[]'' = s"
      using True strings_Trim_bracket[OF s] by (simp add: bracket_def)
    ultimately show ?thesis using True Cons by (simp add: Let_def)
  next
    case False
    have "\<not> strings_HasPrefix (bracket cur s) ''[''"
      using False s by (cases s) (auto simp: bracket_def strings_HasPrefix_def scheduler_name_def)
    with False Cons show ?thesis by (simp add: bracket_def)
  qed
qed simp

lemma parseScheduler_render:
  assumes "\<forall>s \<in> set names. scheduler_name s"
  shows "parseScheduler (render_schedulers cur names) = ((if cur \<in> set names then cur else []), names)"
proof -
  have "strings_Fields (render_schedulers cur names) = map (bracket cur) names"
    unfolding render_schedulers_def
    using assms scheduler_name_bracket_field
    by (simp add: Fields_append_ascii Fields_Join)
  with scheduler_loop_render[OF assms, of cur "[]" "[]"] show ?thesis
    by (simp add: parseScheduler_def)
qed

section \<open>Properties\<close>

text \<open>
  C19. Schedulers, disk by disk: on a kernel that marks an accepted scheduler as active, after a successful
  \<^verbatim>\<open>Apply\<close> every NVMe disk whose scheduler file can be read and offers the wanted scheduler has it active; the
  file of a disk that does not offer it, or cannot be read, is as it was; nothing but scheduler files of
  NVMe disks is written; and \<^verbatim>\<open>Check\<close> has nothing left to do.
\<close>

theorem IOSchedulerResource_converges:
  assumes "IOSchedulerResource_Apply r w = (None, w')" "schedulers_honest r w" "io_Scheduler r \<noteq> []"
  shows "r_Status (fst (IOSchedulerResource_Check r w')) \<in> {StatusUnchanged, StatusSkipped} \<and>
    (\<exists>devs. nvmeDevices r w = Inr devs \<and> only_writes (schedulerPath r ` set devs) w w' \<and>
       (\<forall>d \<in> set devs.
          case readScheduler r d w of
            Inl err \<Rightarrow> node_at w' (schedulerPath r d) = node_at w (schedulerPath r d)
          | Inr (cur, available) \<Rightarrow>
              if io_Scheduler r \<in> set available
              then \<forall>cur' available'. readScheduler r d w' = Inr (cur', available') \<longrightarrow> cur' = io_Scheduler r
              else node_at w' (schedulerPath r d) = node_at w (schedulerPath r d)))"
proof
  show "r_Status (fst (IOSchedulerResource_Check r w')) \<in> {StatusUnchanged, StatusSkipped}"
    using IOSchedulerResource_Apply_settles[OF assms(1,2)] ..
  from assms(1,3) obtain devs where d: "nvmeDevices r w = Inr devs" "for_each (scheduler_step r) devs w = (None, w')"
    by (auto simp: IOSchedulerResource_Apply_def split: sum.splits)
  have hon: "\<forall>x \<in> set devs. honest (scheduler_active r) (io_Scheduler r) (node_at w (schedulerPath r x))"
    using assms(2) d(1) by (simp add: schedulers_honest_def)
  note sel = scheduler_loop_selects[OF d(2) schedulerPath_inj[OF nvmeDevices_plain[OF d(1)]] hon]
  have "case readScheduler r x w of
            Inl err \<Rightarrow> node_at w' (schedulerPath r x) = node_at w (schedulerPath r x)
          | Inr (cur, available) \<Rightarrow>
              if io_Scheduler r \<in> set available
              then \<forall>cur' available'. readScheduler r x w' = Inr (cur', available') \<longrightarrow> cur' = io_Scheduler r
              else node_at w' (schedulerPath r x) = node_at w (schedulerPath r x)" if "x \<in> set devs" for x
    using sel[OF that] os_ReadFile_cong[of w' "schedulerPath r x" w]
    by (auto simp: readScheduler_def ReadFileString_def settled_def scheduler_fine_def scheduler_active_def
        split: sum.splits if_splits)
  with d scheduler.loop_writes[OF d(2)]
  show "\<exists>devs. nvmeDevices r w = Inr devs \<and> only_writes (schedulerPath r ` set devs) w w' \<and>
       (\<forall>d \<in> set devs.
          case readScheduler r d w of
            Inl err \<Rightarrow> node_at w' (schedulerPath r d) = node_at w (schedulerPath r d)
          | Inr (cur, available) \<Rightarrow>
              if io_Scheduler r \<in> set available
              then \<forall>cur' available'. readScheduler r d w' = Inr (cur', available') \<longrightarrow> cur' = io_Scheduler r
              else node_at w' (schedulerPath r d) = node_at w (schedulerPath r d))" by blast
qed

text \<open>
  C31. The kernel's scheduler format is parsed exactly: of a line that lists the schedulers on offer with
  the active one in brackets, \<^verbatim>\<open>readScheduler\<close> recovers the active scheduler and the whole list.
\<close>

theorem parseScheduler_roundtrip:
  assumes "list_all scheduler_name names" "cur \<in> set names"
  shows "parseScheduler (render_schedulers cur names) = (cur, names)"
  using parseScheduler_render[of names cur] assms by (simp add: list_all_iff)

theorem parseScheduler_roundtrip_witness:
  "parseScheduler (''none [mq-deadline]'' @ [NL]) = (''mq-deadline'', [''none'', ''mq-deadline''])"
proof -
  have "list_all scheduler_name [''none'', ''mq-deadline'']" by code_simp
  moreover have "''mq-deadline'' \<in> set [''none'', ''mq-deadline'']" by simp
  moreover have "render_schedulers ''mq-deadline'' [''none'', ''mq-deadline''] = ''none [mq-deadline]'' @ [NL]"
    by code_simp
  ultimately show ?thesis using parseScheduler_roundtrip by metis
qed

text \<open>A disk that offers two schedulers and switches between them.\<close>

definition sched_knob :: "string \<Rightarrow> string \<Rightarrow> errno option \<times> string" where
  "sched_knob old v =
     (if v \<in> set [''none'', ''mq-deadline''] then (None, render_schedulers v [''none'', ''mq-deadline''])
      else (Some EINVAL, old))"

definition nvme_world :: "unit world" where
  "nvme_world = \<lparr>w_fs = [(''/sys/block'', plain_dir), (''/sys/block/loop0'', plain_dir),
     (''/sys/block/nvme0n1'', plain_dir),
     (''/sys/block/nvme0n1/queue/scheduler'', knob sched_knob (''none [mq-deadline]'' @ [NL]))], w_ext = ()\<rparr>"

definition none_scheduler :: IOSchedulerResource where
  "none_scheduler = \<lparr>io_Env = New, io_Scheduler = ''none''\<rparr>"

lemma sched_knob_active: "sched_knob old ''none'' = (None, c) \<Longrightarrow> scheduler_active none_scheduler c"
proof -
  assume "sched_knob old ''none'' = (None, c)"
  then have "c = render_schedulers ''none'' [''none'', ''mq-deadline'']"
    by (simp add: sched_knob_def)
  moreover have "scheduler_active none_scheduler (render_schedulers ''none'' [''none'', ''mq-deadline''])"
    by code_simp
  ultimately show ?thesis by simp
qed

theorem IOSchedulerResource_converges_witness:
  "\<exists>w'. IOSchedulerResource_Apply none_scheduler nvme_world = (None, w') \<and>
     r_Status (fst (IOSchedulerResource_Check none_scheduler nvme_world)) = StatusWouldChange \<and>
     r_Status (fst (IOSchedulerResource_Check none_scheduler w')) \<in> {StatusUnchanged, StatusSkipped}"
proof -
  let ?w' = "snd (IOSchedulerResource_Apply none_scheduler nvme_world)"
  have "fst (IOSchedulerResource_Apply none_scheduler nvme_world) = None" by code_simp
  then have ap: "IOSchedulerResource_Apply none_scheduler nvme_world = (None, ?w')"
    by (simp add: prod_eq_iff)
  have devs: "nvmeDevices none_scheduler nvme_world = Inr [''nvme0n1'']" by code_simp
  have p: "schedulerPath none_scheduler ''nvme0n1'' = ''/sys/block/nvme0n1/queue/scheduler''" by code_simp
  have "node_at nvme_world ''/sys/block/nvme0n1/queue/scheduler'' =
      Some (knob sched_knob (''none [mq-deadline]'' @ [NL]))"
    by (simp add: node_at_def nvme_world_def)
  moreover have "honest (scheduler_active none_scheduler) ''none'' (Some (knob sched_knob x))" for x
    using sched_knob_active by (auto simp: honest_def knob_def)
  ultimately have h: "schedulers_honest none_scheduler nvme_world"
    using devs p by (simp add: schedulers_honest_def none_scheduler_def del: append_Cons)
  have "io_Scheduler none_scheduler \<noteq> []" by (simp add: none_scheduler_def)
  from IOSchedulerResource_converges[OF ap h this]
  have "r_Status (fst (IOSchedulerResource_Check none_scheduler ?w')) \<in> {StatusUnchanged, StatusSkipped}" by blast
  moreover have "r_Status (fst (IOSchedulerResource_Check none_scheduler nvme_world)) = StatusWouldChange"
    by code_simp
  ultimately show ?thesis using ap by blast
qed

end
