(* ===== verification/Engine.thy ===== *)
theory Engine
  imports Config Kmod_Resource Swap_Resource DropIn_Resource Nic_Resource Irq_Resource Governor_Resource
    IoSched_Resource
begin

text \<open>
  Package \<^verbatim>\<open>internal/engine\<close>: the list of resources a profile asks for, the run over that list, the exit code
  and the reports. A run passes the world from resource to resource.
\<close>

section \<open>engine.go\<close>

datatype Mode = ModeApply | ModeCheck

record Options =
  opt_Only :: "string list"
  opt_Skip :: "string list"

definition sysctlPersistFile :: string where
  "sysctlPersistFile = ''etc/sysctl.d/99-node-configurator.conf''"

definition modulesPersistFile :: string where
  "modulesPersistFile = ''etc/modules-load.d/99-node-configurator.conf''"

definition limitsPersistFile :: string where
  "limitsPersistFile = ''etc/security/limits.d/99-node-configurator.conf''"

definition systemdLimitServices :: "string list" where
  "systemdLimitServices = [''containerd'', ''kubelet'', ''cilium'']"

definition filterResources :: "'w Resource list \<Rightarrow> string list \<Rightarrow> Options \<Rightarrow> 'w Resource list" where
  "filterResources all disabledFromConfig opts =
     (let excluded = disabledFromConfig @ opt_Skip opts in
      filter (\<lambda>r. res_Name r \<notin> set excluded \<and>
                  (length (opt_Only opts) = 0 \<or> res_Name r \<in> set (opt_Only opts))) all)"

definition mount_of :: "Env \<Rightarrow> 'x runner \<Rightarrow> MountSpec \<Rightarrow> 'x MountResource" where
  "mount_of env runner m =
     \<lparr>mt_Env = env, mt_Runner = runner, mt_ResourceName = m_Name m, mt_Device = m_Device m, mt_Path = m_Path m,
      mt_FSType = m_FSType m, mt_Options = m_Options m, mt_FstabPersist = m_FstabPersist m\<rparr>"

definition sysctl_of :: "Env \<Rightarrow> Profile \<Rightarrow> SysctlResource" where
  "sysctl_of env p =
     \<lparr>sr_Env = env, sr_Settings = p_Sysctls p, sr_PersistFile = Path env [sysctlPersistFile]\<rparr>"

definition limits_file :: "Env \<Rightarrow> Profile \<Rightarrow> DropInFileResource" where
  "limits_file env p =
     \<lparr>di_ResourceName = ''limits-conf'', di_Path = Path env [limitsPersistFile],
      di_Content = RenderLimitsConf (l_NoFile (p_Limits p)) (l_NProc (p_Limits p)), di_Mode = 0\<rparr>"

definition service_file :: "Env \<Rightarrow> Profile \<Rightarrow> string \<Rightarrow> DropInFileResource" where
  "service_file env p svc =
     \<lparr>di_ResourceName = ''systemd-limits-'' @ svc,
      di_Path = Path env [''etc'', ''systemd'', ''system'', svc @ ''.service.d'', ''99-node-configurator.conf''],
      di_Content = RenderSystemdLimitDropIn (l_NoFile (p_Limits p)), di_Mode = 0\<rparr>"

text \<open>The resources before filtering, in the order of the source.\<close>

definition fixed_resources :: "Env \<Rightarrow> 'x runner \<Rightarrow> Profile \<Rightarrow> 'x world Resource list" where
  "fixed_resources env runner p =
     [sysctlResource (sysctl_of env p),
      kernelModuleResource \<lparr>km_Env = env, km_Modules = p_Modules p,
        km_PersistFile = Path env [modulesPersistFile], km_Runner = runner\<rparr>,
      swapResource \<lparr>sw_Env = env, sw_Runner = runner\<rparr>,
      cgroupV2Resource \<lparr>cg_Env = env\<rparr>]"

definition limit_resources :: "Env \<Rightarrow> Profile \<Rightarrow> 'x world Resource list" where
  "limit_resources env p =
     (if 0 < l_NoFile (p_Limits p)
      then dropInFileResource (limits_file env p)
             # map (\<lambda>svc. dropInFileResource (service_file env p svc)) systemdLimitServices
      else [])"

definition irq_resources :: "Env \<Rightarrow> string \<Rightarrow> Facts \<Rightarrow> Profile \<Rightarrow> 'x world Resource list" where
  "irq_resources env iface f p =
     (if irq_Enabled (p_IRQ p)
      then [irqAffinityResource \<lparr>iq_Env = env, iq_Interface = iface, iq_NumCPUs = VCPUs f\<rparr>] else [])"

definition nic_resources :: "Env \<Rightarrow> 'x runner \<Rightarrow> string \<Rightarrow> Facts \<Rightarrow> Profile \<Rightarrow> 'x world Resource list" where
  "nic_resources env runner iface f p =
     (if n_RingBufferMax (p_NIC p) \<or> n_RPS (p_NIC p) \<or> n_XPS (p_NIC p)
      then [nicResource \<lparr>nic_Env = env, nic_Runner = runner, nic_Interface = iface, nic_NumCPUs = VCPUs f,
              nic_RingBufferMax = n_RingBufferMax (p_NIC p), nic_RPS = n_RPS (p_NIC p), nic_XPS = n_XPS (p_NIC p)\<rparr>]
      else [])"

definition governor_resources :: "Env \<Rightarrow> Profile \<Rightarrow> 'x world Resource list" where
  "governor_resources env p =
     (if p_CPUGovernor p \<noteq> [] then [cpuGovernorResource \<lparr>gv_Env = env, gv_Governor = p_CPUGovernor p\<rparr>] else [])"

definition scheduler_resources :: "Env \<Rightarrow> Profile \<Rightarrow> 'x world Resource list" where
  "scheduler_resources env p =
     (if ios_Enabled (p_IOScheduler p)
      then [ioSchedulerResource \<lparr>io_Env = env, io_Scheduler = ios_Scheduler (p_IOScheduler p)\<rparr>] else [])"

definition all_resources :: "Env \<Rightarrow> 'x runner \<Rightarrow> string \<Rightarrow> Facts \<Rightarrow> Profile \<Rightarrow> 'x world Resource list" where
  "all_resources env runner iface f p =
     fixed_resources env runner p
     @ map (\<lambda>m. mountResource (mount_of env runner m)) (p_Mounts p)
     @ limit_resources env p @ irq_resources env iface f p @ nic_resources env runner iface f p
     @ governor_resources env p @ scheduler_resources env p"

definition engine_Build ::
  "Env \<Rightarrow> 'x runner \<Rightarrow> Facts \<Rightarrow> Profile \<Rightarrow> string list \<Rightarrow> Options \<Rightarrow> 'x world \<Rightarrow> 'x world Resource list" where
  "engine_Build env runner f p disabled opts w =
     filterResources (all_resources env runner (PrimaryInterface env w) f p) disabled opts"

text \<open>One resource of a run.\<close>

definition run_resource :: "Mode \<Rightarrow> 'w Resource \<Rightarrow> 'w \<Rightarrow> Result \<times> 'w" where
  "run_resource mode r w =
     (case res_Check r w of
        ((res, Some err), w1) \<Rightarrow> (res, w1)
      | ((res, None), w1) \<Rightarrow>
          if mode = ModeApply \<and> r_Status res = StatusWouldChange then
            (case res_Apply r w1 of
               (Some applyErr, w2) \<Rightarrow> (res\<lparr>r_Status := StatusFailed, r_Detail := errText applyErr\<rparr>, w2)
             | (None, w2) \<Rightarrow> (res\<lparr>r_Status := StatusChanged\<rparr>, w2))
          else (res, w1))"

fun Run :: "'w Resource list \<Rightarrow> Mode \<Rightarrow> 'w \<Rightarrow> Result list \<times> 'w" where
  "Run [] mode w = ([], w)"
| "Run (r # rs) mode w =
     (let (res, w1) = run_resource mode r w; (results, w2) = Run rs mode w1 in (res # results, w2))"

section \<open>report.go\<close>

definition ExitCode :: "Result list \<Rightarrow> Mode \<Rightarrow> int" where
  "ExitCode results mode =
     (let failed = list_ex (\<lambda>r. r_Status r = StatusFailed) results;
          changed = list_ex (\<lambda>r. Status_Changed (r_Status r)) results
      in if failed then 1 else if mode = ModeCheck \<and> changed then 2 else 0)"

text \<open>
  A writer is a function on the state of an output: it takes a text and may fail. The text form of a
  \<^verbatim>\<open>float64\<close> under \<^verbatim>\<open>%v\<close> is a parameter.
\<close>

type_synonym 'o writer = "string \<Rightarrow> 'o \<Rightarrow> goerror option \<times> 'o"

definition facts_summary :: "(float64 \<Rightarrow> string) \<Rightarrow> Facts \<Rightarrow> string" where
  "facts_summary fmt_v f =
     ''=== Discovered facts (source: '' @ fa_Source f @ '') ==='' @ [NL]
     @ (if InstanceType f \<noteq> []
        then ''Instance:  '' @ InstanceType f @ '' (family '' @ Family f @ '', '' @ Arch f
             @ (if Hypervisor f \<noteq> [] then '', '' @ Hypervisor f @ '' hypervisor'' else []) @ '')'' @ [NL]
        else ''Instance:  unknown (arch '' @ Arch f @ '')'' @ [NL])
     @ (if Region f \<noteq> [] then ''Region:    '' @ Region f @ '' (az '' @ AvailabilityZone f @ '')'' @ [NL] else [])
     @ ''Sizing:    '' @ strconv_Itoa (VCPUs f) @ '' vCPUs, '' @ strconv_Itoa (MemMiB f) @ '' MiB memory, ~''
     @ fmt_v (NetworkBandwidthGbps f) @ '' Gbps network''
     @ (if EnaSupport f then '' (ENA)'' else [])
     @ (if 0 < MaxENIs f then '', maxENIs='' @ strconv_Itoa (MaxENIs f) else []) @ [NL]
     @ ''Storage:   NVMe instance store='' @ fmt_t (NvmeInstanceStore f) @ '', bare metal='' @ fmt_t (BareMetal f) @ [NL]
     @ (if d_ID (fa_Distro f) \<noteq> [] \<or> fa_KernelVersion f \<noteq> []
        then ''Host:      '' @ d_ID (fa_Distro f) @ '' '' @ d_VersionID (fa_Distro f) @ '', kernel ''
             @ fa_KernelVersion f @ [NL]
        else [])"

definition WriteFactsSummary :: "(float64 \<Rightarrow> string) \<Rightarrow> 'o writer \<Rightarrow> Facts \<Rightarrow> 'o \<Rightarrow> goerror option \<times> 'o" where
  "WriteFactsSummary fmt_v put f o' = put (facts_summary fmt_v f) o'"

fun WriteTextReport :: "'o writer \<Rightarrow> Result list \<Rightarrow> 'o \<Rightarrow> goerror option \<times> 'o" where
  "WriteTextReport put [] o' = (None, o')"
| "WriteTextReport put (r # rs) o' =
     (case put (Result_String r @ [NL]) o' of
        (Some err, o1) \<Rightarrow> (Some err, o1)
      | (None, o1) \<Rightarrow> WriteTextReport put rs o1)"

record Report =
  rep_Facts :: Facts
  rep_Results :: "Result list"

text \<open>\<open>encode\<close> is the text of an indented JSON document.\<close>

definition WriteJSONReport ::
  "(Report \<Rightarrow> goerror + string) \<Rightarrow> 'o writer \<Rightarrow> Facts \<Rightarrow> Result list \<Rightarrow> 'o \<Rightarrow> goerror option \<times> 'o" where
  "WriteJSONReport encode put f results o' =
     (case encode \<lparr>rep_Facts = f, rep_Results = results\<rparr> of
        Inl err \<Rightarrow> (Some err, o')
      | Inr doc \<Rightarrow> put (doc @ [NL]) o')"

section \<open>What every resource of the engine promises\<close>

lemma engine_members:
  assumes "r \<in> set (all_resources env runner iface f p)"
  shows "resource_iface r"
proof -
  note ifaces = sysctl.resource_iface_axioms kmod.resource_iface_axioms swap.resource_iface_axioms
    cgroup.resource_iface_axioms mount.resource_iface_axioms dropin.resource_iface_axioms
    irq.resource_iface_axioms nic.resource_iface_axioms governor.resource_iface_axioms
    scheduler.resource_iface_axioms
  from assms show ?thesis
    unfolding all_resources_def fixed_resources_def limit_resources_def irq_resources_def nic_resources_def
      governor_resources_def scheduler_resources_def
    by (auto simp: ifaces split: if_splits)
qed

lemma engine_Build_members:
  "r \<in> set (engine_Build env runner f p disabled opts w) \<Longrightarrow> resource_iface r"
  using engine_members by (auto simp: engine_Build_def filterResources_def Let_def)

lemma Run_Cons: "Run (r # rs) mode w =
    (fst (run_resource mode r w) # fst (Run rs mode (snd (run_resource mode r w))),
     snd (Run rs mode (snd (run_resource mode r w))))"
  by (simp add: case_prod_beta Let_def)

declare Run.simps(2) [simp del]

context resource_iface
begin

lemma run_name: "r_Name (fst (run_resource mode r w)) = res_Name r"
  using result_name[of w] by (auto simp: run_resource_def split: prod.splits option.splits)

text \<open>Applying never leaves a pending change in the report, checking never reports a change made.\<close>

lemma run_status:
  "r_Status (fst (run_resource ModeApply r w)) \<noteq> StatusWouldChange"
  "r_Status (fst (run_resource ModeCheck r w)) \<noteq> StatusChanged"
  using failed_iff_error[of w] check_not_changed[of w]
  by (auto simp: run_resource_def split: prod.splits option.splits)

text \<open>A failed result stands for an error of \<^verbatim>\<open>Check\<close> or of \<^verbatim>\<open>Apply\<close>.\<close>

lemma run_failed:
  "r_Status (fst (run_resource mode r w)) = StatusFailed \<longleftrightarrow>
   chk_error r w \<noteq> None \<or>
   mode = ModeApply \<and> chk_status r w = StatusWouldChange \<and> fst (res_Apply r (snd (res_Check r w))) \<noteq> None"
  using failed_iff_error[of w] by (auto simp: run_resource_def split: prod.splits option.splits)

end

lemma Run_names:
  "\<forall>r \<in> set rs. resource_iface r \<Longrightarrow> map r_Name (fst (Run rs mode w)) = map res_Name rs"
  by (induction rs arbitrary: w) (simp_all add: Run_Cons resource_iface.run_name)

lemma Run_status_apply:
  "\<forall>r \<in> set rs. resource_iface r \<Longrightarrow> \<forall>res \<in> set (fst (Run rs ModeApply w)). r_Status res \<noteq> StatusWouldChange"
  by (induction rs arbitrary: w) (auto simp: Run_Cons resource_iface.run_status)

lemma Run_status_check:
  "\<forall>r \<in> set rs. resource_iface r \<Longrightarrow> \<forall>res \<in> set (fst (Run rs ModeCheck w)). r_Status res \<noteq> StatusChanged"
  by (induction rs arbitrary: w) (auto simp: Run_Cons resource_iface.run_status)

lemma run_check_only: "run_resource ModeCheck (r\<lparr>res_Apply := a\<rparr>) w = run_resource ModeCheck r w"
  by (simp add: run_resource_def split: prod.split option.split)

lemma Run_check_only: "Run (map (\<lambda>r. r\<lparr>res_Apply := a r\<rparr>) rs) ModeCheck w = Run rs ModeCheck w"
  by (induction rs arbitrary: w) (simp_all add: Run_Cons run_check_only)

lemma Run_append: "Run (xs @ ys) mode w =
    (fst (Run xs mode w) @ fst (Run ys mode (snd (Run xs mode w))), snd (Run ys mode (snd (Run xs mode w))))"
  by (induction xs arbitrary: w) (simp_all add: Run_Cons)

section \<open>Check runs\<close>

text \<open>
  What a check run relies on: the two commands used to look at the host, the listing of swap units and
  \<^verbatim>\<open>ethtool -g\<close>, change nothing.
\<close>

definition looks_only :: "'x runner \<Rightarrow> bool" where
  "looks_only runner \<longleftrightarrow>
     (\<forall>w. snd (runner ''systemctl'' [''list-units'', ''--type=swap'', ''--no-legend'', ''--plain''] w) = w) \<and>
     (\<forall>iface w. snd (runner ''ethtool'' [''-g'', iface] w) = w)"

lemma SwapResource_Check_pure:
  assumes "looks_only (sw_Runner r)"
  shows "snd (SwapResource_Check r w) = w"
proof -
  have "snd (activeSwapUnits r w) = w"
    using assms by (simp add: looks_only_def activeSwapUnits_def case_prod_beta split: option.split)
  then show ?thesis by (simp add: SwapResource_Check_def Let_def case_prod_beta split: sum.split)
qed

lemma NICResource_Check_pure:
  assumes "looks_only (nic_Runner r)"
  shows "snd (NICResource_Check r w) = w"
proof -
  have "snd (ringBufferDrift r w) = w"
    using assms by (simp add: looks_only_def ringBufferDrift_def case_prod_beta split: option.split)
  then show ?thesis by (simp add: NICResource_Check_def Let_def case_prod_beta)
qed

lemma engine_check_pure:
  assumes "looks_only runner" "r \<in> set (engine_Build env runner f p disabled opts w0)"
  shows "snd (res_Check r w) = w"
proof -
  from assms(2) have "r \<in> set (all_resources env runner (PrimaryInterface env w0) f p)"
    by (simp add: engine_Build_def filterResources_def Let_def)
  then show ?thesis
    unfolding all_resources_def fixed_resources_def limit_resources_def irq_resources_def nic_resources_def
      governor_resources_def scheduler_resources_def
    using assms(1)
    by (auto simp: sysctlResource_def kernelModuleResource_def swapResource_def cgroupV2Resource_def
        mountResource_def dropInFileResource_def irqAffinityResource_def nicResource_def cpuGovernorResource_def
        ioSchedulerResource_def SwapResource_Check_pure NICResource_Check_pure split: if_splits)
qed

lemma Run_check_results:
  assumes "\<forall>r \<in> set rs. snd (res_Check r w) = w"
  shows "Run rs ModeCheck w = (map (\<lambda>r. chk_result r w) rs, w)"
  using assms
  by (induction rs) (auto simp: Run_Cons run_resource_def split: prod.splits option.splits)

lemma ExitCode_check_results:
  assumes "\<forall>r \<in> set rs. resource_iface r"
  shows "ExitCode (map (\<lambda>r. chk_result r w) rs) ModeCheck =
    (if \<exists>r \<in> set rs. chk_error r w \<noteq> None then 1
     else if \<exists>r \<in> set rs. chk_status r w = StatusWouldChange then 2 else 0)"
  using assms resource_iface.failed_iff_error[of _ w] resource_iface.check_not_changed[of _ w]
  by (auto simp: ExitCode_def Let_def list_ex_iff Status_Changed_def)

section \<open>Properties\<close>

text \<open>
  C6. A check run only looks: if listing swap units and \<^verbatim>\<open>ethtool -g\<close> change nothing, then checking the
  resources of the engine leaves the host exactly as it was, whatever \<^verbatim>\<open>Apply\<close> would have done; every
  resource is judged on that same host, and the exit code is 1 if some \<^verbatim>\<open>Check\<close> failed, else 2 if some
  resource would change, else 0.
\<close>

theorem engine_check_only_looks:
  assumes "looks_only runner" and "rs = engine_Build env runner f p disabled opts w0"
  shows "Run (map (\<lambda>r. r\<lparr>res_Apply := a r\<rparr>) rs) ModeCheck w = (map (\<lambda>r. chk_result r w) rs, w) \<and>
    ExitCode (fst (Run rs ModeCheck w)) ModeCheck =
      (if \<exists>r \<in> set rs. chk_error r w \<noteq> None then 1
       else if \<exists>r \<in> set rs. chk_status r w = StatusWouldChange then 2 else 0)"
proof -
  have "\<forall>r \<in> set rs. snd (res_Check r w) = w" "\<forall>r \<in> set rs. resource_iface r"
    using engine_check_pure[OF assms(1)] engine_Build_members assms(2) by blast+
  from Run_check_results[OF this(1)] ExitCode_check_results[OF this(2), of w] show ?thesis
    by (simp add: Run_check_only)
qed

definition no_commands :: "unit runner" where
  "no_commands name args w = (([], Some (CmdError ''not found'')), w)"

definition bare_world :: "unit world" where
  "bare_world = \<lparr>w_fs = [(''/'', plain_dir)], w_ext = ()\<rparr>"

definition swap_only :: Options where
  "swap_only = \<lparr>opt_Only = [''swap'', ''cgroup-v2''], opt_Skip = []\<rparr>"

definition bare_profile :: Profile where
  "bare_profile =
     \<lparr>p_Sysctls = [(''vm.x'', ''1'')], p_Modules = [], p_Limits = \<lparr>l_NoFile = 0, l_NProc = 0\<rparr>, p_Mounts = [],
      p_HugePages = \<lparr>hp_Enabled = False, hp_Count2M = 0\<rparr>, p_IRQ = \<lparr>irq_Enabled = False\<rparr>,
      p_NIC = \<lparr>n_RingBufferMax = False, n_RPS = False, n_XPS = False\<rparr>, p_CPUGovernor = [],
      p_IOScheduler = \<lparr>ios_Enabled = False, ios_Scheduler = []\<rparr>, p_Swap = \<lparr>swap_Disable = True\<rparr>\<rparr>"

theorem engine_check_only_looks_witness:
  "snd (Run (engine_Build New no_commands zeroFacts bare_profile [] swap_only bare_world) ModeCheck bare_world) =
     bare_world \<and>
   ExitCode (fst (Run (engine_Build New no_commands zeroFacts bare_profile [] swap_only bare_world)
     ModeCheck bare_world)) ModeCheck = 1"
proof -
  let ?rs = "engine_Build New no_commands zeroFacts bare_profile [] swap_only bare_world"
  have "looks_only no_commands" by (simp add: looks_only_def no_commands_def)
  from engine_check_only_looks[OF this refl, where a = res_Apply]
  have "snd (Run ?rs ModeCheck bare_world) = bare_world" by simp
  moreover have "ExitCode (fst (Run ?rs ModeCheck bare_world)) ModeCheck = 1" by code_simp
  ultimately show ?thesis by blast
qed

text \<open>
  C26. The report is complete: every resource the filters let through appears once, in the order of the
  engine and under its own name, whether it failed or not; an apply run leaves no \<^verbatim>\<open>would_change\<close> in it
  and a check run no \<^verbatim>\<open>changed\<close>; an apply run exits with 0 or 1 and a check run with 0, 1 or 2; and a
  failure does not stop the run, since a run over two lists is the run over the first followed by the
  run over the second on the host it left.
\<close>

theorem Run_report_complete:
  "let rs = engine_Build env runner f p disabled opts w0; results = fst (Run rs mode w) in
   map r_Name results = map res_Name rs \<and>
   list_all (\<lambda>res. r_Status res \<noteq> (if mode = ModeApply then StatusWouldChange else StatusChanged)) results \<and>
   ExitCode results mode \<in> (if mode = ModeApply then {0, 1} else {0, 1, 2}) \<and>
   (ExitCode results mode = 1 \<longleftrightarrow> list_ex (\<lambda>res. r_Status res = StatusFailed) results) \<and>
   Run (rs @ rest) mode w =
     (results @ fst (Run rest mode (snd (Run rs mode w))), snd (Run rest mode (snd (Run rs mode w))))"
proof -
  let ?rs = "engine_Build env runner f p disabled opts w0"
  have m: "\<forall>r \<in> set ?rs. resource_iface r" using engine_Build_members by blast
  have "list_all (\<lambda>res. r_Status res \<noteq> (if mode = ModeApply then StatusWouldChange else StatusChanged))
      (fst (Run ?rs mode w))"
    using Run_status_apply[OF m, of w] Run_status_check[OF m, of w] by (cases mode) (simp_all add: list_all_iff)
  with Run_names[OF m, of mode w] show ?thesis
    by (cases mode) (simp_all add: Let_def Run_append ExitCode_def)
qed

text \<open>The names of the engine's resources, in its order, with the mount of a computed profile.\<close>

definition resource_names :: "string list" where
  "resource_names =
     [''sysctl'', ''kernel-modules'', ''swap'', ''cgroup-v2'', ''bpffs-mount'', ''limits-conf'',
      ''systemd-limits-containerd'', ''systemd-limits-kubelet'', ''systemd-limits-cilium'', ''irq-affinity'',
      ''nic-tuning'', ''cpu-governor'', ''io-scheduler'']"

lemmas resource_defs = sysctlResource_def kernelModuleResource_def swapResource_def cgroupV2Resource_def
  mountResource_def dropInFileResource_def irqAffinityResource_def nicResource_def cpuGovernorResource_def
  ioSchedulerResource_def

lemma subseq_distinct: "subseq xs ys \<Longrightarrow> distinct ys \<Longrightarrow> distinct xs"
  by (induction rule: list_emb.induct) (auto dest: list_emb_set)

lemma all_resources_names:
  assumes "p_Mounts p = [bpffsMount]"
  shows "subseq (map res_Name (all_resources env runner iface f p)) resource_names"
proof -
  let ?names = "\<lambda>rs. map res_Name rs"
  have "?names (fixed_resources env runner p) @ ?names (map (\<lambda>m. mountResource (mount_of env runner m)) (p_Mounts p)) =
      take 5 resource_names"
    using assms by (simp add: fixed_resources_def mount_of_def bpffsMount_def resource_names_def resource_defs)
  moreover have "subseq (?names (limit_resources env p)) (take 4 (drop 5 resource_names))"
    by (simp add: limit_resources_def limits_file_def service_file_def systemdLimitServices_def resource_names_def
        resource_defs)
  moreover have "subseq (?names (irq_resources env iface f p)) [''irq-affinity'']"
    "subseq (?names (nic_resources env runner iface f p)) [''nic-tuning'']"
    "subseq (?names (governor_resources env p)) [''cpu-governor'']"
    "subseq (?names (scheduler_resources env p)) [''io-scheduler'']"
    by (simp_all add: irq_resources_def nic_resources_def governor_resources_def scheduler_resources_def resource_defs)
  ultimately have "subseq (?names (all_resources env runner iface f p))
      (take 5 resource_names @ take 4 (drop 5 resource_names) @ [''irq-affinity''] @ [''nic-tuning'']
       @ [''cpu-governor''] @ [''io-scheduler''])"
    unfolding all_resources_def map_append append_assoc[symmetric]
    by (intro list_emb_append_mono) simp_all
  moreover have "take 5 resource_names @ take 4 (drop 5 resource_names) @ [''irq-affinity''] @ [''nic-tuning'']
       @ [''cpu-governor''] @ [''io-scheduler''] = resource_names"
    by (simp add: resource_names_def)
  ultimately show ?thesis by simp
qed

text \<open>
  C27. Resource selection: \<^verbatim>\<open>Build\<close> keeps the order of the engine and lets a resource through exactly when
  it is neither disabled in the configuration nor skipped on the command line and, if \<^verbatim>\<open>-only\<close> names
  any resource, is among those named. In a profile the tool computes, names identify resources: no two
  resources share one.
\<close>

theorem engine_Build_selects:
  "map res_Name (engine_Build env runner f p disabled opts w) =
     filter (\<lambda>n. n \<notin> set disabled \<and> n \<notin> set (opt_Skip opts) \<and> (opt_Only opts = [] \<or> n \<in> set (opt_Only opts)))
       (map res_Name (all_resources env runner (PrimaryInterface env w) f p)) \<and>
   distinct (map res_Name (engine_Build env runner f (profile_Build oor f ov) disabled opts w))"
proof
  show "map res_Name (engine_Build env runner f p disabled opts w) =
     filter (\<lambda>n. n \<notin> set disabled \<and> n \<notin> set (opt_Skip opts) \<and> (opt_Only opts = [] \<or> n \<in> set (opt_Only opts)))
       (map res_Name (all_resources env runner (PrimaryInterface env w) f p))"
    by (simp add: engine_Build_def filterResources_def Let_def filter_map comp_def conj_ac)
  have "distinct resource_names" by (simp add: resource_names_def)
  then have "distinct (map res_Name (all_resources env runner (PrimaryInterface env w) f (profile_Build oor f ov)))"
    by (rule subseq_distinct[OF all_resources_names[OF profile_Build_fields(5)]])
  then show "distinct (map res_Name (engine_Build env runner f (profile_Build oor f ov) disabled opts w))"
    by (simp add: engine_Build_def filterResources_def Let_def distinct_map_filter)
qed

end
