(* ===== verification/Engine_Plan.thy ===== *)
theory Engine_Plan
  imports Engine
begin

text \<open>
  Convergence of whole runs. \<open>tolerant_resource\<close> is the contract of a resource that lives beside others,
  \<open>convergent_plan\<close> that of a list of them, in the order they run; inside it, one apply run that exits 0
  settles the list.
\<close>

section \<open>Plans that converge\<close>

text \<open>
  A resource is quiet when its \<^verbatim>\<open>Check\<close> succeeds and finds no drift.
\<close>

definition quiet :: "'w Resource \<Rightarrow> 'w \<Rightarrow> bool" where
  "quiet r w \<longleftrightarrow> chk_error r w = None \<and> chk_status r w \<noteq> StatusWouldChange"

text \<open>The three ways one resource of an apply run ends.\<close>

lemma run_apply_cases:
  assumes "settling_resource r ok side" "ok w"
  obtains (failed) "r_Status (fst (run_resource ModeApply r w)) = StatusFailed"
  | (quiet) "quiet r w" "run_resource ModeApply r w = (chk_result r w, w)"
  | (applied) w' where "res_Apply r w = (None, w')" "snd (run_resource ModeApply r w) = w'"
proof -
  have pure: "snd (res_Check r w) = w" by (rule settling_resource.check_pure[OF assms])
  obtain res e where c: "res_Check r w = ((res, e), w)" using pure by (metis prod.collapse)
  have f: "r_Status (fst (run_resource ModeApply r w)) = StatusFailed" if "e \<noteq> None"
    using resource_iface.run_failed[OF settling_resource.axioms(1)[OF assms(1)], of ModeApply w] c that by simp
  show thesis
  proof (cases "e = None \<and> r_Status res = StatusWouldChange")
    case True
    obtain ae w' where a: "res_Apply r w = (ae, w')" by force
    show thesis
    proof (cases ae)
      case None
      with a True c show thesis by (intro applied[of w']) (simp_all add: run_resource_def)
    next
      case (Some x)
      with a True c show thesis by (intro failed) (simp add: run_resource_def)
    qed
  next
    case False
    with c f show thesis
      by (cases e) (simp_all add: quiet quiet_def run_resource_def failed)
  qed
qed

lemma quiet_check:
  assumes "resource_iface r" "snd (res_Check r w) = w" "quiet r w"
  shows "run_resource mode r w = (chk_result r w, w) \<and> \<not> Status_Changed (chk_status r w) \<and>
    chk_status r w \<noteq> StatusFailed"
proof -
  obtain res e where c: "res_Check r w = ((res, e), w)" using assms(2) by (metis prod.collapse)
  show ?thesis
    using c assms(3) resource_iface.failed_iff_error[OF assms(1), of w] resource_iface.check_not_changed[OF assms(1), of w]
    by (auto simp: quiet_def run_resource_def Status_Changed_def)
qed

definition quiet_plan :: "'w Resource list \<Rightarrow> 'w \<Rightarrow> bool" where
  "quiet_plan rs w \<longleftrightarrow> (\<forall>r \<in> set rs. resource_iface r \<and> snd (res_Check r w) = w \<and> quiet r w)"

lemma Run_quiet: "quiet_plan rs w \<Longrightarrow> Run rs mode w = (map (\<lambda>r. chk_result r w) rs, w)"
proof (induction rs)
  case (Cons r rs)
  then have q: "resource_iface r" "snd (res_Check r w) = w" "quiet r w" and "quiet_plan rs w"
    by (auto simp: quiet_plan_def)
  from quiet_check[OF q, of mode] Cons.IH[OF \<open>quiet_plan rs w\<close>] show ?case by (simp add: Run_Cons)
qed simp

lemma ExitCode_quiet: "quiet_plan rs w \<Longrightarrow> ExitCode (map (\<lambda>r. chk_result r w) rs) mode = 0"
  using quiet_check[of _ w] by (fastforce simp: ExitCode_def Let_def list_ex_iff quiet_plan_def)

lemma sorted_wrt_subseq: "subseq us vs \<Longrightarrow> sorted_wrt P vs \<Longrightarrow> sorted_wrt P us"
  by (induction rule: list_emb.induct) (auto dest: list_emb_set)

lemma sorted_wrt_pairs:
  "sorted_wrt P xs \<Longrightarrow> x \<in> set xs \<Longrightarrow> y \<in> set xs \<Longrightarrow> x \<noteq> y \<Longrightarrow> P x y \<or> P y x"
  by (induction xs) auto

text \<open>
  A resource that lives beside others. What happens to the host within \<open>keep\<close> leaves what is relied on of
  it intact, what happens within \<open>rely\<close> leaves a settled resource settled and its side condition as it
  was, and the resource's own successful \<^verbatim>\<open>Apply\<close> stays within \<open>guar\<close>.
\<close>

locale tolerant_resource = settling_resource r ok side
  for r :: "'w Resource" and ok :: "'w \<Rightarrow> bool" and side :: "'w \<Rightarrow> bool" +
  fixes keep :: "'w \<Rightarrow> 'w \<Rightarrow> bool" and rely :: "'w \<Rightarrow> 'w \<Rightarrow> bool" and guar :: "'w \<Rightarrow> 'w \<Rightarrow> bool"
  assumes apply_guar: "ok w \<Longrightarrow> res_Apply r w = (None, w') \<Longrightarrow> guar w w'"
    and quiet_rely: "ok w \<Longrightarrow> quiet r w \<Longrightarrow> rely w w' \<Longrightarrow> quiet r w'"
    and side_rely: "rely w w' \<Longrightarrow> side w' \<Longrightarrow> side w"
    and ok_keep: "ok w \<Longrightarrow> keep w w' \<Longrightarrow> ok w'"

text \<open>
  A plan: tolerant resources in the order they run. Each stays within what the others need kept, and within
  what the ones before it rely on to stay settled.
\<close>

locale convergent_plan =
  fixes ts :: "'t list" and res :: "'t \<Rightarrow> 'w Resource" and ok :: "'t \<Rightarrow> 'w \<Rightarrow> bool" and side :: "'t \<Rightarrow> 'w \<Rightarrow> bool"
    and keep :: "'t \<Rightarrow> 'w \<Rightarrow> 'w \<Rightarrow> bool" and rely :: "'t \<Rightarrow> 'w \<Rightarrow> 'w \<Rightarrow> bool"
    and guar :: "'t \<Rightarrow> 'w \<Rightarrow> 'w \<Rightarrow> bool"
  assumes member: "t \<in> set ts \<Longrightarrow> tolerant_resource (res t) (ok t) (side t) (keep t) (rely t) (guar t)"
    and keeps: "t \<in> set ts \<Longrightarrow> u \<in> set ts \<Longrightarrow> t \<noteq> u \<Longrightarrow> guar t w w' \<Longrightarrow> keep u w w'"
    and order: "sorted_wrt (\<lambda>u t. \<forall>w w'. guar t w w' \<longrightarrow> rely u w w') ts"
begin

lemma member_settling: "t \<in> set ts \<Longrightarrow> settling_resource (res t) (ok t) (side t)"
  using member by (blast dest: tolerant_resource.axioms(1))

text \<open>
  One resource of an apply run: it ends settled if its side condition holds, and what it did is within its
  guarantee.
\<close>

lemma run_settles:
  assumes t: "t \<in> set ts" and ok: "\<forall>u \<in> set ts. ok u w"
    and nf: "r_Status (fst (run_resource ModeApply (res t) w)) \<noteq> StatusFailed"
    and w': "snd (run_resource ModeApply (res t) w) = w'"
  shows "(\<forall>u \<in> set ts. ok u w') \<and> (side t w' \<longrightarrow> quiet (res t) w') \<and> (w' = w \<or> guar t w w')"
proof -
  have okt: "ok t w" using t ok by blast
  note settling = member_settling[OF t]
  from settling okt show ?thesis
  proof (cases rule: run_apply_cases)
    case (applied w1)
    then have ap: "res_Apply (res t) w = (None, w')" using w' by simp
    note g = tolerant_resource.apply_guar[OF member[OF t] okt ap]
    have own: "ok t w'" "side t w' \<longrightarrow> quiet (res t) w'"
      using settling_resource.apply_ok[OF settling okt ap] settling_resource.apply_settles[OF settling okt ap]
      by (simp_all add: quiet_def)
    have "ok u w'" if u: "u \<in> set ts" for u
      using own keeps[OF t u _ g] tolerant_resource.ok_keep[OF member[OF u]] ok u by (cases "u = t") auto
    with own g show ?thesis by blast
  qed (use nf w' ok in auto)
qed

text \<open>What a run leaves of a resource that relies on nothing the run does.\<close>

abbreviation outlasts :: "'t list \<Rightarrow> 't \<Rightarrow> bool" where
  "outlasts us v \<equiv> \<forall>t \<in> set us. \<forall>x y. guar t x y \<longrightarrow> rely v x y"

lemma Run_settles:
  assumes "subseq us ts" "\<forall>u \<in> set ts. ok u w" "snd (Run (map res us) ModeApply w) = w'"
    and "\<forall>x \<in> set (fst (Run (map res us) ModeApply w)). r_Status x \<noteq> StatusFailed"
    and "sorted_wrt (\<lambda>u t. \<forall>w w'. guar t w w' \<longrightarrow> rely u w w') us"
  shows "(\<forall>u \<in> set ts. ok u w') \<and> (\<forall>u \<in> set us. side u w' \<longrightarrow> quiet (res u) w') \<and>
    (\<forall>v \<in> set ts. outlasts us v \<longrightarrow> (side v w' \<longrightarrow> side v w) \<and> (quiet (res v) w \<longrightarrow> quiet (res v) w'))"
  using assms
proof (induction us arbitrary: w)
  case (Cons t us)
  define w1 where "w1 = snd (run_resource ModeApply (res t) w)"
  from Cons.prems(1) have t: "t \<in> set ts" and us: "subseq us ts"
    by (auto dest: list_emb_set subseq_Cons')
  from Cons.prems(3,4) have nf: "r_Status (fst (run_resource ModeApply (res t) w)) \<noteq> StatusFailed"
    and rest: "snd (Run (map res us) ModeApply w1) = w'"
      "\<forall>x \<in> set (fst (Run (map res us) ModeApply w1)). r_Status x \<noteq> StatusFailed"
    by (simp_all add: Run_Cons w1_def)
  from run_settles[OF t Cons.prems(2) nf w1_def[symmetric]]
  have s: "\<forall>u \<in> set ts. ok u w1" "side t w1 \<longrightarrow> quiet (res t) w1" "w1 = w \<or> guar t w w1" by simp_all
  from Cons.prems(5) have after: "outlasts us t"
    and sorted: "sorted_wrt (\<lambda>u t. \<forall>w w'. guar t w w' \<longrightarrow> rely u w w') us" by simp_all
  note ih = Cons.IH[OF us s(1) rest sorted]
  have "(side v w' \<longrightarrow> side v w) \<and> (quiet (res v) w \<longrightarrow> quiet (res v) w')"
    if v: "v \<in> set ts" "outlasts (t # us) v" for v
  proof -
    have "ok v w" "w1 = w \<or> rely v w w1" using s(3) v Cons.prems(2) by auto
    then have "(side v w1 \<longrightarrow> side v w) \<and> (quiet (res v) w \<longrightarrow> quiet (res v) w1)"
      using tolerant_resource.quiet_rely[OF member[OF v(1)]] tolerant_resource.side_rely[OF member[OF v(1)]] by blast
    with ih v show ?thesis by auto
  qed
  moreover have "side t w' \<longrightarrow> quiet (res t) w'" using ih t after s(2) by blast
  ultimately show ?case using ih by auto
qed simp

text \<open>
  After one apply run that exits 0 over some of the resources of the plan, each of them whose side condition
  holds is settled.
\<close>

lemma plan_settles:
  assumes us: "subseq us ts" and ok: "\<forall>u \<in> set ts. ok u w"
    and run: "Run (map res us) ModeApply w = (results, w')" and code: "ExitCode results ModeApply = 0"
  shows "(\<forall>u \<in> set ts. ok u w') \<and> (\<forall>u \<in> set us. side u w' \<longrightarrow> quiet (res u) w')"
proof -
  have nf: "\<forall>x \<in> set (fst (Run (map res us) ModeApply w)). r_Status x \<noteq> StatusFailed"
    using run code by (auto simp: ExitCode_def Let_def list_ex_iff split: if_splits)
  from run have "snd (Run (map res us) ModeApply w) = w'" by simp
  from Run_settles[OF us ok this nf sorted_wrt_subseq[OF us order]] show ?thesis by blast
qed

text \<open>
  Once they are, and whatever happens to the host within what they tolerate, every run over them, in
  either mode, leaves the host alone and exits 0.
\<close>

lemma plan_idle:
  assumes us: "subseq us ts" and "\<forall>u \<in> set ts. ok u w" "\<forall>u \<in> set us. quiet (res u) w"
    and tol: "w' = w \<or> (\<forall>u \<in> set us. keep u w w' \<and> rely u w w')"
  shows "\<exists>reports. Run (map res us) mode w' = (reports, w') \<and> ExitCode reports mode = 0"
proof -
  have "resource_iface (res u) \<and> snd (res_Check (res u) w') = w' \<and> quiet (res u) w'" if u: "u \<in> set us" for u
  proof -
    from us u have t: "u \<in> set ts" by (auto dest: list_emb_set)
    with u assms(2,3) tol tolerant_resource.quiet_rely[OF member[OF t], of w w']
      tolerant_resource.ok_keep[OF member[OF t], of w w']
    have "ok u w'" "quiet (res u) w'" by blast+
    with member_settling[OF t] show ?thesis
      using settling_resource.check_pure[of "res u" "ok u" "side u" w'] settling_resource.axioms(1) by blast
  qed
  then have "quiet_plan (map res us) w'" by (auto simp: quiet_plan_def)
  from Run_quiet[OF this, of mode] ExitCode_quiet[OF this, of mode] show ?thesis by simp
qed

theorem plan_converges:
  assumes us: "subseq us ts" and ok: "\<forall>u \<in> set ts. ok u w"
    and run: "Run (map res us) ModeApply w = (results, w')" and code: "ExitCode results ModeApply = 0"
    and side: "\<forall>u \<in> set us. side u w'"
  shows "\<exists>reports. Run (map res us) mode w' = (reports, w') \<and> ExitCode reports mode = 0"
  using plan_settles[OF us ok run code] plan_idle[OF us] side by blast

end

end
