(* ===== verification/Regions.thy ===== *)
theory Regions
  imports Engine_Plan
begin

text \<open>
  Which parts of the file tree a resource looks at and which it changes. A region is given by path
  components below the root: \<open>under ys\<close> is the subtree there, \<open>above xs\<close> the path itself and the directories
  it lies in. Two operations are independent if no changed path lies in a subtree the other looks at,
  which is a matter of prefixes of component lists.
\<close>

section \<open>Subtrees and ancestors\<close>

definition under :: "string list \<Rightarrow> string set" where
  "under ys = {q. q = Path New ys \<or> strings_HasPrefix q (Path New ys @ ''/'')}"

definition above :: "string list \<Rightarrow> string set" where
  "above xs = up_chain (Path New xs)"

abbreviation plain :: "string list \<Rightarrow> bool" where
  "plain cs \<equiv> list_all plain_comp cs"

lemma rooted_New [simp]: "rooted (env_root New)"
  by (simp add: New_def env_root_def rooted_def)

lemma root_comps_New [simp]: "root_comps New = []"
  by code_simp

lemma Path_New: "plain cs \<Longrightarrow> Path New cs = render_path True cs"
  by (simp add: Path_rooted list_all_iff)

lemma under_self [simp]: "Path New ys \<in> under ys"
  by (simp add: under_def)

lemma HasPrefix_iff: "strings_HasPrefix q u \<longleftrightarrow> (\<exists>v. q = u @ v)"
  unfolding strings_HasPrefix_def by (metis append_eq_conv_conj append_take_drop_id)

lemma splitOn_Path:
  assumes "plain zs" "zs \<noteq> []"
  shows "splitOn (CHR ''/'') (Path New zs) = [] # zs"
proof -
  have "splitOn (CHR ''/'') (strings_Join zs ''/'') = zs"
    using assms by (intro splitOn_Join) (auto simp: list_all_iff plain_comp_def)
  then show ?thesis using assms by (simp add: Path_New render_path_def)
qed

lemma under_prefix:
  assumes "plain zs" "plain ys" "ys \<noteq> []" "Path New zs \<in> under ys"
  shows "prefix ys zs"
proof (cases "Path New zs = Path New ys")
  case True
  then have "zs = ys" using assms(1,2) by (intro Path_inj[of _ _ New]) (simp_all add: list_all_iff)
  then show ?thesis by simp
next
  case False
  with assms(4) obtain v where v: "Path New zs = Path New ys @ ''/'' @ v"
    by (auto simp: under_def HasPrefix_iff)
  have "splitOn (CHR ''/'') (Path New zs) = ([] # ys) @ splitOn (CHR ''/'') v"
    using splitOn_append_full[of "CHR ''/''" "Path New ys" v] splitOn_Path[OF assms(2,3)] v by simp
  moreover have "zs \<noteq> []"
  proof
    assume "zs = []"
    then have "splitOn (CHR ''/'') (Path New zs) = [[], []]" by (simp add: Path_New render_path_def)
    with calculation have "ys @ splitOn (CHR ''/'') v = [[]]" by simp
    with assms(2,3) show False by (cases ys) (auto simp: plain_comp_def)
  qed
  ultimately show ?thesis using splitOn_Path[OF assms(1)] by simp
qed

lemma under_above:
  assumes "plain xs" "plain ys" "ys \<noteq> []" "q \<in> under ys" "q \<in> above xs"
  shows "prefix ys xs"
proof -
  have "q \<in> up_chain (render_path True xs)" using assms(1,5) by (simp add: above_def Path_New)
  then obtain n where "q = render_path True (take n xs)"
    using up_chain_render[of xs q] assms(1) by (auto simp: list_all_iff)
  moreover have t: "plain (take n xs)" using assms(1) by (auto simp: list_all_iff dest: in_set_takeD)
  ultimately have "Path New (take n xs) \<in> under ys" using assms(4) by (simp add: Path_New)
  from under_prefix[OF t assms(2,3) this] show ?thesis
    using take_is_prefix prefix_order.order_trans by blast
qed

lemma Path_below:
  assumes "plain (ys @ zs)" "ys \<noteq> []"
  shows "Path New (ys @ zs) \<in> under ys"
proof (cases "zs = []")
  case False
  have "render_path True (ys @ zs) = render_path True ys @ ''/'' @ strings_Join zs ''/''"
    using strings_Join_append[of ys zs "''/''"] assms(2) False by (simp add: render_path_def)
  with assms show ?thesis by (simp add: under_def HasPrefix_iff Path_New)
qed (use assms in simp)

lemma under_trans: "d \<in> under ys \<Longrightarrow> q = d \<or> strings_HasPrefix q (d @ ''/'') \<Longrightarrow> q \<in> under ys"
  unfolding under_def by (auto simp: HasPrefix_iff)

section \<open>Agreement on a region\<close>

definition agree :: "string list set \<Rightarrow> 'x world \<Rightarrow> 'x world \<Rightarrow> bool" where
  "agree Y w w' \<longleftrightarrow> (\<forall>ys \<in> Y. \<forall>q \<in> under ys. node_at w' q = node_at w q)"

lemma agree_node: "agree Y w w' \<Longrightarrow> ys \<in> Y \<Longrightarrow> q \<in> under ys \<Longrightarrow> node_at w' q = node_at w q"
  by (simp add: agree_def)

lemma agree_Path: "agree Y w w' \<Longrightarrow> ys \<in> Y \<Longrightarrow> node_at w' (Path New ys) = node_at w (Path New ys)"
  by (simp add: agree_def)

lemma agree_below:
  "agree Y w w' \<Longrightarrow> ys \<in> Y \<Longrightarrow> plain (ys @ zs) \<Longrightarrow> ys \<noteq> [] \<Longrightarrow>
   node_at w' (Path New (ys @ zs)) = node_at w (Path New (ys @ zs))"
  by (erule (1) agree_node) (rule Path_below)

lemma child_names_agree:
  assumes "agree Y w w'" "ys \<in> Y" "d \<in> under ys" "d \<noteq> ''/''"
  shows "child_names w' d = child_names w d"
proof (rule child_names_cong)
  fix q r
  assume "child_name d q = Some r"
  from child_name_eq[OF this] assms(4) have "q = d @ ''/'' @ r" by simp
  then have "q \<in> under ys" using under_trans[OF assms(3)] by (simp add: HasPrefix_iff)
  then show "(node_at w' q = None) = (node_at w q = None)" using agree_node[OF assms(1,2)] by simp
qed

lemma glob_dir_agree:
  assumes "agree Y w w'" "ys \<in> Y" "d \<in> under ys" "d \<noteq> ''/''"
  shows "glob_dir ps w' d = glob_dir ps w d"
  using child_names_agree[OF assms] agree_node[OF assms(1-3)]
  by (simp add: glob_dir_def split: option.split node.split)

lemma glob_level_agree:
  "agree Y w w' \<Longrightarrow> ys \<in> Y \<Longrightarrow> \<forall>d \<in> set ds. d \<in> under ys \<and> d \<noteq> ''/'' \<Longrightarrow> glob_level ps w' ds = glob_level ps w ds"
  unfolding glob_level_def by (induction ds) (simp_all add: glob_dir_agree)

lemma os_ReadDir_agree:
  assumes "agree Y w w'" "ys \<in> Y" "Path New ys \<noteq> ''/''" "node_at w (Path New ys) \<noteq> None"
  shows "os_ReadDir (Path New ys) w' = os_ReadDir (Path New ys) w"
  using child_names_agree[OF assms(1,2) under_self assms(3)] agree_Path[OF assms(1,2)] assms(4)
  by (auto simp: os_ReadDir_def split: node.split option.split)

text \<open>The directories a pattern walks through below \<open>base\<close>.\<close>

definition in_tree :: "string list \<Rightarrow> string \<Rightarrow> bool" where
  "in_tree base d \<longleftrightarrow> (\<exists>zs. plain (base @ zs) \<and> d = Path New (base @ zs))"

lemma in_tree_under: "base \<noteq> [] \<Longrightarrow> in_tree base d \<Longrightarrow> d \<in> under base \<and> d \<noteq> ''/''"
  unfolding in_tree_def using Path_below Path_not_root[of New] by (auto simp: list_all_iff)

lemma in_tree_Join:
  assumes "in_tree base d" "plain_comp n"
  shows "in_tree base (filepath_Join [d, n])"
proof -
  from assms(1) obtain zs where zs: "plain (base @ zs)" "d = Path New (base @ zs)" by (auto simp: in_tree_def)
  with Path_Join[of New "base @ zs" n] assms(2) have "filepath_Join [d, n] = Path New (base @ zs @ [n])"
    by (simp add: list_all_iff)
  with zs assms(2) show ?thesis unfolding in_tree_def by (intro exI[of _ "zs @ [n]"]) simp
qed

lemma in_tree_base: "plain (base @ zs) \<Longrightarrow> in_tree base (Path New (base @ zs))"
  unfolding in_tree_def by blast

lemma in_tree_node: "agree Y w w' \<Longrightarrow> base \<in> Y \<Longrightarrow> base \<noteq> [] \<Longrightarrow> in_tree base d \<Longrightarrow> node_at w' d = node_at w d"
  using agree_node in_tree_under by blast

lemma glob_level_tree:
  assumes "\<forall>d \<in> set ds. in_tree base d" "c \<noteq> CHR ''.''" "x \<in> set (glob_level (PChar c # ps) w ds)"
  shows "in_tree base x"
proof -
  from assms(3) obtain d n where d: "d \<in> set ds" "n \<in> set (child_names w d)" "glob_match (PChar c # ps) n"
    "x = filepath_Join [d, n]"
    by (auto simp: glob_level_def glob_dir_def split: option.splits node.splits)
  from d(2) have "CHR ''/'' \<notin> set n"
    by (auto simp: set_child_names child_name_def Let_def split: if_splits)
  with d(3) assms(2) have "plain_comp n" by (auto simp: plain_comp_def split: list.splits)
  with d(1,4) assms(1) show ?thesis by (simp add: in_tree_Join)
qed

lemma glob_level_same:
  "agree Y w w' \<Longrightarrow> base \<in> Y \<Longrightarrow> base \<noteq> [] \<Longrightarrow> \<forall>d \<in> set ds. in_tree base d \<Longrightarrow> glob_level ps w' ds = glob_level ps w ds"
  using glob_level_agree in_tree_under by blast

section \<open>Changes within a region\<close>

text \<open>\<open>changes M X w w'\<close>: among the paths of \<open>M\<close>, only those above some \<open>xs\<close> of \<open>X\<close> may have changed.\<close>

definition changes :: "string set \<Rightarrow> string list set \<Rightarrow> 'x world \<Rightarrow> 'x world \<Rightarrow> bool" where
  "changes M X w w' \<longleftrightarrow> (\<forall>q \<in> M. (\<forall>xs \<in> X. q \<notin> above xs) \<longrightarrow> node_at w' q = node_at w q)"

lemma changes_refl [simp]: "changes M X w w"
  by (simp add: changes_def)

lemma changes_trans: "changes M X u v \<Longrightarrow> changes M X v w \<Longrightarrow> changes M X u w"
  by (simp add: changes_def)

lemma changes_mono: "changes M X w w' \<Longrightarrow> X \<subseteq> Z \<Longrightarrow> changes M Z w w'"
  unfolding changes_def by blast

lemma changes_fs: "w_fs w' = w_fs w \<Longrightarrow> changes M X w w'"
  by (simp add: changes_def node_at_def)

lemma only_touches_changes:
  assumes "only_touches P w w'" "P \<subseteq> Path New ` X"
  shows "changes M X w w'"
  unfolding changes_def
proof (intro ballI impI)
  fix q
  assume "\<forall>xs \<in> X. q \<notin> above xs"
  with assms(2) have "\<forall>p \<in> P. q \<notin> up_chain p" by (auto simp: above_def)
  with assms(1) show "node_at w' q = node_at w q" by (rule only_touches_same)
qed

lemma changes_agree:
  assumes "changes M X w w'" "\<forall>ys \<in> Y. under ys \<subseteq> M" "\<forall>xs \<in> X. plain xs" "\<forall>ys \<in> Y. plain ys \<and> ys \<noteq> []"
    and "\<forall>xs \<in> X. \<forall>ys \<in> Y. \<not> prefix ys xs"
  shows "agree Y w w'"
  unfolding agree_def
proof (intro ballI)
  fix ys q
  assume ys: "ys \<in> Y" and q: "q \<in> under ys"
  have "q \<notin> above xs" if "xs \<in> X" for xs
    using under_above[of xs ys q] assms(3-5) ys q that by blast
  with assms(1,2) ys q show "node_at w' q = node_at w q" by (auto simp: changes_def)
qed

end
