(* ===== verification/Engine_Tasks.thy ===== *)
theory Engine_Tasks
  imports Regions
begin

text \<open>
  The engine's resources as tasks: each resource with what it relies on, the regions it looks at and the
  regions it changes. For every one of them: what leaves its regions alone leaves it settled, and its own
  successful \<^verbatim>\<open>Apply\<close> stays within its regions.
\<close>

section \<open>Commands\<close>

text \<open>What the listing of swap units and \<^verbatim>\<open>ethtool -g\<close> say about a host.\<close>

definition units :: "'x runner \<Rightarrow> 'x world \<Rightarrow> string list" where
  "units runner w = fst (activeSwapUnits \<lparr>sw_Env = New, sw_Runner = runner\<rparr> w)"

definition ring :: "'x runner \<Rightarrow> string \<Rightarrow> 'x world \<Rightarrow> string \<times> goerror option" where
  "ring runner iface w = fst (runner ''ethtool'' [''-g'', iface] w)"

text \<open>
  The commands with which the tool changes the host, \<^verbatim>\<open>modprobe\<close> excepted, and the kernel table each is meant
  to change.
\<close>

definition tool_command :: "'x runner \<Rightarrow> string \<Rightarrow> string \<Rightarrow> string list \<Rightarrow> bool" where
  "tool_command runner iface name args \<longleftrightarrow>
     name = ''swapoff'' \<and> args = [''-a''] \<or>
     name = ''systemctl'' \<and> (\<exists>unit. args = [''mask'', unit]) \<or>
     name = ''mount'' \<and> args = mount_args (mount_of New runner bpffsMount) \<or>
     name = ''ethtool'' \<and> (\<exists>settings. args = [''-G'', iface] @ settings)"

definition own_table :: "string \<Rightarrow> string list set" where
  "own_table name =
     (if name = ''swapoff'' then {[''proc'', ''swaps'']}
      else if name = ''mount'' then {[''proc'', ''mounts'']}
      else {})"

text \<open>
  What a whole run relies on of these commands, beyond that each does its job: the two listings change
  nothing and do not depend on the files the tool writes; and when one of the commands succeeds, then among
  the files \<open>M\<close> the tool looks at it has changed at most its own table, only \<^verbatim>\<open>swapoff\<close> and \<^verbatim>\<open>systemctl mask\<close> have
  affected the listed swap units, and only \<^verbatim>\<open>ethtool -G\<close> the rings. Each of these is what the command is
  documented to do: \<^verbatim>\<open>swapoff\<close> stops swapping, \<^verbatim>\<open>systemctl mask\<close> links a unit file to \<^verbatim>\<open>/dev/null\<close>, \<^verbatim>\<open>mount\<close>
  attaches one filesystem, \<^verbatim>\<open>ethtool -G\<close> sets ring sizes. Nothing is assumed of \<^verbatim>\<open>modprobe\<close>: loading a module
  can bring any file below \<^verbatim>\<open>/proc/sys\<close> and \<^verbatim>\<open>/sys\<close> into being.
\<close>

definition tame_commands :: "'x runner \<Rightarrow> string \<Rightarrow> string set \<Rightarrow> bool" where
  "tame_commands runner iface M \<longleftrightarrow>
     looks_only runner \<and>
     (\<forall>w w'. w_ext w' = w_ext w \<longrightarrow> units runner w' = units runner w \<and> ring runner iface w' = ring runner iface w) \<and>
     (\<forall>name args w out w'. tool_command runner iface name args \<longrightarrow> runner name args w = ((out, None), w') \<longrightarrow>
        changes M (own_table name) w w' \<and>
        (name \<notin> {''swapoff'', ''systemctl''} \<longrightarrow> units runner w' = units runner w) \<and>
        (name \<noteq> ''ethtool'' \<longrightarrow> ring runner iface w' = ring runner iface w))"

definition swapfree :: "'x world \<Rightarrow> bool" where
  "swapfree w \<longleftrightarrow> \<not> fstabHasActiveSwapLines (fstabContent New w)"

section \<open>Tasks\<close>

text \<open>
  A task: a resource with what it relies on (\<open>t_ok\<close>), what has to have come about by itself for it to be
  settled (\<open>t_side\<close>), the regions it looks at, those of them it relies on, and those it changes; and whether
  swap units and rings concern it.
\<close>

record 'x task =
  t_res :: "'x world Resource"
  t_ok :: "'x world \<Rightarrow> bool"
  t_side :: "'x world \<Rightarrow> bool"
  t_view :: "string list set"
  t_keep :: "string list set"
  t_foot :: "string list set"
  t_units :: bool
  t_ring :: bool

definition task_keep :: "'x task \<Rightarrow> 'x world \<Rightarrow> 'x world \<Rightarrow> bool" where
  "task_keep t w w' \<longleftrightarrow> agree (t_keep t) w w'"

definition task_rely :: "'x runner \<Rightarrow> string \<Rightarrow> 'x task \<Rightarrow> 'x world \<Rightarrow> 'x world \<Rightarrow> bool" where
  "task_rely runner iface t w w' \<longleftrightarrow>
     agree (t_view t) w w' \<and> (t_units t \<longrightarrow> units runner w' = units runner w) \<and>
     (t_ring t \<longrightarrow> ring runner iface w' = ring runner iface w) \<and> (swapfree w \<longrightarrow> swapfree w')"

text \<open>
  What a sequence of steps may do: change files above \<open>X\<close>, swap units only if \<open>u\<close>, and rings only if \<open>r\<close>.
\<close>

definition moves :: "'x runner \<Rightarrow> string \<Rightarrow> string set \<Rightarrow> string list set \<Rightarrow> bool \<Rightarrow> bool \<Rightarrow> 'x world \<Rightarrow> 'x world \<Rightarrow> bool" where
  "moves runner iface M X u r w w' \<longleftrightarrow>
     changes M X w w' \<and> (u \<or> units runner w' = units runner w) \<and> (r \<or> ring runner iface w' = ring runner iface w)"

definition task_guar :: "'x runner \<Rightarrow> string \<Rightarrow> string set \<Rightarrow> 'x task \<Rightarrow> 'x world \<Rightarrow> 'x world \<Rightarrow> bool" where
  "task_guar runner iface M t w w' \<longleftrightarrow>
     moves runner iface M (t_foot t) (t_units t) (t_ring t) w w' \<and> (swapfree w \<longrightarrow> swapfree w')"

definition conf_name :: string where
  "conf_name = ''99-node-configurator.conf''"

definition sysctl_comps :: "Profile \<Rightarrow> string list set" where
  "sysctl_comps p = (\<lambda>k. [''proc'', ''sys''] @ sysctl_elems k) ` fst ` set (p_Sysctls p)"

definition modules_of :: "'x runner \<Rightarrow> Profile \<Rightarrow> 'x KernelModuleResource" where
  "modules_of runner p = \<lparr>km_Env = New, km_Modules = p_Modules p, km_PersistFile = Path New [modulesPersistFile],
     km_Runner = runner\<rparr>"

definition sysctl_task :: "Profile \<Rightarrow> 'x task" where
  "sysctl_task p =
     \<lparr>t_res = sysctlResource (sysctl_of New p),
      t_ok = (\<lambda>w. sysctl_separate (sysctl_of New p) \<and> sysctl_echoes (sysctl_of New p) w),
      t_side = (\<lambda>w. True),
      t_view = insert [''etc'', ''sysctl.d'', conf_name] (sysctl_comps p), t_keep = sysctl_comps p,
      t_foot = insert [''etc'', ''sysctl.d'', conf_name] (sysctl_comps p), t_units = False, t_ring = False\<rparr>"

definition kmod_task :: "'x runner \<Rightarrow> Profile \<Rightarrow> 'x task" where
  "kmod_task runner p =
     \<lparr>t_res = kernelModuleResource (modules_of runner p),
      t_ok = (\<lambda>w. modules_listed (modules_of runner p) w \<and>
        km_PersistFile (modules_of runner p) \<noteq> Path (km_Env (modules_of runner p)) [''proc'', ''modules'']),
      t_side = (\<lambda>w. True),
      t_view = {[''proc'', ''modules''], [''etc'', ''modules-load.d'', conf_name]}, t_keep = {[''proc'', ''modules'']},
      t_foot = {[''etc'', ''modules-load.d'', conf_name]}, t_units = False, t_ring = False\<rparr>"

definition fstab_comps :: "string list set" where
  "fstab_comps = {[''etc'', ''fstab''], [''etc'', ''fstab.node-configurator.orig'']}"

definition swap_task :: "'x runner \<Rightarrow> 'x task" where
  "swap_task runner =
     \<lparr>t_res = swapResource \<lparr>sw_Env = New, sw_Runner = runner\<rparr>,
      t_ok = (\<lambda>w. swap_commands \<lparr>sw_Env = New, sw_Runner = runner\<rparr>), t_side = (\<lambda>w. units runner w = []),
      t_view = {[''proc'', ''swaps'']}, t_keep = {}, t_foot = insert [''proc'', ''swaps''] fstab_comps,
      t_units = True, t_ring = False\<rparr>"

definition cgroup_task :: "'x task" where
  "cgroup_task = \<lparr>t_res = cgroupV2Resource \<lparr>cg_Env = New\<rparr>, t_ok = (\<lambda>w. True), t_side = (\<lambda>w. True), t_view = {}, t_keep = {}, t_foot = {},
     t_units = False, t_ring = False\<rparr>"

definition mount_task :: "'x runner \<Rightarrow> 'x task" where
  "mount_task runner =
     \<lparr>t_res = mountResource (mount_of New runner bpffsMount),
      t_ok = (\<lambda>w. mount_mounts (mount_of New runner bpffsMount) \<and>
        (mt_FstabPersist (mount_of New runner bpffsMount) \<longrightarrow> fstab_fields (mount_of New runner bpffsMount))),
      t_side = (\<lambda>w. True),
      t_view = {[''proc'', ''mounts''], [''etc'', ''fstab'']}, t_keep = {},
      t_foot = {[''proc'', ''mounts''], [''sys'', ''fs'', ''bpf'']} \<union> fstab_comps, t_units = False, t_ring = False\<rparr>"

definition file_task :: "DropInFileResource \<Rightarrow> string list \<Rightarrow> 'x task" where
  "file_task d cs = \<lparr>t_res = dropInFileResource d, t_ok = (\<lambda>w. True), t_side = (\<lambda>w. True), t_view = {cs}, t_keep = {}, t_foot = {cs},
     t_units = False, t_ring = False\<rparr>"

definition irq_of :: "string \<Rightarrow> Facts \<Rightarrow> IRQAffinityResource" where
  "irq_of iface f = \<lparr>iq_Env = New, iq_Interface = iface, iq_NumCPUs = VCPUs f\<rparr>"

definition irq_task :: "string \<Rightarrow> Facts \<Rightarrow> 'x task" where
  "irq_task iface f =
     \<lparr>t_res = irqAffinityResource (irq_of iface f), t_ok = irqs_honest (irq_of iface f), t_side = (\<lambda>w. True),
      t_view = {[''proc'', ''interrupts''], [''proc'', ''irq'']}, t_keep = {[''proc'', ''interrupts''], [''proc'', ''irq'']},
      t_foot = {xs. plain xs \<and> prefix [''proc'', ''irq''] xs}, t_units = False, t_ring = False\<rparr>"

definition nic_of :: "'x runner \<Rightarrow> string \<Rightarrow> Facts \<Rightarrow> Profile \<Rightarrow> 'x NICResource" where
  "nic_of runner iface f p =
     \<lparr>nic_Env = New, nic_Runner = runner, nic_Interface = iface, nic_NumCPUs = VCPUs f,
      nic_RingBufferMax = n_RingBufferMax (p_NIC p), nic_RPS = n_RPS (p_NIC p), nic_XPS = n_XPS (p_NIC p)\<rparr>"

definition nic_task :: "'x runner \<Rightarrow> string \<Rightarrow> Facts \<Rightarrow> Profile \<Rightarrow> 'x task" where
  "nic_task runner iface f p =
     \<lparr>t_res = nicResource (nic_of runner iface f p), t_ok = (\<lambda>w. iface = [] \<or> nic_reliable (nic_of runner iface f p) w),
      t_side = (\<lambda>w. True),
      t_view = {[''sys'', ''class'', ''net'']}, t_keep = {[''sys'', ''class'', ''net'']},
      t_foot = {xs. plain xs \<and> prefix [''sys'', ''class'', ''net''] xs}, t_units = False, t_ring = True\<rparr>"

definition governor_of :: "Profile \<Rightarrow> CPUGovernorResource" where
  "governor_of p = \<lparr>gv_Env = New, gv_Governor = p_CPUGovernor p\<rparr>"

definition governor_task :: "Profile \<Rightarrow> 'x task" where
  "governor_task p =
     \<lparr>t_res = cpuGovernorResource (governor_of p), t_ok = governors_honest (governor_of p), t_side = (\<lambda>w. True),
      t_view = {[''sys'', ''devices'', ''system'', ''cpu'']}, t_keep = {[''sys'', ''devices'', ''system'', ''cpu'']},
      t_foot = {xs. plain xs \<and> prefix [''sys'', ''devices'', ''system'', ''cpu''] xs}, t_units = False, t_ring = False\<rparr>"

definition scheduler_of :: "Profile \<Rightarrow> IOSchedulerResource" where
  "scheduler_of p = \<lparr>io_Env = New, io_Scheduler = ios_Scheduler (p_IOScheduler p)\<rparr>"

definition scheduler_task :: "Profile \<Rightarrow> 'x task" where
  "scheduler_task p =
     \<lparr>t_res = ioSchedulerResource (scheduler_of p),
      t_ok = (\<lambda>w. schedulers_honest (scheduler_of p) w \<and> node_at w (Path New [''sys'', ''block'']) \<noteq> None),
      t_side = (\<lambda>w. True), t_view = {[''sys'', ''block'']}, t_keep = {[''sys'', ''block'']},
      t_foot = {xs. plain xs \<and> prefix [''sys'', ''block''] xs}, t_units = False, t_ring = False\<rparr>"

definition service_comps :: "string \<Rightarrow> string list" where
  "service_comps svc = [''etc'', ''systemd'', ''system'', svc @ ''.service.d'', conf_name]"

definition engine_tasks :: "'x runner \<Rightarrow> string \<Rightarrow> Facts \<Rightarrow> Profile \<Rightarrow> 'x task list" where
  "engine_tasks runner iface f p =
     [sysctl_task p, kmod_task runner p, swap_task runner, cgroup_task, mount_task runner,
      file_task (limits_file New p) [''etc'', ''security'', ''limits.d'', conf_name]]
     @ map (\<lambda>svc. file_task (service_file New p svc) (service_comps svc)) systemdLimitServices
     @ [irq_task iface f, nic_task runner iface f p, governor_task p, scheduler_task p]"

text \<open>The files the tool looks at.\<close>

definition managed_comps :: "Profile \<Rightarrow> string list set" where
  "managed_comps p =
     sysctl_comps p \<union> fstab_comps \<union>
     {[''etc'', ''sysctl.d'', conf_name], [''proc'', ''modules''], [''etc'', ''modules-load.d'', conf_name],
      [''proc'', ''swaps''], [''proc'', ''mounts''], [''etc'', ''security'', ''limits.d'', conf_name],
      [''proc'', ''interrupts''], [''proc'', ''irq''], [''sys'', ''class'', ''net''], [''sys'', ''devices'', ''system'', ''cpu''],
      [''sys'', ''block'']} \<union> service_comps ` set systemdLimitServices"

definition managed :: "Profile \<Rightarrow> string set" where
  "managed p = \<Union> (under ` managed_comps p)"

section \<open>Staying settled\<close>

lemma quiet_iff:
  "resource_iface r \<Longrightarrow> quiet r w \<longleftrightarrow> chk_status r w \<noteq> StatusFailed \<and> chk_status r w \<noteq> StatusWouldChange"
  using resource_iface.failed_iff_error[of r w] by (auto simp: quiet_def)

lemma quiet_status:
  "quiet (sysctlResource r1) w \<longleftrightarrow> r_Status (fst (SysctlResource_Check r1 w)) \<notin> {StatusFailed, StatusWouldChange}"
  "quiet (kernelModuleResource r2) w \<longleftrightarrow> r_Status (fst (KernelModuleResource_Check r2 w)) \<notin> {StatusFailed, StatusWouldChange}"
  "quiet (swapResource r3) w \<longleftrightarrow> r_Status (fst (fst (SwapResource_Check r3 w))) \<notin> {StatusFailed, StatusWouldChange}"
  "quiet (mountResource r4) w \<longleftrightarrow> r_Status (fst (MountResource_Check r4 w)) \<notin> {StatusFailed, StatusWouldChange}"
  "quiet (irqAffinityResource r5) w \<longleftrightarrow> r_Status (fst (IRQAffinityResource_Check r5 w)) \<notin> {StatusFailed, StatusWouldChange}"
  "quiet (nicResource r6) w \<longleftrightarrow> r_Status (fst (fst (NICResource_Check r6 w))) \<notin> {StatusFailed, StatusWouldChange}"
  "quiet (cpuGovernorResource r7) w \<longleftrightarrow> r_Status (fst (CPUGovernorResource_Check r7 w)) \<notin> {StatusFailed, StatusWouldChange}"
  "quiet (ioSchedulerResource r8) w \<longleftrightarrow> r_Status (fst (IOSchedulerResource_Check r8 w)) \<notin> {StatusFailed, StatusWouldChange}"
  by (subst quiet_iff, rule sysctl.resource_iface_axioms kmod.resource_iface_axioms swap.resource_iface_axioms
      mount.resource_iface_axioms irq.resource_iface_axioms nic.resource_iface_axioms
      governor.resource_iface_axioms scheduler.resource_iface_axioms, simp add: resource_defs)+

lemma plain_lits:
  "plain [''etc'', ''sysctl.d'', ''security'', ''limits.d'', ''systemd'', ''system'', ''modules-load.d'', ''fstab'',
     ''fstab.node-configurator.orig'', ''99-node-configurator.conf'', ''containerd.service.d'', ''kubelet.service.d'',
     ''cilium.service.d'', ''proc'', ''sys'', ''modules'', ''swaps'', ''mounts'', ''interrupts'', ''irq'', ''smp_affinity_list'',
     ''class'', ''net'', ''devices'', ''cpu'', ''block'', ''fs'', ''bpf'', ''queue'', ''scheduler'', ''queues'']"
  by code_simp

lemma persist_paths:
  "Path New [sysctlPersistFile] = Path New [''etc'', ''sysctl.d'', conf_name]"
  "Path New [modulesPersistFile] = Path New [''etc'', ''modules-load.d'', conf_name]"
  "Path New [limitsPersistFile] = Path New [''etc'', ''security'', ''limits.d'', conf_name]"
  using Path_slashes[of "[''etc'', ''sysctl.d'', conf_name]" New]
    Path_slashes[of "[''etc'', ''modules-load.d'', conf_name]" New]
    Path_slashes[of "[''etc'', ''security'', ''limits.d'', conf_name]" New]
  by (simp_all add: sysctlPersistFile_def modulesPersistFile_def limitsPersistFile_def conf_name_def strings_Join_Cons)

lemma fstab_paths:
  "fstabPath New = Path New [''etc'', ''fstab'']"
  "backupPath (fstabPath New) = Path New [''etc'', ''fstab.node-configurator.orig'']"
  using backupPath_Path[of "[''etc'']" "''fstab''" New] by (simp_all add: fstabPath_def plain_comp_def)

lemma read_agree:
  "node_at w' p = node_at w p \<Longrightarrow> ReadFileString p w = Inr c \<Longrightarrow> ReadFileString p w' = Inr c"
  using os_ReadFile_cong[of w' p w c] by (simp add: ReadFileString_def)

lemma sysctl_stays:
  assumes "agree (t_view (sysctl_task p)) w w'" "quiet (sysctlResource (sysctl_of New p)) w"
  shows "quiet (sysctlResource (sysctl_of New p)) w'"
proof -
  let ?r = "sysctl_of New p"
  let ?keys = "sortedKeys (sr_Settings ?r)"
  have key: "node_at w' (SysctlPath (sr_Env ?r) k) = node_at w (SysctlPath (sr_Env ?r) k)" if "k \<in> set ?keys" for k
    using that agree_Path[OF assms(1), of "[''proc'', ''sys''] @ sysctl_elems k"]
    by (simp add: sysctl_task_def sysctl_comps_def sysctl_of_def SysctlPath_elems)
  have pf: "node_at w' (sr_PersistFile ?r) = node_at w (sr_PersistFile ?r)"
    using agree_Path[OF assms(1), of "[''etc'', ''sysctl.d'', conf_name]"]
    by (simp add: sysctl_task_def sysctl_of_def persist_paths)
  have st: "quiet (sysctlResource ?r) v \<longleftrightarrow>
      list_all (key_settled ?r v) ?keys \<and> \<not> sysctl_persistNeeded ?r v" for v :: "'a world"
    using SysctlResource_Check_cases[of ?r v]
    by (auto simp: quiet_status list_all_iff list_ex_iff key_unreadable_def key_settled_def split: if_splits)
  have "list_all (key_settled ?r w') ?keys" if "list_all (key_settled ?r w) ?keys"
    using that key key_settled_cong[of w' ?r _ w] by (simp add: list_all_iff)
  moreover have "\<not> sysctl_persistNeeded ?r w'" if "\<not> sysctl_persistNeeded ?r w"
    using that read_agree[OF pf] by (auto simp: sysctl_persistNeeded_def split: if_splits sum.splits)
  ultimately show ?thesis using assms(2) by (simp add: st)
qed

lemma kmod_stays:
  assumes "agree (t_view (kmod_task runner p)) w w'" "quiet (kernelModuleResource (modules_of runner p)) w"
  shows "quiet (kernelModuleResource (modules_of runner p)) w'"
proof (cases "p_Modules p = []")
  case True
  then show ?thesis
    by (simp add: quiet_status KernelModuleResource_Check_cases modules_of_def)
next
  case False
  let ?r = "modules_of runner p"
  have n: "node_at w' (Path New [''proc'', ''modules'']) = node_at w (Path New [''proc'', ''modules''])"
    "node_at w' (km_PersistFile ?r) = node_at w (km_PersistFile ?r)"
    using agree_Path[OF assms(1)] by (simp_all add: kmod_task_def modules_of_def persist_paths)
  from assms(2) False obtain l where l: "loadedModules ?r w = Inr l" "set (km_Modules ?r) \<subseteq> set l"
    and pn: "\<not> kmod_persistNeeded ?r w"
    by (auto simp: quiet_status KernelModuleResource_Check_cases
        modules_of_def split: sum.splits if_splits)
  from l(1) obtain ls where "os_OpenScan (Path New [''proc'', ''modules'']) w = Inr (ls, None)"
    "l = concat (map first_field ls)"
    by (auto simp: loadedModules_def modules_of_def split: sum.splits option.splits)
  then have "loadedModules ?r w' = Inr l"
    using os_OpenScan_cong[OF n(1), of "(ls, None)"] by (simp add: loadedModules_def modules_of_def)
  moreover have "\<not> kmod_persistNeeded ?r w'"
    using pn read_agree[OF n(2)] by (auto simp: kmod_persistNeeded_def split: if_splits sum.splits)
  ultimately show ?thesis
    using l(2) by (simp add: quiet_status KernelModuleResource_Check_cases)
qed

lemma swap_stays:
  assumes "task_rely runner iface (swap_task runner) w w'" "quiet (t_res (swap_task runner)) w"
  shows "quiet (t_res (swap_task runner)) w'"
proof -
  let ?r = "\<lparr>sw_Env = New, sw_Runner = runner\<rparr>"
  from assms(1) have a: "agree {[''proc'', ''swaps'']} w w'" and u: "units runner w' = units runner w"
    and f: "swapfree w \<longrightarrow> swapfree w'" by (simp_all add: task_rely_def swap_task_def)
  from assms(2) have q: "activeSwapDevices ?r w = Inr []" "swapfree w" "units runner w = []"
    by (auto simp: swap_task_def quiet_status SwapResource_Check_status swapfree_def units_def split: sum.splits if_splits)
  from q(1) obtain ls where ls: "os_OpenScan (Path New [''proc'', ''swaps'']) w = Inr (ls, None)"
    "concat (map first_field (drop 1 ls)) = []"
    by (auto simp: activeSwapDevices_def split: sum.splits option.splits)
  have "node_at w' (Path New [''proc'', ''swaps'']) = node_at w (Path New [''proc'', ''swaps''])"
    using agree_Path[OF a] by simp
  from os_OpenScan_cong[OF this, of "(ls, None)"] ls have "activeSwapDevices ?r w' = Inr []"
    by (simp add: activeSwapDevices_def)
  with q u f show ?thesis
    by (simp add: swap_task_def quiet_status SwapResource_Check_status swapfree_def units_def)
qed

lemma mount_stays:
  assumes "agree (t_view (mount_task runner)) w w'" "quiet (t_res (mount_task runner)) w"
  shows "quiet (t_res (mount_task runner)) w'"
proof -
  let ?r = "mount_of New runner bpffsMount"
  have "[''proc'', ''mounts''] \<in> t_view (mount_task runner)" "[''etc'', ''fstab''] \<in> t_view (mount_task runner)"
    by (simp_all add: mount_task_def)
  note n' = this[THEN agree_Path[OF assms(1)]]
  have n: "node_at w' (Path New [''proc'', ''mounts'']) = node_at w (Path New [''proc'', ''mounts''])"
    "fstabContent New w' = fstabContent New w"
    by (rule n'(1)) (rule fstabContent_cong[OF n'(2)[folded fstab_paths]])
  have e: "mt_Env ?r = New" by (simp add: mount_of_def)
  from assms(2) have q: "isMounted ?r w = Inr True"
    "mt_FstabPersist ?r \<longrightarrow> fstabLineExists (fstabContent New w) (mt_Path ?r)"
    by (auto simp: mount_task_def quiet_status MountResource_Check_status e split: sum.splits if_splits)
  from q(1) obtain x where "os_OpenScan (Path New [''proc'', ''mounts'']) w = Inr x" "list_ex (mount_line ?r) (fst x)"
    by (auto simp: isMounted_def e split: sum.splits if_splits option.splits)
  with os_OpenScan_cong[OF n(1), of x] have "isMounted ?r w' = Inr True"
    by (simp add: isMounted_def e case_prod_beta)
  with q(2) n(2) show ?thesis by (simp add: mount_task_def quiet_status MountResource_Check_status e)
qed

lemma file_stays:
  assumes "agree {cs} w w'" "di_Path d = Path New cs" "quiet (dropInFileResource d) w"
  shows "quiet (dropInFileResource d) w'"
proof -
  have "node_at w' (di_Path d) = node_at w (di_Path d)" using agree_Path[OF assms(1), of cs] assms(2) by simp
  from read_agree[OF this] assms(3) show ?thesis
    by (auto simp: quiet_def dropInFileResource_def DropInFileResource_Check_def split: if_splits)
qed

text \<open>The interrupt lines, and the files of the interrupts, as seen by the interrupt resource.\<close>

lemma irq_view:
  assumes "agree (t_view (irq_task iface f)) w w'"
  shows "(enaIRQs (irq_of iface f) w' = Inr irqs) = (enaIRQs (irq_of iface f) w = Inr irqs)"
    and "plain_comp irq \<Longrightarrow> node_at w' (affinityPath (irq_of iface f) irq) = node_at w (affinityPath (irq_of iface f) irq)"
proof -
  have n: "node_at w' (Path New [''proc'', ''interrupts'']) = node_at w (Path New [''proc'', ''interrupts''])"
    using agree_Path[OF assms] by (simp add: irq_task_def)
  have "(\<exists>ls. os_OpenScan (Path New [''proc'', ''interrupts'']) v = Inr (ls, None) \<and> irqs =
      map strconv_Itoa (sort (concat (map (irq_line (iface @ ''-'')) ls)))) = (enaIRQs (irq_of iface f) v = Inr irqs)"
    for v :: "'a world"
    by (auto simp: enaIRQs_def irq_of_def split: sum.splits option.splits)
  then show "(enaIRQs (irq_of iface f) w' = Inr irqs) = (enaIRQs (irq_of iface f) w = Inr irqs)"
    using os_OpenScan_cong[OF n] by metis
  assume "plain_comp irq"
  then show "node_at w' (affinityPath (irq_of iface f) irq) = node_at w (affinityPath (irq_of iface f) irq)"
    using agree_below[OF assms, of "[''proc'', ''irq'']" "[irq, ''smp_affinity_list'']"] plain_lits
    by (simp add: irq_task_def irq_of_def affinityPath_def)
qed

lemma irq_stays:
  assumes a: "agree (t_view (irq_task iface f)) w w'" and q: "quiet (t_res (irq_task iface f)) w"
  shows "quiet (t_res (irq_task iface f)) w'"
proof (cases "iface = [] \<or> VCPUs f \<le> 1")
  case True
  then show ?thesis by (simp add: irq_task_def quiet_status IRQAffinityResource_Check_status irq_of_def)
next
  case False
  let ?r = "irq_of iface f"
  from False have g: "iq_Interface ?r \<noteq> []" "\<not> iq_NumCPUs ?r \<le> 1" by (simp_all add: irq_of_def)
  with q obtain irqs where i: "enaIRQs ?r w = Inr irqs"
    and s: "\<forall>irq \<in> set irqs. settled (irq_fine (desiredAffinity ?r irqs) irq) (affinityPath ?r irq) w"
    by (auto simp: irq_task_def quiet_status IRQAffinityResource_Check_status split: sum.splits if_splits)
  have "settled (irq_fine (desiredAffinity ?r irqs) irq) (affinityPath ?r irq) w'" if "irq \<in> set irqs" for irq
    using s that enaIRQs_plain[OF i] settled_cong[OF irq_view(2)[OF a]] by blast
  with i irq_view(1)[OF a, of irqs] g show ?thesis
    by (simp add: irq_task_def quiet_status IRQAffinityResource_Check_status)
qed

lemma irq_keeps:
  assumes a: "agree (t_view (irq_task iface f)) w w'" and h: "irqs_honest (irq_of iface f) w"
  shows "irqs_honest (irq_of iface f) w'"
proof (cases "enaIRQs (irq_of iface f) w'")
  case (Inr irqs)
  with irq_view(1)[OF a, of irqs] have i: "enaIRQs (irq_of iface f) w = Inr irqs" by simp
  with h Inr irq_view(2)[OF a] enaIRQs_plain[OF i] show ?thesis by (simp add: irqs_honest_def)
qed (simp add: irqs_honest_def)

abbreviation cpu_dir :: "string list" where
  "cpu_dir \<equiv> [''sys'', ''devices'', ''system'', ''cpu'']"

lemma governor_levels:
  "\<forall>d \<in> set (glob_level (map PChar ''cpu'' @ [PDigit, PStar]) w [Path New cpu_dir]). in_tree cpu_dir d"
  "\<forall>d \<in> set ds. in_tree cpu_dir d \<Longrightarrow> \<forall>d \<in> set (glob_level (map PChar ''cpufreq'') w ds). in_tree cpu_dir d"
  "\<forall>d \<in> set ds. in_tree cpu_dir d \<Longrightarrow> \<forall>d \<in> set (glob_level (map PChar ''scaling_governor'') w ds). in_tree cpu_dir d"
proof -
  have b: "\<forall>d \<in> set [Path New cpu_dir]. in_tree cpu_dir d"
    using plain_lits in_tree_base[of cpu_dir "[]"] by simp
  show "\<forall>d \<in> set (glob_level (map PChar ''cpu'' @ [PDigit, PStar]) w [Path New cpu_dir]). in_tree cpu_dir d"
    using glob_level_tree[OF b, of "CHR ''c''" _ "map PChar ''pu'' @ [PDigit, PStar]" w] by simp
  assume d: "\<forall>d \<in> set ds. in_tree cpu_dir d"
  show "\<forall>d \<in> set (glob_level (map PChar ''cpufreq'') w ds). in_tree cpu_dir d"
    using glob_level_tree[OF d, of "CHR ''c''" _ "map PChar ''pufreq''" w] by simp
  show "\<forall>d \<in> set (glob_level (map PChar ''scaling_governor'') w ds). in_tree cpu_dir d"
    using glob_level_tree[OF d, of "CHR ''s''" _ "map PChar ''caling_governor''" w] by simp
qed

lemma governor_view:
  assumes "agree {cpu_dir} w w'"
  shows "governorPaths (governor_of p) w' = governorPaths (governor_of p) w"
proof -
  have b: "\<forall>d \<in> set [Path New cpu_dir]. in_tree cpu_dir d"
    using plain_lits in_tree_base[of cpu_dir "[]"] by simp
  note same = glob_level_same[OF assms, of cpu_dir, simplified]
  show ?thesis
    unfolding governorPaths_def governor_of_def
    by (simp only: CPUGovernorResource.simps same[OF b] same[OF governor_levels(1)]
        same[OF governor_levels(2)[OF governor_levels(1)]])
qed

lemma governor_paths_tree: "governorPaths (governor_of p) w = Inr paths \<Longrightarrow> \<forall>x \<in> set paths. in_tree cpu_dir x"
  using governor_levels(3)[OF governor_levels(2)[OF governor_levels(1)], of w w w]
  by (simp add: governorPaths_def governor_of_def)

lemma governor_paths_node:
  assumes "agree {cpu_dir} w w'" "governorPaths (governor_of p) w = Inr paths" "x \<in> set paths"
  shows "node_at w' x = node_at w x"
  using in_tree_node[OF assms(1), of cpu_dir x] governor_paths_tree[OF assms(2)] assms(3) by simp

lemma governor_stays:
  assumes a: "agree {cpu_dir} w w'" and q: "quiet (t_res (governor_task p)) w"
  shows "quiet (t_res (governor_task p)) w'"
proof -
  obtain paths where p: "governorPaths (governor_of p) w = Inr paths" by (simp add: governorPaths_def)
  have "\<forall>x \<in> set paths. settled ok x w' = settled ok x w" for ok
    using settled_cong[OF governor_paths_node[OF a p]] by blast
  with q p governor_view[OF a, of p] show ?thesis
    by (simp add: governor_task_def quiet_status CPUGovernorResource_Check_status split: if_splits)
qed

lemma governor_keeps:
  assumes a: "agree {cpu_dir} w w'" and h: "governors_honest (governor_of p) w"
  shows "governors_honest (governor_of p) w'"
proof -
  obtain paths where p: "governorPaths (governor_of p) w = Inr paths" by (simp add: governorPaths_def)
  with h governor_view[OF a, of p] governor_paths_node[OF a p] show ?thesis by (simp add: governors_honest_def)
qed

lemma scheduler_view:
  assumes a: "agree {[''sys'', ''block'']} w w'" and ex: "node_at w (Path New [''sys'', ''block'']) \<noteq> None"
  shows "nvmeDevices (scheduler_of p) w' = nvmeDevices (scheduler_of p) w"
    and "plain_comp d \<Longrightarrow> node_at w' (schedulerPath (scheduler_of p) d) = node_at w (schedulerPath (scheduler_of p) d)"
proof -
  have nr: "Path New [''sys'', ''block''] \<noteq> ''/''"
    using plain_lits by (intro Path_not_root) (simp_all add: list_all_iff)
  show "nvmeDevices (scheduler_of p) w' = nvmeDevices (scheduler_of p) w"
    using os_ReadDir_agree[OF a _ nr ex] by (simp add: nvmeDevices_def scheduler_of_def)
  assume "plain_comp d"
  then show "node_at w' (schedulerPath (scheduler_of p) d) = node_at w (schedulerPath (scheduler_of p) d)"
    using agree_below[OF a, of "[''sys'', ''block'']" "[d, ''queue'', ''scheduler'']"] plain_lits
    by (simp add: schedulerPath_def scheduler_of_def)
qed

lemma scheduler_stays:
  assumes a: "agree {[''sys'', ''block'']} w w'" and ex: "node_at w (Path New [''sys'', ''block'']) \<noteq> None"
    and q: "quiet (t_res (scheduler_task p)) w"
  shows "quiet (t_res (scheduler_task p)) w'"
proof (cases "nvmeDevices (scheduler_of p) w")
  case (Inr devs)
  have "\<forall>d \<in> set devs. settled ok (schedulerPath (scheduler_of p) d) w' = settled ok (schedulerPath (scheduler_of p) d) w" for ok
    using settled_cong[OF scheduler_view(2)[OF a ex]] nvmeDevices_plain[OF Inr] by blast
  with q Inr scheduler_view(1)[OF a ex, of p] show ?thesis
    by (simp add: scheduler_task_def quiet_status IOSchedulerResource_Check_status split: if_splits)
next
  case (Inl e)
  with q scheduler_view(1)[OF a ex, of p] show ?thesis
    by (simp add: scheduler_task_def quiet_status IOSchedulerResource_Check_status split: if_splits)
qed

lemma scheduler_keeps:
  assumes a: "agree {[''sys'', ''block'']} w w'" and ok: "t_ok (scheduler_task p) w"
  shows "t_ok (scheduler_task p) w'"
proof -
  from ok have h: "schedulers_honest (scheduler_of p) w" and ex: "node_at w (Path New [''sys'', ''block'']) \<noteq> None"
    by (simp_all add: scheduler_task_def)
  have "schedulers_honest (scheduler_of p) w'"
    using h scheduler_view[OF a ex] nvmeDevices_plain[of "scheduler_of p" w]
    by (simp add: schedulers_honest_def split: sum.splits)
  moreover have "node_at w' (Path New [''sys'', ''block'']) \<noteq> None" using ex agree_Path[OF a] by simp
  ultimately show ?thesis by (simp add: scheduler_task_def)
qed

abbreviation net_dir :: "string list" where
  "net_dir \<equiv> [''sys'', ''class'', ''net'']"

lemma queues_tree:
  assumes "plain_comp iface" "direction = ''rx'' \<or> direction = ''tx''"
    and "queueDirs (nic_of runner iface f p) direction w = Inr dirs"
  shows "\<forall>d \<in> set [Path New (queues_at (nic_of runner iface f p))]. in_tree net_dir d" "\<forall>d \<in> set dirs. in_tree net_dir d"
proof -
  show b: "\<forall>d \<in> set [Path New (queues_at (nic_of runner iface f p))]. in_tree net_dir d"
    using in_tree_base[of net_dir "[iface, ''queues'']"] assms(1) plain_lits by (simp add: queues_at_def nic_of_def)
  show "\<forall>d \<in> set dirs. in_tree net_dir d"
    using assms(2,3) glob_level_tree[OF b, of "CHR ''r''" _ "[PChar (CHR ''x''), PChar (CHR ''-''), PStar]" w]
      glob_level_tree[OF b, of "CHR ''t''" _ "[PChar (CHR ''x''), PChar (CHR ''-''), PStar]" w]
    by (auto simp: queueDirs_def nic_of_def queues_at_def)
qed

lemma nic_view:
  assumes a: "agree {net_dir} w w'" and i: "plain_comp iface" and d: "direction = ''rx'' \<or> direction = ''tx''"
  shows "queueDirs (nic_of runner iface f p) direction w' = queueDirs (nic_of runner iface f p) direction w"
    and "queueDirs (nic_of runner iface f p) direction w = Inr dirs \<Longrightarrow> x \<in> set dirs \<Longrightarrow> plain_comp attr \<Longrightarrow>
      node_at w' (queue_path attr x) = node_at w (queue_path attr x) \<and>
      node_at w' (filepath_Dir (queue_path attr x)) = node_at w (filepath_Dir (queue_path attr x))"
proof -
  let ?r = "nic_of runner iface f p"
  obtain ds where ds: "queueDirs ?r direction w = Inr ds" by (simp add: queueDirs_def)
  show "queueDirs ?r direction w' = queueDirs ?r direction w"
    using glob_level_same[OF a, of net_dir, OF _ _ queues_tree(1)[OF i d ds]]
    by (simp add: queueDirs_def nic_of_def queues_at_def)
  assume q: "queueDirs ?r direction w = Inr dirs" "x \<in> set dirs" and at: "plain_comp attr"
  from queues_tree(2)[OF i d q(1)] q(2) have x: "in_tree net_dir x" by blast
  then obtain zs where zs: "plain (net_dir @ zs)" "x = Path New (net_dir @ zs)" by (auto simp: in_tree_def)
  have "queue_path attr x = Path New ((net_dir @ zs) @ [attr])"
    using Path_Join[of New "net_dir @ zs" attr] zs at by (simp add: list_all_iff)
  then have "filepath_Dir (queue_path attr x) = x"
    using zs at Dir_render[of "net_dir @ zs" attr] by (simp add: Path_New list_all_iff)
  with in_tree_node[OF a, of net_dir] x in_tree_Join[OF x at]
  show "node_at w' (queue_path attr x) = node_at w (queue_path attr x) \<and>
      node_at w' (filepath_Dir (queue_path attr x)) = node_at w (filepath_Dir (queue_path attr x))" by simp
qed

lemma nic_queues_same:
  assumes a: "agree {net_dir} w w'" and i: "plain_comp iface" and d: "direction = ''rx'' \<or> direction = ''tx''"
    and at: "plain_comp attr"
  shows "queues_settled (nic_of runner iface f p) direction attr w' = queues_settled (nic_of runner iface f p) direction attr w"
    and "queues_honest (nic_of runner iface f p) direction attr w' = queues_honest (nic_of runner iface f p) direction attr w"
proof -
  let ?r = "nic_of runner iface f p"
  obtain dirs where ds: "queueDirs ?r direction w = Inr dirs" by (simp add: queueDirs_def)
  note n = nic_view(2)[OF a i d ds _ at]
  have "\<forall>x \<in> set dirs. settled ok (queue_path attr x) w' = settled ok (queue_path attr x) w" for ok
    using settled_cong n by blast
  then show "queues_settled ?r direction attr w' = queues_settled ?r direction attr w"
    using ds nic_view(1)[OF a i d, of runner f p] by (simp add: queues_settled_def)
  have "\<forall>x \<in> set dirs. queue_honest ?r attr x w' = queue_honest ?r attr x w"
    using n by (simp add: queue_honest_def)
  then show "queues_honest ?r direction attr w' = queues_honest ?r direction attr w"
    using ds nic_view(1)[OF a i d, of runner f p] by (simp add: queues_honest_def)
qed

lemma nic_stays:
  assumes rely: "task_rely runner iface (nic_task runner iface f p) w w'" and ok: "t_ok (nic_task runner iface f p) w"
    and q: "quiet (t_res (nic_task runner iface f p)) w"
  shows "quiet (t_res (nic_task runner iface f p)) w'"
proof (cases "iface = []")
  case True
  then show ?thesis by (simp add: nic_task_def quiet_status NICResource_Check_def nic_of_def)
next
  case False
  let ?r = "nic_of runner iface f p"
  from ok False have h: "nic_rooted ?r" "ethtool_reads ?r" by (simp_all add: nic_task_def nic_reliable_def)
  then have i: "plain_comp iface" by (simp add: nic_rooted_def nic_of_def)
  from rely have a: "agree {net_dir} w w'" and rg: "ring runner iface w' = ring runner iface w"
    by (simp_all add: task_rely_def nic_task_def)
  have "ring_quiet ?r w' = ring_quiet ?r w"
    using rg by (simp add: ring_quiet_def ring_def nic_of_def)
  with q False nic_queues_same(1)[OF a i _ queue_names(3), of "''rx''"] nic_queues_same(1)[OF a i _ queue_names(4), of "''tx''"]
  show ?thesis
    by (simp add: nic_task_def quiet_status NICResource_Check_status[OF h(2)] split: if_splits)
qed

lemma nic_keeps:
  assumes a: "agree {net_dir} w w'" and ok: "t_ok (nic_task runner iface f p) w"
  shows "t_ok (nic_task runner iface f p) w'"
proof (cases "iface = []")
  case False
  with ok have h: "nic_reliable (nic_of runner iface f p) w" by (simp add: nic_task_def)
  then have i: "plain_comp iface" by (simp add: nic_reliable_def nic_rooted_def nic_of_def)
  from h nic_queues_same(2)[OF a i _ queue_names(3), of "''rx''"] nic_queues_same(2)[OF a i _ queue_names(4), of "''tx''"]
  show ?thesis by (simp add: nic_task_def nic_reliable_def)
qed (simp add: nic_task_def)

section \<open>What an Apply changes\<close>

lemma moves_refl [simp]: "moves runner iface M X u r w w"
  by (simp add: moves_def)

lemma moves_trans: "moves runner iface M X u r v w \<Longrightarrow> moves runner iface M X u r w x \<Longrightarrow> moves runner iface M X u r v x"
  by (auto simp: moves_def intro: changes_trans)

lemma moves_mono:
  "moves runner iface M X u r w w' \<Longrightarrow> X \<subseteq> Z \<Longrightarrow> u \<longrightarrow> u' \<Longrightarrow> r \<longrightarrow> r' \<Longrightarrow> moves runner iface M Z u' r' w w'"
  by (auto simp: moves_def intro: changes_mono)

lemma moves_files:
  assumes "tame_commands runner iface M" "only_touches P w w'" "P \<subseteq> Path New ` X"
  shows "moves runner iface M X u r w w'"
proof -
  have "w_ext w' = w_ext w" using assms(2) by (simp add: only_touches_def)
  then have "units runner w' = units runner w" "ring runner iface w' = ring runner iface w"
    using assms(1) unfolding tame_commands_def by blast+
  then show ?thesis using only_touches_changes[OF assms(2,3)] by (simp add: moves_def)
qed

lemma moves_command:
  assumes "tame_commands runner iface M" "runner name args w = ((out, None), w')" "tool_command runner iface name args"
    "own_table name \<subseteq> X" and "u \<or> name \<notin> {''swapoff'', ''systemctl''}" "r \<or> name \<noteq> ''ethtool''"
  shows "moves runner iface M X u r w w'"
proof -
  from assms(1-3) have "changes M (own_table name) w w'"
    "name \<notin> {''swapoff'', ''systemctl''} \<longrightarrow> units runner w' = units runner w"
    "name \<noteq> ''ethtool'' \<longrightarrow> ring runner iface w' = ring runner iface w"
    unfolding tame_commands_def by blast+
  with assms(4-6) show ?thesis by (auto simp: moves_def intro: changes_mono)
qed

text \<open>Steps that stay away from fstab keep it free of swap entries.\<close>

lemma moves_swapfree:
  assumes "moves runner iface M X u r w w'" "under [''etc'', ''fstab''] \<subseteq> M"
    and "\<forall>xs \<in> X. plain xs \<and> \<not> prefix [''etc'', ''fstab''] xs"
  shows "swapfree w' = swapfree w"
proof -
  have "agree {[''etc'', ''fstab'']} w w'"
    using assms plain_lits by (intro changes_agree[of M X]) (simp_all add: moves_def)
  then have "node_at w' (fstabPath New) = node_at w (fstabPath New)"
    unfolding fstab_paths by (rule agree_Path) simp
  from fstabContent_cong[OF this] show ?thesis by (simp only: swapfree_def)
qed

lemma guar_plain:
  assumes "moves runner iface M (t_foot t) (t_units t) (t_ring t) w w'" "under [''etc'', ''fstab''] \<subseteq> M"
    and "\<forall>xs \<in> t_foot t. plain xs \<and> \<not> prefix [''etc'', ''fstab''] xs"
  shows "task_guar runner iface M t w w'"
  using assms moves_swapfree[OF assms] by (simp add: task_guar_def)

lemma SysctlResource_Apply_touches:
  assumes "SysctlResource_Apply r w = (e, w')"
  shows "only_touches (insert (sr_PersistFile r) (SysctlPath (sr_Env r) ` fst ` set (sr_Settings r))) w w'"
    (is "only_touches ?P w w'")
proof -
  let ?keys = "sortedKeys (sr_Settings r)"
  obtain e1 w1 where loop: "sysctl_apply_loop r ?keys w = (e1, w1)" by force
  have a: "only_touches ?P w w1"
    by (rule only_touches_mono[OF only_writes_touches[OF sysctl_apply_loop_writes[OF loop]]]) auto
  from assms loop have "w' = w1 \<or> (\<exists>c x. WriteFileIfChanged (sr_PersistFile r) c 420 w1 = (x, w'))"
    by (auto simp: SysctlResource_Apply_def split: prod.splits option.splits sum.splits if_splits)
  then have "only_touches ?P w1 w'"
    using only_touches_mono[OF WriteFileIfChanged_touches] by fastforce
  with a show ?thesis by (rule only_touches_trans)
qed

lemma sysctl_guar:
  assumes "tame_commands runner iface M" "under [''etc'', ''fstab''] \<subseteq> M"
    and "SysctlResource_Apply (sysctl_of New p) w = (e, w')"
  shows "task_guar runner iface M (sysctl_task p) w w'"
proof (rule guar_plain[OF _ assms(2)])
  have "insert (sr_PersistFile (sysctl_of New p))
      (SysctlPath (sr_Env (sysctl_of New p)) ` fst ` set (sr_Settings (sysctl_of New p))) \<subseteq>
    Path New ` t_foot (sysctl_task p)"
    by (auto simp: sysctl_of_def sysctl_task_def sysctl_comps_def persist_paths SysctlPath_elems)
  from moves_files[OF assms(1) SysctlResource_Apply_touches[OF assms(3)] this]
  show "moves runner iface M (t_foot (sysctl_task p)) (t_units (sysctl_task p)) (t_ring (sysctl_task p)) w w'" .
  show "\<forall>xs \<in> t_foot (sysctl_task p). plain xs \<and> \<not> prefix [''etc'', ''fstab''] xs"
    using plain_lits sysctl_elems_plain
    by (auto simp: sysctl_task_def sysctl_comps_def conf_name_def list_all_iff)
qed

text \<open>With every wanted module listed, no \<^verbatim>\<open>modprobe\<close> is run.\<close>

lemma kmod_guar:
  assumes t: "tame_commands runner iface M" and M: "under [''etc'', ''fstab''] \<subseteq> M"
    and ap: "KernelModuleResource_Apply (modules_of runner p) w = (None, w')" and l: "modules_listed (modules_of runner p) w"
  shows "task_guar runner iface M (kmod_task runner p) w w'"
proof (rule guar_plain[OF moves_files[OF t listed_Apply[OF ap l]] M])
  show "{km_PersistFile (modules_of runner p)} \<subseteq> Path New ` t_foot (kmod_task runner p)"
    by (simp add: kmod_task_def modules_of_def persist_paths)
  show "\<forall>xs \<in> t_foot (kmod_task runner p). plain xs \<and> \<not> prefix [''etc'', ''fstab''] xs"
    using plain_lits by (simp add: kmod_task_def conf_name_def)
qed

lemma fstab_foot: "{fstabPath New, backupPath (fstabPath New)} \<subseteq> Path New ` fstab_comps"
  unfolding fstab_paths(2) unfolding fstab_paths(1) by (simp add: fstab_comps_def)

lemma mask_loop_moves:
  assumes "tame_commands runner iface M"
  shows "mask_loop runner us w = (None, w') \<Longrightarrow> moves runner iface M X True False w w'"
proof (induction us arbitrary: w)
  case (Cons u us)
  then obtain out w1 where run: "runner ''systemctl'' [''mask'', u] w = ((out, None), w1)"
    and rest: "mask_loop runner us w1 = (None, w')"
    by (auto split: prod.splits option.splits)
  have "moves runner iface M X True False w w1"
    by (rule moves_command[OF assms run]) (simp_all add: own_table_def tool_command_def)
  with Cons.IH[OF rest] show ?case by (rule moves_trans[rotated])
qed simp

lemma swap_guar:
  assumes t: "tame_commands runner iface M" and cmds: "swap_commands \<lparr>sw_Env = New, sw_Runner = runner\<rparr>"
    and ap: "SwapResource_Apply \<lparr>sw_Env = New, sw_Runner = runner\<rparr> w = (None, w')"
  shows "task_guar runner iface M (swap_task runner) w w'"
proof -
  let ?r = "\<lparr>sw_Env = New, sw_Runner = runner\<rparr>" and ?X = "insert [''proc'', ''swaps''] fstab_comps"
  from ap obtain active w1 w2 us w3 where s1: "swapoff_step ?r active w = (None, w1)"
    and s2: "commentFstabSwapLines ?r w1 = (None, w2)"
    and us: "activeSwapUnits ?r w2 = (us, w3)" and s3: "mask_loop runner us w3 = (None, w')"
    by (auto simp: SwapResource_Apply_def Let_def split: sum.splits prod.splits option.splits)
  have w3: "w3 = w2" using cmds us by (metis list_units_pure_def snd_conv swap_commands_def)
  have "moves runner iface M ?X True False w w1"
  proof (cases "active = []")
    case False
    with s1 obtain out where "runner ''swapoff'' [''-a''] w = ((out, None), w1)"
      by (auto simp: swapoff_step_def split: prod.splits option.splits)
    from moves_command[OF t this] show ?thesis by (simp add: own_table_def tool_command_def)
  qed (use s1 in \<open>simp add: swapoff_step_def\<close>)
  also have "moves runner iface M ?X True False w1 w2"
    using commentFstabSwapLines_touches[OF s2] fstab_foot by (intro moves_files[OF t]) auto
  finally (moves_trans) have "moves runner iface M ?X True False w w2" .
  also have "moves runner iface M ?X True False w2 w'" by (rule mask_loop_moves[OF t s3[unfolded w3]])
  finally (moves_trans) have "moves runner iface M ?X True False w w'" .
  moreover have "swapfree w'"
    using SwapResource_Apply_effect[OF ap cmds] by (simp add: swapfree_def)
  ultimately show ?thesis by (simp add: task_guar_def swap_task_def)
qed

text \<open>The entry of the BPF filesystem is not a swap entry, so appending it keeps fstab free of swap.\<close>

lemma fstab_add_swapfree:
  assumes "\<not> fstabHasActiveSwapLines c"
  shows "\<not> fstabHasActiveSwapLines (fstab_add (mount_of New runner bpffsMount) c)"
proof -
  let ?e = "fstab_entry (mount_of New runner bpffsMount)"
  have app: "fstabHasActiveSwapLines (u @ NL # v) \<longleftrightarrow> fstabHasActiveSwapLines u \<or> fstabHasActiveSwapLines v" for u v
    by (simp add: fstabHasActiveSwapLines_def splitOn_append_full)
  have nil: "\<not> fstabHasActiveSwapLines []"
    by (simp add: fstabHasActiveSwapLines_def swap_line_def strings_TrimSpace_def trimL.simps trimR.simps)
  have "?e = ''bpffs /sys/fs/bpf bpf rw,nosuid,nodev,noexec,relatime 0 0''"
    by (simp add: fstab_entry_def mount_of_def bpffsMount_def bpffsPath_def)
  moreover have "\<not> fstabHasActiveSwapLines ''bpffs /sys/fs/bpf bpf rw,nosuid,nodev,noexec,relatime 0 0''" by code_simp
  ultimately have e: "\<not> fstabHasActiveSwapLines (?e @ [NL])" using app[of ?e "[]"] nil by simp
  consider "c = []" | b where "c = b @ [NL]" | "c \<noteq> []" "\<not> strings_HasSuffix c [NL]"
    by (cases c rule: rev_cases) (auto simp: strings_HasSuffix_def)
  then show ?thesis
  proof cases
    case 2
    with assms e app[of b "[]"] app[of b "?e @ [NL]"] show ?thesis
      by (simp add: fstab_add_def strings_HasSuffix_def)
  next
    case 3
    with assms e app[of c "?e @ [NL]"] show ?thesis by (simp add: fstab_add_def)
  qed (use e in \<open>simp add: fstab_add_def\<close>)
qed

lemma mount_step_moves:
  assumes t: "tame_commands runner iface M" and st: "mount_step (mount_of New runner bpffsMount) w = (None, w')"
  shows "moves runner iface M {[''proc'', ''mounts''], [''sys'', ''fs'', ''bpf'']} False False w w'"
proof -
  let ?X = "{[''proc'', ''mounts''], [''sys'', ''fs'', ''bpf'']}"
  from st obtain out w1 where md: "os_MkdirAll bpffsPath w = (None, w1)"
    and run: "runner ''mount'' (mount_args (mount_of New runner bpffsMount)) w1 = ((out, None), w')"
    by (auto simp: mount_step_def mount_of_def bpffsMount_def split: prod.splits option.splits)
  have "bpffsPath = Path New [''sys'', ''fs'', ''bpf'']" unfolding bpffsPath_def by code_simp
  then have "moves runner iface M ?X False False w w1"
    using os_MkdirAll_touches[OF md] by (intro moves_files[OF t]) auto
  moreover have "moves runner iface M ?X False False w1 w'"
    by (rule moves_command[OF t run]) (simp_all add: own_table_def tool_command_def)
  ultimately show ?thesis by (rule moves_trans)
qed

lemma mount_guar:
  assumes t: "tame_commands runner iface M" and M: "under [''etc'', ''fstab''] \<subseteq> M"
    and ap: "MountResource_Apply (mount_of New runner bpffsMount) w = (None, w')"
  shows "task_guar runner iface M (mount_task runner) w w'"
proof -
  let ?r = "mount_of New runner bpffsMount"
  let ?X = "{[''proc'', ''mounts''], [''sys'', ''fs'', ''bpf'']}"
  have e: "mt_Env ?r = New" by (simp add: mount_of_def)
  from ap obtain w1 where s1: "w1 = w \<or> mount_step ?r w = (None, w1)" and s2: "persistFstab ?r w1 = (None, w')"
    by (auto simp: MountResource_Apply_def mount_of_def bpffsMount_def split: sum.splits prod.splits option.splits if_splits)
  have m1: "moves runner iface M ?X False False w w1" using s1 mount_step_moves[OF t] by auto
  have "moves runner iface M (?X \<union> fstab_comps) False False w1 w'"
    using persistFstab_touches[OF s2] fstab_foot by (intro moves_files[OF t]) (auto simp: e)
  with moves_mono[OF m1, of "?X \<union> fstab_comps" False False] have m: "moves runner iface M (?X \<union> fstab_comps) False False w w'"
    using moves_trans by blast
  have "swapfree w1 = swapfree w" using plain_lits by (intro moves_swapfree[OF m1 M]) simp
  moreover have "swapfree w1 \<longrightarrow> swapfree w'"
    using persistFstab_content[OF s2] fstab_add_swapfree[of "fstabContent New w1" runner]
    by (simp add: swapfree_def e Let_def)
  ultimately show ?thesis using m by (simp add: task_guar_def mount_task_def)
qed

lemma file_guar:
  assumes t: "tame_commands runner iface M" and M: "under [''etc'', ''fstab''] \<subseteq> M"
    and cs: "di_Path d = Path New cs" "plain cs" "\<not> prefix [''etc'', ''fstab''] cs"
    and ap: "DropInFileResource_Apply d w = (e, w')"
  shows "task_guar runner iface M (file_task d cs) w w'"
  using DropInFileResource_Apply_touches[OF ap] cs
  by (intro guar_plain[OF _ M] moves_files[OF t]) (auto simp: file_task_def)

text \<open>Resources that write knobs below one directory.\<close>

lemma knob_guar:
  assumes t: "tame_commands runner iface M" and M: "under [''etc'', ''fstab''] \<subseteq> M"
    and w: "only_writes P w w'" "\<forall>x \<in> P. in_tree base x"
    and foot: "t_foot t = {xs. plain xs \<and> prefix base xs}" "base \<noteq> []" "hd base \<noteq> ''etc''"
  shows "task_guar runner iface M t w w'"
proof (rule guar_plain[OF moves_files[OF t only_writes_touches[OF w(1)]] M])
  show "P \<subseteq> Path New ` t_foot t" using w(2) by (auto simp: foot in_tree_def)
  show "\<forall>xs \<in> t_foot t. plain xs \<and> \<not> prefix [''etc'', ''fstab''] xs"
    using foot by (auto simp: prefix_def hd_append neq_Nil_conv)
qed

lemma irq_guar:
  assumes "tame_commands runner iface' M" "under [''etc'', ''fstab''] \<subseteq> M"
    and ap: "IRQAffinityResource_Apply (irq_of iface f) w = (None, w')"
  shows "task_guar runner iface' M (irq_task iface f) w w'"
proof -
  let ?r = "irq_of iface f"
  from ap obtain irqs where i: "enaIRQs ?r w = Inr irqs"
    and loop: "for_each (irq_step ?r (desiredAffinity ?r irqs)) irqs w = (None, w')"
    by (auto simp: IRQAffinityResource_Apply_def split: sum.splits)
  have "in_tree [''proc'', ''irq''] (affinityPath ?r x)" if "x \<in> set irqs" for x
    using in_tree_base[of "[''proc'', ''irq'']" "[x, ''smp_affinity_list'']"] enaIRQs_plain[OF i] that plain_lits
    by (simp add: affinityPath_def irq_of_def)
  then show ?thesis
    using irq.loop_writes[OF loop] by (intro knob_guar[OF assms(1,2), where base = "[''proc'', ''irq'']"]) (auto simp: irq_task_def)
qed

lemma governor_guar:
  assumes "tame_commands runner iface M" "under [''etc'', ''fstab''] \<subseteq> M"
    and ap: "CPUGovernorResource_Apply (governor_of p) w = (None, w')"
  shows "task_guar runner iface M (governor_task p) w w'"
proof -
  obtain paths where p: "governorPaths (governor_of p) w = Inr paths" by (simp add: governorPaths_def)
  with ap have "w' = w \<or> for_each (governor_step (governor_of p)) paths w = (None, w')"
    by (auto simp: CPUGovernorResource_Apply_def split: if_splits)
  then have "only_writes (set paths) w w'" using governor.loop_writes by fastforce
  with governor_paths_tree[OF p] show ?thesis
    by (intro knob_guar[OF assms(1,2), where base = cpu_dir]) (auto simp: governor_task_def)
qed

lemma scheduler_guar:
  assumes "tame_commands runner iface M" "under [''etc'', ''fstab''] \<subseteq> M"
    and ap: "IOSchedulerResource_Apply (scheduler_of p) w = (None, w')"
  shows "task_guar runner iface M (scheduler_task p) w w'"
proof -
  from ap have "w' = w \<or> (\<exists>devs. nvmeDevices (scheduler_of p) w = Inr devs \<and>
      for_each (scheduler_step (scheduler_of p)) devs w = (None, w'))"
    by (auto simp: IOSchedulerResource_Apply_def split: sum.splits if_splits)
  then have "\<exists>P. only_writes P w w' \<and> (\<forall>x \<in> P. in_tree [''sys'', ''block''] x)"
  proof
    assume "\<exists>devs. nvmeDevices (scheduler_of p) w = Inr devs \<and> for_each (scheduler_step (scheduler_of p)) devs w = (None, w')"
    then obtain devs where d: "nvmeDevices (scheduler_of p) w = Inr devs"
      and loop: "for_each (scheduler_step (scheduler_of p)) devs w = (None, w')" by blast
    have "in_tree [''sys'', ''block''] (schedulerPath (scheduler_of p) x)" if "x \<in> set devs" for x
      using in_tree_base[of "[''sys'', ''block'']" "[x, ''queue'', ''scheduler'']"] nvmeDevices_plain[OF d] that plain_lits
      by (simp add: schedulerPath_def scheduler_of_def)
    with scheduler.loop_writes[OF loop] show ?thesis by blast
  qed auto
  then show ?thesis
    using knob_guar[OF assms(1,2), where base = "[''sys'', ''block'']" and t = "scheduler_task p"]
    by (auto simp: scheduler_task_def)
qed

abbreviation net_foot :: "string list set" where
  "net_foot \<equiv> {xs. plain xs \<and> prefix net_dir xs}"

lemma applyRingBufferMax_moves:
  assumes t: "tame_commands runner iface M" and ap: "applyRingBufferMax (nic_of runner iface f p) w = (None, w')"
  shows "moves runner iface M X False True w w'"
proof -
  have g: "snd (runner ''ethtool'' [''-g'', iface] w) = w" using t by (simp add: tame_commands_def looks_only_def)
  from ap have "w' = w \<or> (\<exists>settings out. runner ''ethtool'' ([''-G'', iface] @ settings) w = ((out, None), w'))"
    using g by (auto simp: applyRingBufferMax_def nic_of_def Let_def split: prod.splits option.splits if_splits)
  then show ?thesis
    using moves_command[OF t, of "''ethtool''" _ w _ w' X False True] by (auto simp: own_table_def tool_command_def)
qed

lemma applyQueueMask_moves:
  assumes t: "tame_commands runner iface M" and i: "plain_comp iface" and d: "direction = ''rx'' \<or> direction = ''tx''"
    and at: "plain_comp attr" and ap: "applyQueueMask (nic_of runner iface f p) direction attr w = (None, w')"
  shows "moves runner iface M net_foot False True w w'"
proof -
  let ?r = "nic_of runner iface f p"
  obtain dirs where ds: "queueDirs ?r direction w = Inr dirs" by (simp add: queueDirs_def)
  with ap have loop: "for_each (queue_step ?r attr) dirs w = (None, w')" by (simp add: applyQueueMask_def)
  have "queue_path attr x \<in> Path New ` net_foot" if x: "x \<in> set dirs" for x
  proof -
    from queues_tree(2)[OF i d ds] x have "in_tree net_dir (queue_path attr x)"
      by (simp add: in_tree_Join[OF _ at])
    then obtain zs where "plain (net_dir @ zs)" "queue_path attr x = Path New (net_dir @ zs)"
      unfolding in_tree_def by blast
    then show ?thesis by (intro image_eqI[of _ _ "net_dir @ zs"]) simp_all
  qed
  then have "queue_path attr ` set dirs \<subseteq> Path New ` net_foot" by blast
  with queue.loop_writes[OF loop] show ?thesis by (intro moves_files[OF t only_writes_touches])
qed

lemma nic_guar:
  assumes t: "tame_commands runner iface M" and M: "under [''etc'', ''fstab''] \<subseteq> M"
    and ok: "t_ok (nic_task runner iface f p) w"
    and ap: "NICResource_Apply (nic_of runner iface f p) w = (None, w')"
  shows "task_guar runner iface M (nic_task runner iface f p) w w'"
proof (rule guar_plain[OF _ M])
  let ?r = "nic_of runner iface f p"
  show "\<forall>xs \<in> t_foot (nic_task runner iface f p). plain xs \<and> \<not> prefix [''etc'', ''fstab''] xs"
    by (auto simp: nic_task_def prefix_def)
  show "moves runner iface M (t_foot (nic_task runner iface f p)) (t_units (nic_task runner iface f p))
      (t_ring (nic_task runner iface f p)) w w'"
  proof (cases "iface = []")
    case True
    with ap show ?thesis by (simp add: NICResource_Apply_def nic_of_def)
  next
    case False
    with ok have i: "plain_comp iface" by (simp add: nic_task_def nic_reliable_def nic_rooted_def nic_of_def)
    from False ap obtain w1 w2 where
      s1: "w1 = w \<or> applyRingBufferMax ?r w = (None, w1)"
      and s2: "w2 = w1 \<or> applyQueueMask ?r ''rx'' ''rps_cpus'' w1 = (None, w2)"
      and s3: "w' = w2 \<or> applyQueueMask ?r ''tx'' ''xps_cpus'' w2 = (None, w')"
      by (auto simp: NICResource_Apply_def nic_of_def split: prod.splits option.splits if_splits)
    have "moves runner iface M net_foot False True w w1" using s1 applyRingBufferMax_moves[OF t] by auto
    moreover have "moves runner iface M net_foot False True w1 w2"
      using s2 applyQueueMask_moves[OF t i disjI1[OF refl] queue_names(3)] by (elim disjE) (simp, blast)
    moreover have "moves runner iface M net_foot False True w2 w'"
      using s3 applyQueueMask_moves[OF t i disjI2[OF refl] queue_names(4)] by (elim disjE) (simp, blast)
    ultimately have "moves runner iface M net_foot False True w w'" using moves_trans by blast
    then show ?thesis by (simp add: nic_task_def)
  qed
qed

end
