(* ===== verification/Engine_Converges.thy ===== *)
theory Engine_Converges
  imports Engine_Tasks
begin

text \<open>
  Convergence of the engine. The tasks of the engine are shown tolerant one by one and the list of them a
  plan, so that an apply run that exits 0 settles the host.
\<close>

section \<open>Every task is tolerant\<close>

abbreviation tolerant :: "'x runner \<Rightarrow> string \<Rightarrow> string set \<Rightarrow> 'x task \<Rightarrow> bool" where
  "tolerant runner iface M t \<equiv>
     tolerant_resource (t_res t) (t_ok t) (t_side t) (task_keep t) (task_rely runner iface t) (task_guar runner iface M t)"

lemma tolerantI:
  assumes "settling_resource (t_res t) (t_ok t) (t_side t)"
    and "\<And>w w'. t_ok t w \<Longrightarrow> res_Apply (t_res t) w = (None, w') \<Longrightarrow> task_guar runner iface M t w w'"
    and "\<And>w w'. t_ok t w \<Longrightarrow> quiet (t_res t) w \<Longrightarrow> task_rely runner iface t w w' \<Longrightarrow> quiet (t_res t) w'"
    and "\<And>w w'. task_rely runner iface t w w' \<Longrightarrow> t_side t w' \<Longrightarrow> t_side t w"
    and "\<And>w w'. t_ok t w \<Longrightarrow> task_keep t w w' \<Longrightarrow> t_ok t w'"
  shows "tolerant runner iface M t"
  by (rule tolerant_resource.intro[OF assms(1)]) (unfold_locales, (rule assms(2-5); assumption)+)

text \<open>A task whose resource brings about everything by itself.\<close>

lemma tolerant_convergentI:
  assumes "convergent_resource (t_res t) (t_ok t)" "t_side t = (\<lambda>w. True)"
    and "\<And>w w'. t_ok t w \<Longrightarrow> res_Apply (t_res t) w = (None, w') \<Longrightarrow> task_guar runner iface M t w w'"
    and "\<And>w w'. t_ok t w \<Longrightarrow> quiet (t_res t) w \<Longrightarrow> task_rely runner iface t w w' \<Longrightarrow> quiet (t_res t) w'"
    and "\<And>w w'. t_ok t w \<Longrightarrow> task_keep t w w' \<Longrightarrow> t_ok t w'"
  shows "tolerant runner iface M t"
proof (rule tolerantI)
  show "settling_resource (t_res t) (t_ok t) (t_side t)"
    using assms(1,2) by (simp add: convergent_resource_def convergent_resource_axioms_def settling_resource_def
        settling_resource_axioms_def)
qed (simp_all add: assms)

lemma convergent_strengthen:
  assumes "convergent_resource r ok" "\<And>w w'. res_Apply r w = (None, w') \<Longrightarrow> ex w \<Longrightarrow> ex w'"
  shows "convergent_resource r (\<lambda>w. ok w \<and> ex w)"
  using assms(1) assms(2)[of _ "_ :: 'a"]
  by (auto simp: convergent_resource_def convergent_resource_axioms_def)

lemma sysctl_tolerant:
  assumes "tame_commands runner iface M" "under [''etc'', ''fstab''] \<subseteq> M"
  shows "tolerant runner iface M (sysctl_task p)"
proof (rule tolerant_convergentI)
  show "t_side (sysctl_task p) = (\<lambda>w. True)" by (simp add: sysctl_task_def)
  show "convergent_resource (t_res (sysctl_task p)) (t_ok (sysctl_task p))"
    using sysctl.convergent_resource_axioms by (simp add: sysctl_task_def)
  fix w w' :: "'a world"
  show "task_guar runner iface M (sysctl_task p) w w'" if "res_Apply (t_res (sysctl_task p)) w = (None, w')"
    using sysctl_guar[OF assms] that by (simp add: sysctl_task_def sysctlResource_def)
  show "quiet (t_res (sysctl_task p)) w'" if "quiet (t_res (sysctl_task p)) w" "task_rely runner iface (sysctl_task p) w w'"
    using sysctl_stays[of p w w'] that by (simp add: sysctl_task_def task_rely_def)
  show "t_ok (sysctl_task p) w'" if ok: "t_ok (sysctl_task p) w" and k: "task_keep (sysctl_task p) w w'"
  proof -
    have "node_at w' (SysctlPath New k) = node_at w (SysctlPath New k)" if "k \<in> fst ` set (p_Sysctls p)" for k
      using that k agree_Path[of "t_keep (sysctl_task p)" w w' "[''proc'', ''sys''] @ sysctl_elems k"]
      by (simp add: task_keep_def sysctl_task_def sysctl_comps_def SysctlPath_elems)
    with ok show ?thesis by (simp add: sysctl_task_def sysctl_echoes_def sysctl_of_def)
  qed
qed

lemma kmod_tolerant:
  assumes "tame_commands runner iface M" "under [''etc'', ''fstab''] \<subseteq> M"
  shows "tolerant runner iface M (kmod_task runner p)"
proof (rule tolerant_convergentI)
  show "t_side (kmod_task runner p) = (\<lambda>w. True)" by (simp add: kmod_task_def)
  show "convergent_resource (t_res (kmod_task runner p)) (t_ok (kmod_task runner p))"
    using kmod.convergent_resource_axioms[of "modules_of runner p"] by (simp add: kmod_task_def)
  fix w w' :: "'a world"
  show "task_guar runner iface M (kmod_task runner p) w w'"
    if "t_ok (kmod_task runner p) w" "res_Apply (t_res (kmod_task runner p)) w = (None, w')"
  proof (rule kmod_guar[OF assms])
    show "KernelModuleResource_Apply (modules_of runner p) w = (None, w')" "modules_listed (modules_of runner p) w"
      using that by (simp_all add: kmod_task_def kernelModuleResource_def)
  qed
  show "quiet (t_res (kmod_task runner p)) w'"
    if "quiet (t_res (kmod_task runner p)) w" "task_rely runner iface (kmod_task runner p) w w'"
    using kmod_stays[of runner p w w'] that by (simp add: kmod_task_def task_rely_def)
  show "t_ok (kmod_task runner p) w'" if ok: "t_ok (kmod_task runner p) w" and k: "task_keep (kmod_task runner p) w w'"
  proof -
    have "node_at w' (Path New [''proc'', ''modules'']) = node_at w (Path New [''proc'', ''modules''])"
      using k agree_Path[of "t_keep (kmod_task runner p)" w w'] by (simp add: task_keep_def kmod_task_def)
    from loadedModules_cong[of w' "modules_of runner p" w] this ok show ?thesis
      by (simp add: kmod_task_def modules_listed_iff modules_of_def)
  qed
qed

lemma swap_tolerant:
  assumes "tame_commands runner iface M"
  shows "tolerant runner iface M (swap_task runner)"
proof (rule tolerantI)
  show "settling_resource (t_res (swap_task runner)) (t_ok (swap_task runner)) (t_side (swap_task runner))"
    using swap.settling_resource_axioms[of "\<lparr>sw_Env = New, sw_Runner = runner\<rparr>"] by (simp add: swap_task_def units_def)
  fix w w' :: "'a world"
  show "task_guar runner iface M (swap_task runner) w w'"
    if "t_ok (swap_task runner) w" "res_Apply (t_res (swap_task runner)) w = (None, w')"
    using swap_guar[OF assms] that by (simp add: swap_task_def swapResource_def)
  show "t_side (swap_task runner) w" if "task_rely runner iface (swap_task runner) w w'" "t_side (swap_task runner) w'"
    using that by (simp add: swap_task_def task_rely_def)
qed (simp_all add: swap_stays, simp add: swap_task_def)

lemma cgroup_tolerant: "tolerant runner iface M cgroup_task"
  by (rule tolerant_convergentI) (use cgroup.convergent_resource_axioms[of "\<lparr>cg_Env = New\<rparr>"] in
      \<open>simp_all add: cgroup_task_def task_guar_def quiet_def cgroupV2Resource_def CgroupV2Resource_Check_def
        CgroupV2Resource_Apply_def\<close>)

lemma mount_tolerant:
  assumes "tame_commands runner iface M" "under [''etc'', ''fstab''] \<subseteq> M"
  shows "tolerant runner iface M (mount_task runner)"
proof (rule tolerant_convergentI)
  show "t_side (mount_task runner) = (\<lambda>w. True)" by (simp add: mount_task_def)
  show "convergent_resource (t_res (mount_task runner)) (t_ok (mount_task runner))"
    using mount.convergent_resource_axioms[of "mount_of New runner bpffsMount"] by (simp add: mount_task_def)
  fix w w' :: "'a world"
  show "task_guar runner iface M (mount_task runner) w w'" if "res_Apply (t_res (mount_task runner)) w = (None, w')"
    using mount_guar[OF assms] that by (simp add: mount_task_def mountResource_def)
  show "quiet (t_res (mount_task runner)) w'"
    if "quiet (t_res (mount_task runner)) w" "task_rely runner iface (mount_task runner) w w'"
    using mount_stays[of runner w w'] that by (simp add: task_rely_def)
qed (simp add: mount_task_def)

lemma file_tolerant:
  assumes "tame_commands runner iface M" "under [''etc'', ''fstab''] \<subseteq> M"
    and "di_Path d = Path New cs" "plain cs" "\<not> prefix [''etc'', ''fstab''] cs"
  shows "tolerant runner iface M (file_task d cs)"
proof (rule tolerant_convergentI)
  show "t_side (file_task d cs) = (\<lambda>w. True)" by (simp add: file_task_def)
  show "convergent_resource (t_res (file_task d cs)) (t_ok (file_task d cs))"
    using dropin.convergent_resource_axioms[of d] by (simp add: file_task_def)
  fix w w' :: "'a world"
  show "task_guar runner iface M (file_task d cs) w w'" if "res_Apply (t_res (file_task d cs)) w = (None, w')"
    using file_guar[OF assms] that by (simp add: file_task_def dropInFileResource_def)
  show "quiet (t_res (file_task d cs)) w'"
    if "quiet (t_res (file_task d cs)) w" "task_rely runner iface (file_task d cs) w w'"
    using file_stays[of cs w w' d] assms(3) that by (simp add: file_task_def task_rely_def)
qed (simp add: file_task_def)

lemma irq_tolerant:
  assumes "tame_commands runner iface' M" "under [''etc'', ''fstab''] \<subseteq> M"
  shows "tolerant runner iface' M (irq_task iface f)"
proof (rule tolerant_convergentI)
  show "t_side (irq_task iface f) = (\<lambda>w. True)" by (simp add: irq_task_def)
  show "convergent_resource (t_res (irq_task iface f)) (t_ok (irq_task iface f))"
    using irq.convergent_resource_axioms[of "irq_of iface f"] by (simp add: irq_task_def)
  fix w w' :: "'a world"
  show "task_guar runner iface' M (irq_task iface f) w w'" if "res_Apply (t_res (irq_task iface f)) w = (None, w')"
    using irq_guar[OF assms] that by (simp add: irq_task_def irqAffinityResource_def)
  show "quiet (t_res (irq_task iface f)) w'"
    if "quiet (t_res (irq_task iface f)) w" "task_rely runner iface' (irq_task iface f) w w'"
    using irq_stays[of iface f w w'] that unfolding task_rely_def by blast
  show "t_ok (irq_task iface f) w'" if "t_ok (irq_task iface f) w" "task_keep (irq_task iface f) w w'"
    using irq_keeps[of iface f w w'] that by (simp add: irq_task_def task_keep_def)
qed

lemma nic_tolerant:
  assumes "tame_commands runner iface M" "under [''etc'', ''fstab''] \<subseteq> M"
  shows "tolerant runner iface M (nic_task runner iface f p)"
proof (rule tolerant_convergentI)
  show "t_side (nic_task runner iface f p) = (\<lambda>w. True)" by (simp add: nic_task_def)
  let ?r = "nic_of runner iface f p"
  show "convergent_resource (t_res (nic_task runner iface f p)) (t_ok (nic_task runner iface f p))"
  proof (cases "iface = []")
    case True
    then have "nic_Interface ?r = []" by (simp add: nic_of_def)
    then have "convergent_resource (nicResource ?r) (\<lambda>w. True)"
      by (unfold_locales) (simp_all add: nicResource_def NICResource_Check_def NICResource_Apply_def)
    with True show ?thesis by (simp add: nic_task_def)
  qed (use nic.convergent_resource_axioms[of ?r] in \<open>simp add: nic_task_def\<close>)
  fix w w' :: "'a world"
  show "task_guar runner iface M (nic_task runner iface f p) w w'"
    if "t_ok (nic_task runner iface f p) w" "res_Apply (t_res (nic_task runner iface f p)) w = (None, w')"
    using nic_guar[OF assms that(1)] that(2) by (simp add: nic_task_def nicResource_def)
  show "t_ok (nic_task runner iface f p) w'"
    if "t_ok (nic_task runner iface f p) w" "task_keep (nic_task runner iface f p) w w'"
    using nic_keeps[OF _ that(1), of w'] that(2) by (simp add: nic_task_def task_keep_def)
qed (rule nic_stays)

lemma governor_tolerant:
  assumes "tame_commands runner iface M" "under [''etc'', ''fstab''] \<subseteq> M"
  shows "tolerant runner iface M (governor_task p)"
proof (rule tolerant_convergentI)
  show "t_side (governor_task p) = (\<lambda>w. True)" by (simp add: governor_task_def)
  show "convergent_resource (t_res (governor_task p)) (t_ok (governor_task p))"
    using governor.convergent_resource_axioms[of "governor_of p"] by (simp add: governor_task_def)
  fix w w' :: "'a world"
  show "task_guar runner iface M (governor_task p) w w'" if "res_Apply (t_res (governor_task p)) w = (None, w')"
    using governor_guar[OF assms] that by (simp add: governor_task_def cpuGovernorResource_def)
  show "quiet (t_res (governor_task p)) w'"
    if "quiet (t_res (governor_task p)) w" "task_rely runner iface (governor_task p) w w'"
    using governor_stays[of w w' p] that by (simp add: governor_task_def task_rely_def)
  show "t_ok (governor_task p) w'" if "t_ok (governor_task p) w" "task_keep (governor_task p) w w'"
    using governor_keeps[of w w' p] that by (simp add: governor_task_def task_keep_def)
qed

lemma scheduler_tolerant:
  assumes "tame_commands runner iface M" "under [''etc'', ''fstab''] \<subseteq> M"
  shows "tolerant runner iface M (scheduler_task p)"
proof (rule tolerant_convergentI)
  show "t_side (scheduler_task p) = (\<lambda>w. True)" by (simp add: scheduler_task_def)
  let ?r = "scheduler_of p"
  have ex: "node_at w' q \<noteq> None" if "IOSchedulerResource_Apply ?r w = (None, w')" "node_at w q \<noteq> None"
    for w w' :: "'a world" and q
  proof -
    from that(1) have "w' = w \<or> (\<exists>devs. for_each (scheduler_step ?r) devs w = (None, w'))"
      by (auto simp: IOSchedulerResource_Apply_def split: sum.splits if_splits)
    then have "same_shape {} w w'" using scheduler_loop_shape[of ?r _ w None w'] by auto
    with that(2) show ?thesis by (simp add: same_shape_def)
  qed
  have "convergent_resource (ioSchedulerResource ?r :: 'a world Resource)
      (\<lambda>w. schedulers_honest ?r w \<and> node_at w (Path New [''sys'', ''block'']) \<noteq> None)"
    by (rule convergent_strengthen[OF scheduler.convergent_resource_axioms ex]) (simp_all add: ioSchedulerResource_def)
  then show "convergent_resource (t_res (scheduler_task p :: 'a task)) (t_ok (scheduler_task p))"
    by (simp add: scheduler_task_def)
  fix w w' :: "'a world"
  show "task_guar runner iface M (scheduler_task p) w w'" if "res_Apply (t_res (scheduler_task p)) w = (None, w')"
    using scheduler_guar[OF assms] that by (simp add: scheduler_task_def ioSchedulerResource_def)
  show "quiet (t_res (scheduler_task p)) w'"
    if "t_ok (scheduler_task p) w" "quiet (t_res (scheduler_task p)) w" "task_rely runner iface (scheduler_task p) w w'"
    using scheduler_stays[of w w' p] that by (simp add: scheduler_task_def task_rely_def)
  show "t_ok (scheduler_task p) w'" if "t_ok (scheduler_task p) w" "task_keep (scheduler_task p) w w'"
    using scheduler_keeps[OF _ that(1), of w'] that(2) by (simp add: scheduler_task_def task_keep_def)
qed

section \<open>The tasks as a plan\<close>

text \<open>
  No path of \<open>X\<close> lies in a subtree of \<open>Y\<close>. A task \<open>u\<close> may run \<^emph>\<open>before\<close> \<open>t\<close> if \<open>t\<close> changes nothing that \<open>u\<close>
  looks at, and \<^emph>\<open>beside\<close> it if neither changes what is relied on of the other.
\<close>

definition apart :: "string list set \<Rightarrow> string list set \<Rightarrow> bool" where
  "apart X Y \<longleftrightarrow> (\<forall>xs \<in> X. \<forall>ys \<in> Y. \<not> prefix ys xs)"

definition before :: "'x task \<Rightarrow> 'x task \<Rightarrow> bool" where
  "before u t \<longleftrightarrow> apart (t_foot t) (t_view u) \<and> \<not> (t_units u \<and> t_units t) \<and> \<not> (t_ring u \<and> t_ring t)"

definition beside :: "'x task \<Rightarrow> 'x task \<Rightarrow> bool" where
  "beside u t \<longleftrightarrow> apart (t_foot t) (t_keep u) \<and> apart (t_foot u) (t_keep t)"

definition placed :: "string set \<Rightarrow> 'x task \<Rightarrow> bool" where
  "placed M t \<longleftrightarrow> (\<forall>xs \<in> t_foot t. plain xs) \<and> (\<forall>ys \<in> t_view t \<union> t_keep t. plain ys \<and> ys \<noteq> [] \<and> under ys \<subseteq> M)"

lemma guar_agree:
  assumes "task_guar runner iface M t w w'" "placed M t" "placed M u" "Y \<subseteq> t_view u \<union> t_keep u" "apart (t_foot t) Y"
  shows "agree Y w w'"
  by (rule changes_agree[of M "t_foot t"])
    (use assms in \<open>auto simp: task_guar_def moves_def placed_def apart_def\<close>)

lemma guar_rely:
  assumes "placed M t" "placed M u" "before u t" "task_guar runner iface M t w w'"
  shows "task_rely runner iface u w w'"
  using guar_agree[OF assms(4,1,2), of "t_view u"] assms(3,4)
  by (auto simp: before_def task_rely_def task_guar_def moves_def)

lemma guar_keep:
  assumes "placed M t" "placed M u" "beside u t \<or> beside t u" "task_guar runner iface M t w w'"
  shows "task_keep u w w'"
  using guar_agree[OF assms(4,1,2), of "t_keep u"] assms(3) by (auto simp: beside_def task_keep_def)

lemma tasks_plan:
  assumes "\<forall>t \<in> set ts. tolerant runner iface M t \<and> placed M t" "sorted_wrt (\<lambda>u t. before u t \<and> beside u t) ts"
  shows "convergent_plan ts t_res t_ok t_side task_keep (task_rely runner iface) (task_guar runner iface M)"
proof (rule convergent_plan.intro)
  fix t u :: "'a task" and w w' :: "'a world"
  assume t: "t \<in> set ts"
  then show "tolerant runner iface M t" using assms(1) by blast
  assume u: "u \<in> set ts" "t \<noteq> u" and g: "task_guar runner iface M t w w'"
  from sorted_wrt_pairs[OF assms(2) t u] have "beside u t \<or> beside t u" by blast
  then show "task_keep u w w'" using guar_keep[OF _ _ _ g] assms(1) t u(1) by blast
next
  show "sorted_wrt (\<lambda>u t. \<forall>w w'. task_guar runner iface M t w w' \<longrightarrow> task_rely runner iface u w w') ts"
    using assms(1) guar_rely by (intro sorted_wrt_mono_rel[OF _ assms(2)]) blast
qed

lemmas task_defs = sysctl_task_def kmod_task_def swap_task_def cgroup_task_def mount_task_def file_task_def
  irq_task_def nic_task_def governor_task_def scheduler_task_def

lemma apart_simps [simp]:
  "apart {} Y" "apart X {}"
  "apart (insert x X) Y \<longleftrightarrow> (\<forall>ys \<in> Y. \<not> prefix ys x) \<and> apart X Y"
  "apart (X \<union> Z) Y \<longleftrightarrow> apart X Y \<and> apart Z Y"
  by (auto simp: apart_def)

lemma tree_apart:
  "\<not> prefix b y \<Longrightarrow> \<not> prefix y b \<Longrightarrow>
   apart {xs. plain xs \<and> prefix b xs} (insert y Y) \<longleftrightarrow> apart {xs. plain xs \<and> prefix b xs} Y"
  using prefix_same_cases by (auto simp: apart_def)

lemma sysctl_apart:
  assumes "a \<noteq> ''proc'' \<or> b \<noteq> ''sys''"
  shows "apart (sysctl_comps p) (insert (a # b # c) Y) \<longleftrightarrow> apart (sysctl_comps p) Y"
    and "ys \<in> sysctl_comps p \<Longrightarrow> \<not> prefix ys (a # b # c)"
  using assms by (auto simp: sysctl_comps_def apart_def)

lemma sysctl_tree:
  "apart {xs. plain xs \<and> prefix (a # b # c) xs} (sysctl_comps p)" if "a \<noteq> ''proc'' \<or> b \<noteq> ''sys''"
  using that by (auto simp: sysctl_comps_def apart_def prefix_def)

lemma engine_order:
  "sorted_wrt (\<lambda>u t. before u t \<and> beside u t) (engine_tasks runner iface f p)"
  by (simp add: engine_tasks_def systemdLimitServices_def before_def beside_def task_defs fstab_comps_def conf_name_def
      service_comps_def sysctl_apart sysctl_tree tree_apart)

lemma managed_plain: "ys \<in> managed_comps p \<Longrightarrow> plain ys \<and> ys \<noteq> []"
  using plain_lits sysctl_elems_plain
  by (auto simp: managed_comps_def fstab_comps_def conf_name_def service_comps_def systemdLimitServices_def
      sysctl_comps_def list_all_iff)

lemma placedI:
  "\<forall>xs \<in> t_foot t. plain xs \<Longrightarrow> t_view t \<union> t_keep t \<subseteq> managed_comps p \<Longrightarrow> placed (managed p) t"
  unfolding placed_def managed_def using managed_plain by (meson UN_upper subsetD)

lemma engine_foot: "t \<in> set (engine_tasks runner iface f p) \<Longrightarrow> xs \<in> t_foot t \<Longrightarrow> plain xs"
  using plain_lits sysctl_elems_plain
  by (auto simp: engine_tasks_def systemdLimitServices_def task_defs fstab_comps_def conf_name_def service_comps_def
      sysctl_comps_def list_all_iff)

lemma engine_view: "list_all (\<lambda>t. t_view t \<union> t_keep t \<subseteq> managed_comps p) (engine_tasks runner iface f p)"
  unfolding engine_tasks_def list_all_append list.pred_map comp_def
  by (simp add: task_defs managed_comps_def fstab_comps_def list_all_iff subset_iff)

lemma engine_placed: "t \<in> set (engine_tasks runner iface f p) \<Longrightarrow> placed (managed p) t"
  using engine_foot[of t runner iface f p] engine_view[of p runner iface f]
  by (intro placedI) (simp_all add: list_all_iff)

lemma file_paths:
  "di_Path (limits_file New p) = Path New [''etc'', ''security'', ''limits.d'', conf_name]"
  "di_Path (service_file New p svc) = Path New (service_comps svc)"
  by (simp_all add: limits_file_def service_file_def persist_paths service_comps_def conf_name_def)

lemma engine_tolerant:
  assumes t: "tame_commands runner iface (managed p)" and "x \<in> set (engine_tasks runner iface f p)"
  shows "tolerant runner iface (managed p) x"
proof -
  have M: "under [''etc'', ''fstab''] \<subseteq> managed p" by (auto simp: managed_def managed_comps_def fstab_comps_def)
  have c: "plain [''etc'', ''security'', ''limits.d'', conf_name]" "\<forall>svc \<in> set systemdLimitServices. plain (service_comps svc)"
    using plain_lits by (simp_all add: systemdLimitServices_def service_comps_def conf_name_def)
  have "tolerant runner iface (managed p) (file_task (limits_file New p) [''etc'', ''security'', ''limits.d'', conf_name])"
    by (rule file_tolerant[OF t M file_paths(1) c(1)]) simp
  moreover have "tolerant runner iface (managed p) (file_task (service_file New p svc) (service_comps svc))"
    if "svc \<in> set systemdLimitServices" for svc
    by (rule file_tolerant[OF t M file_paths(2)]) (use c(2) that in \<open>simp_all add: service_comps_def\<close>)
  moreover note sysctl_tolerant[OF t M] kmod_tolerant[OF t M] swap_tolerant[OF t] cgroup_tolerant mount_tolerant[OF t M]
    irq_tolerant[OF t M] nic_tolerant[OF t M] governor_tolerant[OF t M] scheduler_tolerant[OF t M]
  ultimately show ?thesis using assms(2) by (auto simp: engine_tasks_def)
qed

text \<open>The engine's list is a selection of the tasks, in their order.\<close>

lemma engine_list:
  assumes "p_Mounts p = [bpffsMount]"
  obtains us where "all_resources New runner iface f p = map t_res us" "subseq us (engine_tasks runner iface f p)"
proof -
  define files :: "'a task list" where "files = file_task (limits_file New p) [''etc'', ''security'', ''limits.d'', conf_name]
      # map (\<lambda>svc. file_task (service_file New p svc) (service_comps svc)) systemdLimitServices"
  define us where "us = [sysctl_task p, kmod_task runner p, swap_task runner, cgroup_task, mount_task runner]
     @ (if 0 < l_NoFile (p_Limits p) then files else [])
     @ (if irq_Enabled (p_IRQ p) then [irq_task iface f] else [])
     @ (if n_RingBufferMax (p_NIC p) \<or> n_RPS (p_NIC p) \<or> n_XPS (p_NIC p) then [nic_task runner iface f p] else [])
     @ (if p_CPUGovernor p \<noteq> [] then [governor_task p] else [])
     @ (if ios_Enabled (p_IOScheduler p) then [scheduler_task p] else [])"
  have "all_resources New runner iface f p = map t_res us"
    using assms
    by (simp add: all_resources_def us_def files_def task_defs fixed_resources_def limit_resources_def irq_resources_def
        nic_resources_def governor_resources_def scheduler_resources_def modules_of_def irq_of_def nic_of_def
        governor_of_def scheduler_of_def)
  moreover have tasks: "engine_tasks runner iface f p =
     [sysctl_task p, kmod_task runner p, swap_task runner, cgroup_task, mount_task runner] @ files @ [irq_task iface f]
     @ [nic_task runner iface f p] @ [governor_task p] @ [scheduler_task p]"
    by (simp add: engine_tasks_def files_def)
  have "subseq us (engine_tasks runner iface f p)"
    unfolding us_def tasks by (intro list_emb_append_mono) simp_all
  ultimately show thesis by (rule that)
qed

lemma engine_selection:
  assumes "p_Mounts p = [bpffsMount]"
  obtains us where "engine_Build New runner f p disabled opts w = map t_res us"
    "subseq us (engine_tasks runner (PrimaryInterface New w) f p)"
proof -
  obtain us where us: "all_resources New runner (PrimaryInterface New w) f p = map t_res us"
    "subseq us (engine_tasks runner (PrimaryInterface New w) f p)"
    using engine_list[OF assms] by blast
  obtain P where "engine_Build New runner f p disabled opts w = filter P (map t_res us)"
    unfolding engine_Build_def filterResources_def Let_def us(1) by blast
  then have "engine_Build New runner f p disabled opts w = map t_res (filter (P \<circ> t_res) us)"
    by (simp add: filter_map)
  moreover have "subseq (filter (P \<circ> t_res) us) (engine_tasks runner (PrimaryInterface New w) f p)"
    using us(2) subseq_filter_left subseq_order.order_trans by blast
  ultimately show thesis by (rule that)
qed

lemma engine_plan:
  assumes "tame_commands runner iface (managed p)" "subseq us (engine_tasks runner iface f p)"
  shows "convergent_plan us t_res t_ok t_side task_keep (task_rely runner iface) (task_guar runner iface (managed p))"
proof (rule tasks_plan)
  show "\<forall>t \<in> set us. tolerant runner iface (managed p) t \<and> placed (managed p) t"
  proof
    fix t
    assume "t \<in> set us"
    then have "t \<in> set (engine_tasks runner iface f p)" using assms(2) by (auto dest: list_emb_set)
    then show "tolerant runner iface (managed p) t \<and> placed (managed p) t"
      using engine_tolerant[OF assms(1)] engine_placed by simp
  qed
  show "sorted_wrt (\<lambda>u t. before u t \<and> beside u t) us"
    by (rule sorted_wrt_subseq[OF assms(2) engine_order])
qed

text \<open>A host whose commands are tame: the engine's tasks are a plan there.\<close>

locale tame_host =
  fixes runner :: "'x runner" and iface :: string and p :: Profile
  assumes tame: "tame_commands runner iface (managed p)"

sublocale tame_host \<subseteq> engine: convergent_plan "engine_tasks runner iface f p" t_res t_ok t_side task_keep
  "task_rely runner iface" "task_guar runner iface (managed p)" for f
  using engine_plan[OF tame subseq_order.order_refl] .

sublocale tame_host \<subseteq> sysctl: tolerant_resource "t_res (sysctl_task p)" "t_ok (sysctl_task p)" "t_side (sysctl_task p)" "task_keep (sysctl_task p)"
  "task_rely runner iface (sysctl_task p)" "task_guar runner iface (managed p) (sysctl_task p)"
  using engine_tolerant[OF tame] by (simp add: engine_tasks_def)

text \<open>Only the swap task has a side condition.\<close>

lemma engine_sides:
  "t \<in> set (engine_tasks runner iface f p) \<Longrightarrow>
   res_Name (t_res t) = ''swap'' \<and> t_side t w = (fst (activeSwapUnits \<lparr>sw_Env = New, sw_Runner = runner\<rparr> w) = []) \<or> t_side t w"
  by (auto simp: engine_tasks_def task_defs units_def swapResource_def)

section \<open>Properties\<close>

text \<open>
  C3. The tool converges. Take the resources \<^verbatim>\<open>Build\<close> selects, under any filters, for a profile whose mounts
  are those of every profile the tool computes, on a host that each selected resource can rely on; of the
  modules resource this means that every wanted module is listed in \<^verbatim>\<open>/proc/modules\<close> already, so that no
  \<^verbatim>\<open>modprobe\<close> is run. Let \<^verbatim>\<open>swapoff\<close>, \<^verbatim>\<open>systemctl mask\<close>, \<^verbatim>\<open>mount\<close> and \<^verbatim>\<open>ethtool -G\<close> do what they are documented to do
  and no more. If one apply run exits 0 and leaves no swap unit listed, then any further run over the same
  resources, in either mode, changes nothing on the host, reports no drift and no failure, and exits 0. So
  the resources do not undo each other's work, though two of them edit \<^verbatim>\<open>/etc/fstab\<close>. A host on
  which modules are yet to be loaded comes under this with the first apply run that finds them listed.
\<close>

theorem engine_converges:
  assumes "p_Mounts p = [bpffsMount]" "tame_commands runner (PrimaryInterface New w) (managed p)"
    and "rs = engine_Build New runner f p disabled opts w"
    and "\<forall>t \<in> set (engine_tasks runner (PrimaryInterface New w) f p). t_res t \<in> set rs \<longrightarrow> t_ok t w"
    and "Run rs ModeApply w = (results, w')" "ExitCode results ModeApply = 0"
    and "''swap'' \<in> res_Name ` set rs \<longrightarrow> fst (activeSwapUnits \<lparr>sw_Env = New, sw_Runner = runner\<rparr> w') = []"
  shows "\<exists>reports. Run rs mode w' = (reports, w') \<and> ExitCode reports mode = 0"
proof -
  let ?tasks = "engine_tasks runner (PrimaryInterface New w) f p"
  obtain us where us: "rs = map t_res us" "subseq us ?tasks"
    unfolding assms(3) using engine_selection[OF assms(1)] by blast
  have sub: "u \<in> set ?tasks" "t_res u \<in> set rs" if "u \<in> set us" for u
    using us that by (auto dest: list_emb_set)
  have ok: "\<forall>u \<in> set us. t_ok u w" using assms(4) sub by blast
  have "\<forall>u \<in> set us. t_side u w'" using sub engine_sides assms(7) by (metis image_eqI)
  from convergent_plan.plan_converges[OF engine_plan[OF assms(2) us(2)] subseq_order.order_refl ok _ _ this]
  show ?thesis using assms(5,6) unfolding us(1) by blast
qed

text \<open>
  A host with a wanted module loaded, a sysctl to set, an active swap file and swap unit, \<^verbatim>\<open>swapoff\<close>,
  \<^verbatim>\<open>systemctl\<close> and \<^verbatim>\<open>mount\<close> at work on it, a \<^verbatim>\<open>modprobe\<close> that empties the list of modules, and no \<^verbatim>\<open>ethtool\<close>.
\<close>

definition host_runner :: "bool runner" where
  "host_runner name args w =
     (if name = ''swapoff'' \<or> name = ''systemctl'' then fake_swap name args w
      else if name = ''mount'' then (([], None), set_node ''/proc/mounts'' (regular (''bpffs /sys/fs/bpf bpf rw 0 0'' @ [NL])) w)
      else if name = ''modprobe'' then (([], None), set_node ''/proc/modules'' (regular []) w)
      else (([], Some (CmdError ''not found'')), w))"

definition host_world :: "bool world" where
  "host_world = \<lparr>w_fs = [(''/'', plain_dir), (''/etc'', plain_dir),
     (''/etc/fstab'', regular (''/dev/xvda1 / xfs defaults 0 0'' @ [NL] @ ''/swapfile none swap sw 0 0'' @ [NL])),
     (''/proc/modules'', regular (''vxlan 1 2'' @ [NL])), (''/proc/sys/vm/x'', knob tabs_knob (''0'' @ [NL])),
     (''/proc/swaps'', regular (''Filename Type'' @ [NL] @ ''/swapfile file'' @ [NL])),
     (''/proc/mounts'', regular (''proc /proc proc rw 0 0'' @ [NL]))], w_ext = True\<rparr>"

definition host_profile :: Profile where
  "host_profile = bare_profile\<lparr>p_Modules := [''vxlan''], p_Mounts := [bpffsMount], p_Limits := \<lparr>l_NoFile = 7, l_NProc = 0\<rparr>\<rparr>"

definition host_names :: "string list" where
  "host_names = [''sysctl'', ''kernel-modules'', ''swap'', ''cgroup-v2'', ''bpffs-mount'', ''limits-conf'']"

definition host_options :: Options where
  "host_options = \<lparr>opt_Only = host_names, opt_Skip = []\<rparr>"

lemma host_units: "activeSwapUnits \<lparr>sw_Env = New, sw_Runner = host_runner\<rparr> w = ((if w_ext w then [''swap.swap''] else []), w)"
  using fake_swap_units[of w] by (simp add: activeSwapUnits_def swap_resource_def host_runner_def)

lemma set_node_changes: "changes M {cs} w (set_node (Path New cs) n w)"
  by (simp add: changes_def above_def)

interpretation host: tame_host host_runner iface p for iface p
proof
  show "tame_commands host_runner iface (managed p)"
    unfolding tame_commands_def units_def ring_def host_units
    using set_node_changes[of "managed p" "[''proc'', ''mounts'']", unfolded proc_mounts_path]
      set_node_changes[of "managed p" "[''proc'', ''swaps'']", unfolded proc_swaps_path]
    by (auto simp: looks_only_def host_runner_def fake_swap_def own_table_def changes_fs tool_command_def split: if_splits)
qed

lemma host_swap: "swap_commands \<lparr>sw_Env = New, sw_Runner = host_runner\<rparr>"
  using fake_swap_commands
  by (simp add: swap_commands_def swapoff_works_def list_units_pure_def mask_frames_def swap_resource_def
      activeSwapDevices_def activeSwapUnits_def host_runner_def)

lemma host_mount: "mount_mounts (mount_of New host_runner bpffsMount)" "fstab_fields (mount_of New host_runner bpffsMount)"
proof -
  have "list_ex (mount_line (mount_of New host_runner bpffsMount))
      (fst (scanLines (''bpffs /sys/fs/bpf bpf rw 0 0'' @ [NL])))"
    by code_simp
  then show "mount_mounts (mount_of New host_runner bpffsMount)"
    by (auto simp: mount_mounts_def mount_of_def host_runner_def isMounted_def proc_mounts_path
        os_OpenScan_def regular_def case_prod_beta simp del: append_Cons)
  show "fstab_fields (mount_of New host_runner bpffsMount)" by code_simp
qed

lemma host_sysctl:
  "sysctl_separate (sysctl_of New host_profile)" "sysctl_echoes (sysctl_of New host_profile) host_world"
proof -
  have path: "SysctlPath New ''vm.x'' = ''/proc/sys/vm/x''" by code_simp
  show "sysctl_separate (sysctl_of New host_profile)"
    by (rule sysctl_separateI[where cs = "[''etc'', ''sysctl.d'', conf_name]"])
      (use plain_lits in \<open>auto simp: sysctl_of_def host_profile_def bare_profile_def persist_paths sysctl_key_def
        plain_comp_def conf_name_def\<close>)
  show "sysctl_echoes (sysctl_of New host_profile) host_world"
    using tabs_knob_echoes
    by (auto simp: sysctl_echoes_def sysctl_of_def host_profile_def bare_profile_def host_world_def path node_at_def
        knob_def file_echoes_def)
qed

lemma host_modules:
  "modules_listed (modules_of host_runner host_profile) host_world"
  "km_PersistFile (modules_of host_runner host_profile) \<noteq> Path New [''proc'', ''modules'']"
  by code_simp+

lemma host_reliable:
  "list_all (\<lambda>t. res_Name (t_res t) \<in> {''swap'', ''cgroup-v2'', ''bpffs-mount'', ''limits-conf''} \<longrightarrow> t_ok t w)
     (engine_tasks host_runner iface f p)"
  using host_swap host_mount
  by (simp add: engine_tasks_def task_defs resource_defs systemdLimitServices_def service_file_def)

lemma host_all_reliable:
  "list_all (\<lambda>t. res_Name (t_res t) \<in> set host_names \<longrightarrow> t_ok t host_world)
     (engine_tasks host_runner iface f host_profile)"
proof -
  have "km_Env (modules_of host_runner host_profile) = New" by (simp add: modules_of_def)
  then show ?thesis
    using host_swap host_mount host_sysctl host_modules
    by (simp add: engine_tasks_def task_defs resource_defs systemdLimitServices_def service_file_def host_names_def)
qed

definition host_outcome :: "Result list \<times> bool world \<Rightarrow> Status list \<times> int \<times> string list" where
  "host_outcome x =
     (map r_Status (fst x), ExitCode (fst x) ModeApply,
      fst (activeSwapUnits \<lparr>sw_Env = New, sw_Runner = host_runner\<rparr> (snd x)))"

theorem engine_converges_witness:
  "let rs = engine_Build New host_runner zeroFacts host_profile [] host_options host_world;
       w' = snd (Run rs ModeApply host_world)
   in map r_Status (fst (Run rs ModeApply host_world)) =
        [StatusChanged, StatusChanged, StatusChanged, StatusRebootRequired, StatusChanged, StatusChanged] \<and>
      (\<exists>reports. Run rs ModeCheck w' = (reports, w') \<and> ExitCode reports ModeCheck = 0)"
proof -
  let ?rs = "engine_Build New host_runner zeroFacts host_profile [] host_options host_world"
  let ?tasks = "engine_tasks host_runner (PrimaryInterface New host_world) zeroFacts host_profile"
  have "map res_Name ?rs = host_names" by code_simp
  then have names: "res_Name r \<in> set host_names" if "r \<in> set ?rs" for r
    using that imageI[of r "set ?rs" res_Name] unfolding list.set_map[symmetric] by simp
  have ok: "\<forall>t \<in> set ?tasks. t_res t \<in> set ?rs \<longrightarrow> t_ok t host_world"
    using names host_all_reliable[unfolded list_all_iff] by blast
  have "host_outcome (Run ?rs ModeApply host_world) =
      ([StatusChanged, StatusChanged, StatusChanged, StatusRebootRequired, StatusChanged, StatusChanged], 0, [])"
    by code_simp
  then have codes: "map r_Status (fst (Run ?rs ModeApply host_world)) =
      [StatusChanged, StatusChanged, StatusChanged, StatusRebootRequired, StatusChanged, StatusChanged]"
    "ExitCode (fst (Run ?rs ModeApply host_world)) ModeApply = 0"
    "fst (activeSwapUnits \<lparr>sw_Env = New, sw_Runner = host_runner\<rparr> (snd (Run ?rs ModeApply host_world))) = []"
    by (simp_all add: host_outcome_def)
  have "p_Mounts host_profile = [bpffsMount]" by (simp add: host_profile_def)
  from engine_converges[OF this host.tame refl ok prod.collapse[symmetric] codes(2), of ModeCheck] codes(1,3)
  show ?thesis by (simp add: Let_def)
qed

section \<open>Modules that bring sysctls\<close>

text \<open>
  The condition on modules in the theorem above is needed. Loading \<^verbatim>\<open>br_netfilter\<close> creates the files of
  \<^verbatim>\<open>net.bridge\<close>, which a profile with \<^verbatim>\<open>legacyIPTables\<close> sets; but sysctls run before modules and skip keys
  without a file. On this fresh host the apply run exits 0 and leaves drift.
\<close>

definition bridge_key :: string where
  "bridge_key = ''net.bridge.bridge-nf-call-iptables''"

definition bridge_runner :: "unit runner" where
  "bridge_runner name args w =
     (([], None), set_node ''/proc/sys/net/bridge/bridge-nf-call-iptables'' (knob tabs_knob (''0'' @ [NL]))
        (set_node ''/proc/modules'' (regular (''br_netfilter 1 2'' @ [NL])) w))"

definition bridge_plan :: "unit world Resource list" where
  "bridge_plan = engine_Build New bridge_runner zeroFacts
     (bare_profile\<lparr>p_Sysctls := [(bridge_key, ''1'')], p_Modules := [''br_netfilter'']\<rparr>) []
     \<lparr>opt_Only = [''sysctl'', ''kernel-modules''], opt_Skip = []\<rparr> bare_world"

definition bridge_world :: "unit world" where
  "bridge_world = \<lparr>w_fs = [(''/'', plain_dir), (''/proc/modules'', regular [])], w_ext = ()\<rparr>"

definition exit_twice :: "Mode \<Rightarrow> Mode \<Rightarrow> 'w Resource list \<Rightarrow> 'w \<Rightarrow> int \<times> int" where
  "exit_twice m m' rs w = (case Run rs m w of (results, w') \<Rightarrow> (ExitCode results m, ExitCode (fst (Run rs m' w')) m'))"

lemma modules_after_sysctls: "exit_twice ModeApply ModeCheck bridge_plan bridge_world = (0, 2)"
  by code_simp

end
