(* ===== verification/Main_Cmd.thy ===== *)
theory Main_Cmd
  imports Engine_Converges
begin

text \<open>
  \<^verbatim>\<open>cmd/node-configurator/main.go\<close>: the command line. Flags are parsed the way package \<^verbatim>\<open>flag\<close> parses
  them, with the diagnostics it prints. What the program takes from outside the repository (the EC2
  services, the YAML and JSON libraries, the commands of the host, the two output streams) is the
  record \<open>Platform\<close>; a run passes the host and the state of the outputs along and ends in an exit code.
\<close>

section \<open>Flags\<close>

definition defaultConfigPath :: string where
  "defaultConfigPath = ''/etc/node-configurator/config.yaml''"

record commonFlags =
  cf_configPath :: string
  cf_logFormat :: string
  cf_refreshFacts :: bool
  cf_only :: string
  cf_skip :: string

definition defaultFlags :: commonFlags where
  "defaultFlags = \<lparr>cf_configPath = defaultConfigPath, cf_logFormat = [], cf_refreshFacts = False, cf_only = [], cf_skip = []\<rparr>"

definition strconv_ParseBool :: "string \<Rightarrow> bool option" where
  "strconv_ParseBool s =
     (if s \<in> set [''1'', ''t'', ''T'', ''true'', ''TRUE'', ''True''] then Some True
      else if s \<in> set [''0'', ''f'', ''F'', ''false'', ''FALSE'', ''False''] then Some False
      else None)"

text \<open>The setters of the string flags, by name; \<^verbatim>\<open>refresh-facts\<close> is the only boolean flag.\<close>

definition set_string_flag :: "string \<Rightarrow> (string \<Rightarrow> commonFlags \<Rightarrow> commonFlags) option" where
  "set_string_flag name =
     (if name = ''config'' then Some (\<lambda>v cf. cf\<lparr>cf_configPath := v\<rparr>)
      else if name = ''log-format'' then Some (\<lambda>v cf. cf\<lparr>cf_logFormat := v\<rparr>)
      else if name = ''only'' then Some (\<lambda>v cf. cf\<lparr>cf_only := v\<rparr>)
      else if name = ''skip'' then Some (\<lambda>v cf. cf\<lparr>cf_skip := v\<rparr>)
      else None)"

text \<open>
  What \<^verbatim>\<open>flag\<close> prints as the usage of the flag set: one write for the title and one per flag, sorted.
\<close>

definition flag_usage :: "string \<Rightarrow> string list" where
  "flag_usage name =
     [''Usage of '' @ name @ '':'' @ [NL],
      ''  -config string'' @ [NL] @ ''    '' @ [TAB] @ ''path to YAML config (default '' @ fmt_q defaultConfigPath @ '')'' @ [NL],
      ''  -log-format string'' @ [NL] @ ''    '' @ [TAB] @ fmt_q ''text'' @ '' or '' @ fmt_q ''json'' @ '' (overrides config)'' @ [NL],
      ''  -only string'' @ [NL] @ ''    '' @ [TAB] @ ''comma-separated resource names to run exclusively'' @ [NL],
      ''  -refresh-facts'' @ [NL] @ ''    '' @ [TAB] @ ''bypass the facts cache and re-query the EC2 API'' @ [NL],
      ''  -skip string'' @ [NL] @ ''    '' @ [TAB] @ ''comma-separated resource names to skip'' @ [NL]]"

definition flag_fail :: "string \<Rightarrow> string \<Rightarrow> string list + commonFlags" where
  "flag_fail set_name msg = Inl ((msg @ [NL]) # flag_usage set_name)"

text \<open>A flag argument without its dashes: the name and, after the first equals sign, the value.\<close>

definition split_flag :: "string \<Rightarrow> string \<times> string option" where
  "split_flag s =
     (case strings_Cut (tl s) (CHR ''='') of
        None \<Rightarrow> (s, None)
      | Some (n, v) \<Rightarrow> (hd s # n, Some v))"

definition flag_body :: "string \<Rightarrow> string" where
  "flag_body s = (if s ! 1 = CHR ''-'' then drop 2 s else drop 1 s)"

text \<open>
  \<^verbatim>\<open>FlagSet.Parse\<close>: on success the flags, on failure what was printed on the way out.
\<close>

fun parse_flags :: "string \<Rightarrow> commonFlags \<Rightarrow> string list \<Rightarrow> string list + commonFlags" where
  "parse_flags set_name cf [] = Inr cf"
| "parse_flags set_name cf (s # args) =
     (if length s < 2 \<or> hd s \<noteq> CHR ''-'' then Inr cf
      else if s = ''--'' then Inr cf
      else
        (let body = flag_body s in
         if body = [] \<or> hd body = CHR ''-'' \<or> hd body = CHR ''='' then flag_fail set_name (''bad flag syntax: '' @ s)
         else
           (let (name, value) = split_flag body in
            if name = ''refresh-facts'' then
              (case value of
                 None \<Rightarrow> parse_flags set_name (cf\<lparr>cf_refreshFacts := True\<rparr>) args
               | Some v \<Rightarrow>
                   (case strconv_ParseBool v of
                      None \<Rightarrow> flag_fail set_name (''invalid boolean value '' @ fmt_q v @ '' for -'' @ name @ '': parse error'')
                    | Some b \<Rightarrow> parse_flags set_name (cf\<lparr>cf_refreshFacts := b\<rparr>) args))
            else
              (case set_string_flag name of
                 None \<Rightarrow>
                   if name = ''help'' \<or> name = ''h'' then Inl (flag_usage set_name)
                   else flag_fail set_name (''flag provided but not defined: -'' @ name)
               | Some assign \<Rightarrow>
                   (case value of
                      Some v \<Rightarrow> parse_flags set_name (assign v cf) args
                    | None \<Rightarrow>
                        (case args of
                           [] \<Rightarrow> flag_fail set_name (''flag needs an argument: -'' @ name)
                         | v # args' \<Rightarrow> parse_flags set_name (assign v cf) args'))))))"

definition parseCommonFlags :: "string \<Rightarrow> string list \<Rightarrow> string list + commonFlags" where
  "parseCommonFlags name args = parse_flags name defaultFlags args"

definition splitCSV :: "string \<Rightarrow> string list" where
  "splitCSV s =
     (if s = [] then []
      else filter (\<lambda>part. part \<noteq> []) (map strings_TrimSpace (splitOn (CHR '','') s)))"

section \<open>The commands\<close>

record ('x, 'o) Platform =
  pl_version :: string
  pl_outside :: Outside
  pl_yaml :: "string \<Rightarrow> Config \<Rightarrow> Config \<times> goerror option"
  pl_runner :: "'x runner"
  pl_float :: "float64 \<Rightarrow> int"
  pl_fmt_v :: "float64 \<Rightarrow> string"
  pl_json_Report :: "Report \<Rightarrow> goerror + string"
  pl_json_Facts :: "Facts \<Rightarrow> goerror + string"
  pl_json_Profile :: "Profile \<Rightarrow> goerror + string"
  pl_stdout :: "'o writer"
  pl_stderr :: "'o writer"

text \<open>Printing to standard error ignores the error of the write.\<close>

definition eprint :: "('x, 'o) Platform \<Rightarrow> string \<Rightarrow> 'o \<Rightarrow> 'o" where
  "eprint pl s o' = snd (pl_stderr pl s o')"

definition eprint_error :: "('x, 'o) Platform \<Rightarrow> goerror \<Rightarrow> 'o \<Rightarrow> 'o" where
  "eprint_error pl err o' = eprint pl (''node-configurator: '' @ errText err @ [NL]) o'"

definition usage_text :: string where
  "usage_text = concat (map (\<lambda>l. l @ [NL])
     [''node-configurator: idempotent EC2 Kubernetes node tuning'',
      [],
      ''Usage:'',
      ''  node-configurator apply   [flags]   converge the host to desired state'',
      ''  node-configurator check   [flags]   report drift without changing anything (exit 2 if changes are pending)'',
      ''  node-configurator facts   [flags]   print gathered instance/host facts as JSON'',
      ''  node-configurator profile [flags]   print the resolved desired-state profile as JSON'',
      ''  node-configurator version           print the build version'',
      [],
      ''Flags (apply/check/facts/profile):'',
      ''  -config string        path to YAML config (default '' @ [DQ] @ defaultConfigPath @ [DQ] @ '')'',
      ''  -log-format string     '' @ [DQ] @ ''text'' @ [DQ] @ '' or '' @ [DQ] @ ''json'' @ [DQ] @ '' (default '' @ [DQ] @ ''text'' @ [DQ]
        @ ''; apply/check only)'',
      ''  -refresh-facts          bypass the facts cache and re-query the EC2 API'',
      ''  -only string            comma-separated resource names to run exclusively (apply/check only)'',
      ''  -skip string            comma-separated resource names to skip (apply/check only)''])"

definition printUsage :: "('x, 'o) Platform \<Rightarrow> 'o \<Rightarrow> 'o" where
  "printUsage pl o' = eprint pl usage_text o'"

definition gatherAllAndBuild ::
  "('x, 'o) Platform \<Rightarrow> Env \<Rightarrow> commonFlags \<Rightarrow> 'x world \<Rightarrow> ((Facts \<times> Config) \<times> goerror option) \<times> 'x world" where
  "gatherAllAndBuild pl env cf w =
     (case Load (pl_yaml pl) (cf_configPath cf) w of
        (cfg, Some err) \<Rightarrow> (((zeroFacts, cfg), Some (Errorf ''loading config'' err)), w)
      | (cfg, None) \<Rightarrow>
          (case Gather (pl_outside pl)
                  \<lparr>g_Env = Some env, g_CachePath = [], g_CacheTTL = c_CacheTTL cfg, g_Refresh = cf_refreshFacts cf\<rparr> w of
             ((f, Some err), w') \<Rightarrow> (((f, cfg), Some (Errorf ''gathering facts'' err)), w')
           | ((f, None), w') \<Rightarrow> (((f, cfg), None), w')))"

definition resolveLogFormat :: "commonFlags \<Rightarrow> Config \<Rightarrow> string" where
  "resolveLogFormat cf cfg =
     (if cf_logFormat cf \<noteq> [] then cf_logFormat cf
      else if c_LogFormat cfg \<noteq> [] then c_LogFormat cfg
      else ''text'')"

definition print_warnings :: "('x, 'o) Platform \<Rightarrow> string list \<Rightarrow> 'o \<Rightarrow> 'o" where
  "print_warnings pl ws o' = fold (\<lambda>w. eprint pl (''node-configurator: warning: '' @ w @ [NL])) ws o'"

text \<open>The mode a run really has, and the resources it runs over.\<close>

definition effective_mode :: "Config \<Rightarrow> Mode \<Rightarrow> Mode" where
  "effective_mode cfg mode = (if c_DryRun cfg \<and> mode = ModeApply then ModeCheck else mode)"

definition planned_resources ::
  "('x, 'o) Platform \<Rightarrow> Env \<Rightarrow> commonFlags \<Rightarrow> Facts \<Rightarrow> Config \<Rightarrow> 'x world \<Rightarrow> 'x world Resource list" where
  "planned_resources pl env cf f cfg w =
     engine_Build env (pl_runner pl) f (profile_Build (pl_float pl) f (ToProfileOverrides cfg)) (c_ResourcesDisable cfg)
       \<lparr>opt_Only = splitCSV (cf_only cf), opt_Skip = splitCSV (cf_skip cf)\<rparr> w"

definition report_results ::
  "('x, 'o) Platform \<Rightarrow> string \<Rightarrow> Facts \<Rightarrow> Result list \<Rightarrow> 'o \<Rightarrow> goerror option \<times> 'o" where
  "report_results pl format f results o' =
     (if format = ''json'' then WriteJSONReport (pl_json_Report pl) (pl_stdout pl) f results o'
      else WriteTextReport (pl_stdout pl) results o')"

definition runEngine :: "('x, 'o) Platform \<Rightarrow> string list \<Rightarrow> Mode \<Rightarrow> 'x world \<times> 'o \<Rightarrow> int \<times> 'x world \<times> 'o" where
  "runEngine pl args mode st =
     (let (w, o0) = st in
      case parseCommonFlags ''node-configurator'' args of
        Inl printed \<Rightarrow> (2, w, fold (eprint pl) printed o0)
      | Inr cf \<Rightarrow>
          (case gatherAllAndBuild pl New cf w of
             ((_, Some err), w1) \<Rightarrow> (1, w1, eprint_error pl err o0)
           | (((f, cfg), None), w1) \<Rightarrow>
               (let o1 = print_warnings pl (Warnings f) o0;
                    format = resolveLogFormat cf cfg in
                case (if format \<noteq> ''json'' then WriteFactsSummary (pl_fmt_v pl) (pl_stdout pl) f o1 else (None, o1)) of
                  (Some err, o2) \<Rightarrow> (1, w1, eprint_error pl err o2)
                | (None, o2) \<Rightarrow>
                    (let mode = effective_mode cfg mode;
                         (results, w2) = Run (planned_resources pl New cf f cfg w1) mode w1 in
                     case report_results pl format f results o2 of
                       (Some err, o3) \<Rightarrow> (1, w2, eprint_error pl err o3)
                     | (None, o3) \<Rightarrow> (ExitCode results mode, w2, o3)))))"

definition encodeJSON :: "('x, 'o) Platform \<Rightarrow> goerror + string \<Rightarrow> 'o \<Rightarrow> int \<times> 'o" where
  "encodeJSON pl encoded o' =
     (case encoded of
        Inl err \<Rightarrow> (1, eprint_error pl err o')
      | Inr doc \<Rightarrow>
          (case pl_stdout pl (doc @ [NL]) o' of
             (Some err, o1) \<Rightarrow> (1, eprint_error pl err o1)
           | (None, o1) \<Rightarrow> (0, o1)))"

definition runFacts :: "('x, 'o) Platform \<Rightarrow> string list \<Rightarrow> 'x world \<times> 'o \<Rightarrow> int \<times> 'x world \<times> 'o" where
  "runFacts pl args st =
     (let (w, o0) = st in
      case parseCommonFlags ''node-configurator facts'' args of
        Inl printed \<Rightarrow> (2, w, fold (eprint pl) printed o0)
      | Inr cf \<Rightarrow>
          (case gatherAllAndBuild pl New cf w of
             ((_, Some err), w1) \<Rightarrow> (1, w1, eprint_error pl err o0)
           | (((f, _), None), w1) \<Rightarrow> (let (code, o1) = encodeJSON pl (pl_json_Facts pl f) o0 in (code, w1, o1))))"

definition runProfile :: "('x, 'o) Platform \<Rightarrow> string list \<Rightarrow> 'x world \<times> 'o \<Rightarrow> int \<times> 'x world \<times> 'o" where
  "runProfile pl args st =
     (let (w, o0) = st in
      case parseCommonFlags ''node-configurator profile'' args of
        Inl printed \<Rightarrow> (2, w, fold (eprint pl) printed o0)
      | Inr cf \<Rightarrow>
          (case gatherAllAndBuild pl New cf w of
             ((_, Some err), w1) \<Rightarrow> (1, w1, eprint_error pl err o0)
           | (((f, cfg), None), w1) \<Rightarrow>
               (let (code, o1) = encodeJSON pl
                      (pl_json_Profile pl (profile_Build (pl_float pl) f (ToProfileOverrides cfg))) o0
                in (code, w1, o1))))"

definition run :: "('x, 'o) Platform \<Rightarrow> string list \<Rightarrow> 'x world \<times> 'o \<Rightarrow> int \<times> 'x world \<times> 'o" where
  "run pl args st =
     (case args of
        [] \<Rightarrow> (2, fst st, printUsage pl (snd st))
      | cmd # rest \<Rightarrow>
          if cmd = ''apply'' then runEngine pl rest ModeApply st
          else if cmd = ''check'' then runEngine pl rest ModeCheck st
          else if cmd = ''facts'' then runFacts pl rest st
          else if cmd = ''profile'' then runProfile pl rest st
          else if cmd = ''version'' then (0, fst st, snd (pl_stdout pl (pl_version pl @ [NL]) (snd st)))
          else if cmd = ''-h'' \<or> cmd = ''--help'' \<or> cmd = ''help'' then (0, fst st, printUsage pl (snd st))
          else (2, fst st, printUsage pl
                 (eprint pl (''node-configurator: unknown command '' @ fmt_q cmd @ [NL, NL]) (snd st))))"

text \<open>The exit status of the process started with the argument vector \<open>argv\<close>, program name first.\<close>

definition main_exit :: "('x, 'o) Platform \<Rightarrow> string list \<Rightarrow> 'x world \<times> 'o \<Rightarrow> int \<times> 'x world \<times> 'o" where
  "main_exit pl argv st = run pl (tl argv) st"

section \<open>Flags read back\<close>

lemma strings_Cut_found: "c \<notin> set n \<Longrightarrow> strings_Cut (n @ c # v) c = Some (n, v)"
  by (induction n) auto

lemma strings_Cut_missing: "c \<notin> set n \<Longrightarrow> strings_Cut n c = None"
  by (induction n) auto

lemma split_flag_value: "n \<noteq> [] \<Longrightarrow> CHR ''='' \<notin> set n \<Longrightarrow> split_flag (n @ CHR ''='' # v) = (n, Some v)"
  by (cases n) (simp_all add: split_flag_def strings_Cut_found)

lemma split_flag_bare: "n \<noteq> [] \<Longrightarrow> CHR ''='' \<notin> set n \<Longrightarrow> split_flag n = (n, None)"
  by (cases n) (simp_all add: split_flag_def strings_Cut_missing)

definition flag_name :: "string \<Rightarrow> bool" where
  "flag_name n \<longleftrightarrow> n \<noteq> [] \<and> hd n \<noteq> CHR ''-'' \<and> CHR ''='' \<notin> set n"

lemma parse_flags_body:
  assumes "flag_name n" "s = ''-'' @ n @ v \<or> s = ''--'' @ n @ v"
  shows "\<not> (length s < 2 \<or> hd s \<noteq> CHR ''-'')" "s \<noteq> ''--''" "flag_body s = n @ v"
    "\<not> (n @ v = [] \<or> hd (n @ v) = CHR ''-'' \<or> hd (n @ v) = CHR ''='')"
  using assms by (cases n; auto simp: flag_name_def flag_body_def)+

lemma parse_flags_equals:
  assumes n: "flag_name n" "s = ''-'' @ n @ CHR ''='' # v \<or> s = ''--'' @ n @ CHR ''='' # v"
    and a: "set_string_flag n = Some assign"
  shows "parse_flags name cf (s # args) = parse_flags name (assign v cf) args"
proof -
  note b = parse_flags_body[OF n]
  from a have "n \<noteq> ''refresh-facts''" by (auto simp: set_string_flag_def)
  moreover have "split_flag (n @ CHR ''='' # v) = (n, Some v)"
    using n(1) by (intro split_flag_value) (simp_all add: flag_name_def)
  ultimately show ?thesis using b a by (simp add: Let_def)
qed

lemma parse_flags_next:
  assumes n: "flag_name n" "s = ''-'' @ n \<or> s = ''--'' @ n" and a: "set_string_flag n = Some assign"
  shows "parse_flags name cf (s # v # args) = parse_flags name (assign v cf) args"
proof -
  have b: "\<not> (length s < 2 \<or> hd s \<noteq> CHR ''-'')" "s \<noteq> ''--''" "flag_body s = n"
    "\<not> (n = [] \<or> hd n = CHR ''-'' \<or> hd n = CHR ''='')"
    using parse_flags_body[of n s "[]"] n by simp_all
  from a have "n \<noteq> ''refresh-facts''" by (auto simp: set_string_flag_def)
  moreover have "split_flag n = (n, None)"
    using n(1) by (intro split_flag_bare) (simp_all add: flag_name_def)
  ultimately show ?thesis using b a by (simp add: Let_def)
qed

lemma parse_flags_refresh:
  assumes "strconv_ParseBool v = Some b"
  shows "parse_flags name cf ((''-refresh-facts='' @ v) # args) = parse_flags name (cf\<lparr>cf_refreshFacts := b\<rparr>) args"
proof -
  have n: "flag_name ''refresh-facts''" by (simp add: flag_name_def)
  note b = parse_flags_body[OF n, of "''-refresh-facts='' @ v" "CHR ''='' # v"]
  have "split_flag (''refresh-facts'' @ CHR ''='' # v) = (''refresh-facts'', Some v)"
    by (rule split_flag_value) simp_all
  with b assms show ?thesis by (simp add: Let_def)
qed

text \<open>An argument list that spells every flag, mixing the forms the package accepts.\<close>

definition render_flags :: "commonFlags \<Rightarrow> string list" where
  "render_flags cf =
     [''-config'', cf_configPath cf, ''--log-format='' @ cf_logFormat cf, ''-refresh-facts='' @ fmt_t (cf_refreshFacts cf),
      ''--only'', cf_only cf, ''-skip='' @ cf_skip cf]"

text \<open>
  C28. Command-line round trip: whatever the values, and even if they hold dashes or equals signs, an
  argument list that spells all five flags is parsed back to exactly those flags, and the words after it
  are left alone.
\<close>

theorem parseCommonFlags_roundtrip:
  "parseCommonFlags name (render_flags cf @ ''--'' # rest) = Inr cf"
proof -
  have n: "flag_name ''config''" "flag_name ''log-format''" "flag_name ''only''" "flag_name ''skip''"
    by (simp_all add: flag_name_def)
  have b: "strconv_ParseBool (fmt_t b) = Some b" for b
    by (cases b) (simp_all add: strconv_ParseBool_def fmt_t_def)
  show ?thesis
    unfolding parseCommonFlags_def render_flags_def
    using parse_flags_next[OF n(1), of "''-config''"]
      parse_flags_equals[OF n(2), of "''--log-format='' @ cf_logFormat cf" "cf_logFormat cf"]
      parse_flags_next[OF n(3), of "''--only''"] parse_flags_equals[OF n(4), of "''-skip='' @ cf_skip cf" "cf_skip cf"]
      parse_flags_refresh[OF b[of "cf_refreshFacts cf"]]
    by (simp add: set_string_flag_def del: parse_flags.simps) (simp add: parse_flags.simps)
qed

text \<open>
  C29. Resource lists on the command line: whatever spaces and tabs surround the entries and wherever an
  entry is left empty, the names between the commas are read back, in order, unpadded and without the empty
  ones; and the empty argument names nothing, so that \<^verbatim>\<open>-only\<close> without a value does not narrow the run.
\<close>

theorem splitCSV_padded:
  assumes "\<forall>(pre, n, post) \<in> set items. blanks pre \<and> blanks post \<and> strings_TrimSpace n = n \<and> CHR '','' \<notin> set n"
  shows "splitCSV (strings_Join (map (\<lambda>(pre, n, post). pre @ n @ post) items) '','') =
      filter (\<lambda>n. n \<noteq> []) (map (\<lambda>(pre, n, post). n) items) \<and> splitCSV [] = []"
proof (cases "items = []")
  case False
  let ?parts = "map (\<lambda>(pre, n, post). pre @ n @ post) items"
  have comma: "CHR '','' \<notin> set s" if "blanks s" for s
    using that by (induction s) (auto simp: blanks_def ascii_ws_def)
  have item: "CHR '','' \<notin> set (pre @ n @ post) \<and> strings_TrimSpace (pre @ n @ post) = n"
    if "(pre, n, post) \<in> set items" for pre n post
    using bspec[OF assms that] comma[of pre] comma[of post] TrimSpace_blanks[of pre post n] by simp
  then have split: "splitOn (CHR '','') (strings_Join ?parts '','') = ?parts"
    using False by (intro splitOn_Join) (simp, fastforce)
  have trim: "map strings_TrimSpace ?parts = map (\<lambda>(pre, n, post). n) items"
    using item by (induction items) auto
  show ?thesis
  proof (cases "strings_Join ?parts '','' = []")
    case True
    with split have p: "?parts = [[]]" by simp
    have "strings_TrimSpace [] = []" by code_simp
    with trim have "map (\<lambda>(pre, n, post). n) items = [[]]" unfolding p by simp
    with True show ?thesis by (simp only: splitCSV_def) simp
  next
    case False
    then have "splitCSV (strings_Join ?parts '','') = filter (\<lambda>n. n \<noteq> []) (map strings_TrimSpace ?parts)"
      unfolding splitCSV_def split by (simp only: if_False)
    then show ?thesis unfolding trim by (simp add: splitCSV_def)
  qed
qed (simp add: splitCSV_def)

theorem splitCSV_padded_witness:
  "splitCSV '' sysctl,, swap ,'' = [''sysctl'', ''swap'']"
proof -
  let ?items = "[('' '', ''sysctl'', []), ([], [], []), ('' '', ''swap'', '' ''), ([], [], [])]"
  have "strings_TrimSpace ''sysctl'' = ''sysctl''" "strings_TrimSpace ''swap'' = ''swap''" "strings_TrimSpace [] = []"
    by code_simp+
  then have "\<forall>(pre, n, post) \<in> set ?items. blanks pre \<and> blanks post \<and> strings_TrimSpace n = n \<and> CHR '','' \<notin> set n"
    by (simp add: blanks_def ascii_ws_def)
  from splitCSV_padded[OF this] show ?thesis by (simp add: strings_Join_Cons)
qed

section \<open>What a command may touch\<close>

lemma gatherAllAndBuild_touches:
  assumes "gatherAllAndBuild pl env cf w = (x, w')"
  shows "only_touches {Path env [DefaultCachePath]} w w'"
proof (cases "Load (pl_yaml pl) (cf_configPath cf) w")
  case (Pair cfg e)
  let ?g = "\<lparr>g_Env = Some env, g_CachePath = [], g_CacheTTL = c_CacheTTL cfg, g_Refresh = cf_refreshFacts cf\<rparr>"
  obtain f e' w1 where g: "Gather (pl_outside pl) ?g w = ((f, e'), w1)" by (metis prod.exhaust)
  from Gather_cases[OF g] have "only_touches {Path env [DefaultCachePath]} w w1" "e' = None"
    by (simp_all add: gatherer_env_def gatherer_cachePath_def)
  with assms Pair g show ?thesis by (auto simp: gatherAllAndBuild_def split: option.splits)
qed

lemma planned_check:
  assumes "looks_only (pl_runner pl)"
  shows "snd (Run (planned_resources pl env cf f cfg w0) ModeCheck w) = w"
  using Run_check_results[of "planned_resources pl env cf f cfg w0" w] engine_check_pure[OF assms]
  by (simp add: planned_resources_def)

lemma runEngine_check_touches:
  assumes "looks_only (pl_runner pl)" "runEngine pl args ModeCheck (w, o0) = (code, w', o')"
  shows "only_touches {Path New [DefaultCachePath]} w w'"
proof (cases "parseCommonFlags ''node-configurator'' args")
  case (Inr cf)
  obtain f cfg e w1 where g: "gatherAllAndBuild pl New cf w = (((f, cfg), e), w1)" by (metis prod.exhaust)
  have "w' = w1"
    using assms(2) Inr g planned_check[OF assms(1), of New cf f cfg w1 w1]
    by (auto simp: runEngine_def Let_def effective_mode_def case_prod_beta
        split: option.splits if_splits)
  with gatherAllAndBuild_touches[OF g] show ?thesis by simp
qed (use assms(2) in \<open>simp add: runEngine_def\<close>)

lemma run_reading_touches:
  assumes "runFacts pl args (w, o0) = (code, w', o') \<or> runProfile pl args (w, o0) = (code, w', o')"
  shows "only_touches {Path New [DefaultCachePath]} w w'"
proof -
  from assms have "w' = w \<or> (\<exists>cf x. gatherAllAndBuild pl New cf w = (x, w'))"
    by (auto simp: runFacts_def runProfile_def Let_def case_prod_beta split: sum.splits option.splits)
      (metis prod.collapse)+
  then show ?thesis using gatherAllAndBuild_touches by blast
qed

text \<open>
  C1. Only \<^verbatim>\<open>apply\<close> changes the host: if listing swap units and \<^verbatim>\<open>ethtool -g\<close> change nothing, then whatever
  the configuration, the flags and the state of the host, every other command leaves every file alone,
  the facts cache and its directories excepted.
\<close>

theorem only_apply_changes_host:
  assumes "looks_only (pl_runner pl)" "args = [] \<or> hd args \<noteq> ''apply''" "run pl args (w, o0) = (code, w', o')"
  shows "only_touches {Path New [DefaultCachePath]} w w'"
proof (cases args)
  case (Cons cmd rest)
  consider "w' = w" | "runEngine pl rest ModeCheck (w, o0) = (code, w', o')"
    | "runFacts pl rest (w, o0) = (code, w', o') \<or> runProfile pl rest (w, o0) = (code, w', o')"
    using assms(2,3) Cons by (auto simp: run_def split: if_splits)
  then show ?thesis
  proof cases
    case 2
    then show ?thesis by (rule runEngine_check_touches[OF assms(1)])
  next
    case 3
    then show ?thesis by (rule run_reading_touches)
  qed simp
qed (use assms(3) in \<open>simp add: run_def\<close>)

text \<open>An output that keeps what was written to it, write by write.\<close>

record streams =
  s_out :: "string list"
  s_err :: "string list"

definition record_out :: "streams writer" where
  "record_out s o' = (None, o'\<lparr>s_out := s_out o' @ [s]\<rparr>)"

definition record_err :: "streams writer" where
  "record_err s o' = (None, o'\<lparr>s_err := s_err o' @ [s]\<rparr>)"

definition demo_platform :: "(unit, streams) Platform" where
  "demo_platform =
     \<lparr>pl_version = ''dev'', pl_outside = demo_outside, pl_yaml = (\<lambda>_ c. (c\<lparr>c_DryRun := True\<rparr>, None)), pl_runner = no_commands,
      pl_float = (\<lambda>_. 0), pl_fmt_v = (\<lambda>_. ''0''), pl_json_Report = (\<lambda>_. Inr ''{}''), pl_json_Facts = (\<lambda>_. Inr ''{}''),
      pl_json_Profile = (\<lambda>_. Inr ''{}''), pl_stdout = record_out, pl_stderr = record_err\<rparr>"

definition no_output :: streams where
  "no_output = \<lparr>s_out = [], s_err = []\<rparr>"

theorem only_apply_changes_host_witness:
  "\<exists>code w' o'. run demo_platform [''check'', ''-only'', ''swap''] (bare_world, no_output) = (code, w', o') \<and>
     only_touches {Path New [DefaultCachePath]} bare_world w'"
proof -
  let ?r = "run demo_platform [''check'', ''-only'', ''swap''] (bare_world, no_output)"
  have l: "looks_only (pl_runner demo_platform)" by (simp add: demo_platform_def looks_only_def no_commands_def)
  have r: "?r = (fst ?r, fst (snd ?r), snd (snd ?r))" by simp
  have "hd [''check'', ''-only'', ''swap''] \<noteq> ''apply''" by simp
  from only_apply_changes_host[OF l disjI2[OF this] r] r show ?thesis by blast
qed

section \<open>Modes and exit codes\<close>

text \<open>
  C23. A dry run is a check: when the configuration sets \<^verbatim>\<open>dryRun\<close>, \<^verbatim>\<open>apply\<close> does exactly what \<^verbatim>\<open>check\<close> does with
  the same arguments: the same exit code, the same output and the same effect on the host.
\<close>

theorem dry_run_is_check:
  assumes "parseCommonFlags ''node-configurator'' args = Inr cf" "c_DryRun (fst (Load (pl_yaml pl) (cf_configPath cf) (fst st)))"
  shows "run pl (''apply'' # args) st = run pl (''check'' # args) st"
proof -
  obtain w o0 where st: "st = (w, o0)" by force
  obtain f cfg e w1 where g: "gatherAllAndBuild pl New cf w = (((f, cfg), e), w1)" by (metis prod.exhaust)
  then have "cfg = fst (Load (pl_yaml pl) (cf_configPath cf) w)"
    by (auto simp: gatherAllAndBuild_def split: prod.splits option.splits)
  with assms(2) st have "effective_mode cfg ModeApply = ModeCheck" "effective_mode cfg ModeCheck = ModeCheck"
    by (simp_all add: effective_mode_def)
  with assms(1) g st show ?thesis by (simp add: run_def runEngine_def Let_def case_prod_beta split: option.split)
qed

definition dry_world :: "unit world" where
  "dry_world = \<lparr>w_fs = [(''/'', plain_dir), (''/c'', regular [])], w_ext = ()\<rparr>"

theorem dry_run_is_check_witness:
  "run demo_platform [''apply'', ''-config'', ''/c''] (dry_world, no_output) =
   run demo_platform [''check'', ''-config'', ''/c''] (dry_world, no_output)"
proof -
  have p: "parseCommonFlags ''node-configurator'' [''-config'', ''/c''] = Inr (defaultFlags\<lparr>cf_configPath := ''/c''\<rparr>)"
    by (simp add: parseCommonFlags_def flag_body_def split_flag_def set_string_flag_def)
  have "c_DryRun (fst (Load (pl_yaml demo_platform) (cf_configPath (defaultFlags\<lparr>cf_configPath := ''/c''\<rparr>))
      (fst (dry_world, no_output))))"
    by code_simp
  from dry_run_is_check[OF p this] show ?thesis .
qed

lemma planned_ifaces: "r \<in> set (planned_resources pl env cf f cfg w) \<Longrightarrow> resource_iface r"
  unfolding planned_resources_def by (rule engine_Build_members)

text \<open>The exit code in terms of the statuses that can occur: an apply run has no pending change, a check run no change made.\<close>

lemma ExitCode_planned:
  assumes "Run (planned_resources pl env cf f cfg w0) mode w = (results, w')"
  shows "ExitCode results mode =
    (if \<exists>res \<in> set results. r_Status res = StatusFailed then 1
     else if mode = ModeCheck \<and> (\<exists>res \<in> set results. r_Status res = StatusWouldChange) then 2 else 0)"
proof -
  have "\<forall>r \<in> set (planned_resources pl env cf f cfg w0). resource_iface r" using planned_ifaces by blast
  from Run_status_check[OF this, of w] assms
  have "mode = ModeCheck \<Longrightarrow> \<forall>res \<in> set results. r_Status res \<noteq> StatusChanged" by (auto simp: list_all_iff)
  then show ?thesis by (auto simp: ExitCode_def Let_def list_ex_iff Status_Changed_def)
qed

lemma Load_gathers:
  assumes "Load (pl_yaml pl) (cf_configPath cf) w = (cfg, None)"
  obtains f w1 where "gatherAllAndBuild pl New cf w = (((f, cfg), None), w1)"
proof -
  let ?g = "\<lparr>g_Env = Some New, g_CachePath = [], g_CacheTTL = c_CacheTTL cfg, g_Refresh = cf_refreshFacts cf\<rparr>"
  obtain f e w1 where g: "Gather (pl_outside pl) ?g w = ((f, e), w1)" by (metis prod.exhaust)
  from Gather_cases[OF g] have "e = None" by simp
  with g assms have "gatherAllAndBuild pl New cf w = (((f, cfg), None), w1)" by (simp add: gatherAllAndBuild_def)
  then show thesis by (rule that)
qed

text \<open>
  C25. The exit code of \<^verbatim>\<open>apply\<close> and \<^verbatim>\<open>check\<close>, for every outcome. Flags that do not parse give 2 and a
  configuration that cannot be read or parsed gives 1, both before anything is gathered or changed. Otherwise
  facts are gathered, which cannot fail. If the facts summary cannot be written the code is 1 and no resource
  has run. Else all resources have run, in the mode that is left after \<^verbatim>\<open>dryRun\<close>: a report that cannot be
  written gives 1, a failed resource gives 1, a pending change of a run that only checks gives 2, and
  anything else 0.
\<close>

theorem runEngine_exit_codes:
  "case parseCommonFlags ''node-configurator'' args of
     Inl printed \<Rightarrow> runEngine pl args mode (w, o0) = (2, w, fold (eprint pl) printed o0)
   | Inr cf \<Rightarrow>
       (case Load (pl_yaml pl) (cf_configPath cf) w of
          (cfg, Some err) \<Rightarrow>
            runEngine pl args mode (w, o0) =
              (1, w, eprint pl (''node-configurator: loading config: '' @ errText err @ [NL]) o0)
        | (cfg, None) \<Rightarrow>
            (\<exists>f w1. gatherAllAndBuild pl New cf w = (((f, cfg), None), w1) \<and>
               (let format = resolveLogFormat cf cfg; m = effective_mode cfg mode;
                    o1 = print_warnings pl (Warnings f) o0;
                    (e, o2) = (if format = ''json'' then (None, o1) else pl_stdout pl (facts_summary (pl_fmt_v pl) f) o1);
                    (results, w2) = Run (planned_resources pl New cf f cfg w1) m w1;
                    (code, w', _) = runEngine pl args mode (w, o0)
                in if e \<noteq> None then code = 1 \<and> w' = w1
                   else w' = w2 \<and>
                     code = (if fst (report_results pl format f results o2) \<noteq> None then 1
                             else if \<exists>res \<in> set results. r_Status res = StatusFailed then 1
                             else if m = ModeCheck \<and> (\<exists>res \<in> set results. r_Status res = StatusWouldChange) then 2
                             else 0))))"
proof (cases "parseCommonFlags ''node-configurator'' args")
  case (Inr cf)
  obtain cfg e where l: "Load (pl_yaml pl) (cf_configPath cf) w = (cfg, e)" by force
  show ?thesis
  proof (cases e)
    case None
    with l obtain f w1 where g: "gatherAllAndBuild pl New cf w = (((f, cfg), None), w1)"
      using Load_gathers by metis
    obtain results w2 where run: "Run (planned_resources pl New cf f cfg w1) (effective_mode cfg mode) w1 = (results, w2)"
      by force
    from Inr l None g run ExitCode_planned[OF run] show ?thesis
      by (auto simp: runEngine_def Let_def WriteFactsSummary_def split: prod.split option.split)
  qed (use Inr l in \<open>simp add: runEngine_def gatherAllAndBuild_def eprint_error_def\<close>)
qed (simp add: runEngine_def)

section \<open>What is printed\<close>

lemma record_warnings:
  "pl_stderr pl = record_err \<Longrightarrow>
   print_warnings pl ws o' = o'\<lparr>s_err := s_err o' @ map (\<lambda>w. ''node-configurator: warning: '' @ w @ [NL]) ws\<rparr>"
  by (induction ws arbitrary: o') (simp_all add: print_warnings_def eprint_def record_err_def)

lemma record_report:
  "WriteTextReport record_out results o' = (None, o'\<lparr>s_out := s_out o' @ map (\<lambda>r. Result_String r @ [NL]) results\<rparr>)"
  by (induction results arbitrary: o') (simp_all add: record_out_def)



end
