(* ===== verification/Spec2Isabelle.thy ===== *)
theory Spec2Isabelle
  imports Main_Cmd
begin

text \<open>
  Verification of node-configurator, a tool that tunes a Linux host for Kubernetes on EC2. The program
  gathers facts about the instance, computes a desired state from them and from an optional operator
  file, and brings a list of resources to that state: \<^verbatim>\<open>apply\<close> changes the host, \<^verbatim>\<open>check\<close> only reports.

  \<^bold>\<open>The model.\<close> The host is the value \<open>'x world\<close> of theory \<open>Filesystem\<close>: a file tree, in which a file is
  regular or a kernel file that reacts to writes and may refuse them, and a part of type \<open>'x\<close> for whatever
  commands act on outside the tree. An operation of the source takes the host and returns its result with
  the host it leaves. Errors are values of \<open>goerror\<close>; a function that returns \<^verbatim>\<open>(T, error)\<close> is a sum where the
  source does not use the value of a failed call, and a pair where it does. Go's \<^verbatim>\<open>int\<close> is an integer with the
  64-bit wrap-around written out by \<open>i64\<close>; limits are 64-bit words, CPU masks 32-bit words; \<^verbatim>\<open>float64\<close> is
  modelled with its rounding in \<open>Go_Float\<close>. Strings are lists of bytes. Loops are recursion over the lists
  they run through; the few loops over remaining input (trimming, durations, paths) are functions with a
  termination proof, so there is no fuel anywhere and every modelled function is total.

  \<^bold>\<open>Theories and sources\<close> (below \<^verbatim>\<open>src/\<close>):
  \<^item> \<open>Prelude\<close>, \<open>Go_Strings\<close>, \<open>Go_Float\<close>, \<open>Filesystem\<close>: what the source uses of the language and its standard
    library, with the laws of strings, numbers and file operations the components share.
  \<^item> \<open>Sysutil\<close>: \<^verbatim>\<open>internal/sysutil\<close>. Atomic replacement of files, backups, sysctl paths, host detection. The
    frames \<open>only_touches\<close> and \<open>only_writes\<close> say what an operation leaves alone.
  \<^item> \<open>Resource\<close>: \<^verbatim>\<open>internal/resource/resource.go\<close> and the contracts \<open>resource_iface\<close> (what a report relies on),
    \<open>settling_resource\<close> (after a successful \<^verbatim>\<open>Apply\<close>, \<^verbatim>\<open>Check\<close> is satisfied if a side condition has come about) and
    \<open>convergent_resource\<close> (the same without side condition). Every resource interprets the first; swap, which
    cannot stop a unit by masking it, the second; all others the third. \<open>runs\<close> describes a sequence of
    commands that all succeed.
  \<^item> \<open>Knobs\<close>: the contract \<open>knob_steps\<close> of the loops that write kernel files, interpreted by the four resources
    that have such a loop.
  \<^item> \<open>Sysctl_Resource\<close>, \<open>Kmod_Resource\<close>, \<open>DropIn_Resource\<close>, \<open>Mount_Resource\<close>, \<open>Swap_Resource\<close>, \<open>Governor_Resource\<close>,
    \<open>IoSched_Resource\<close>, \<open>Irq_Resource\<close>, \<open>Nic_Resource\<close>: the files of \<^verbatim>\<open>internal/resource\<close>, one theory per resource
    (\<open>DropIn_Resource\<close> also holds \<^verbatim>\<open>limits.go\<close> and \<^verbatim>\<open>cgroupv2.go\<close>).
  \<^item> \<open>Facts\<close>: \<^verbatim>\<open>internal/facts\<close>. \<open>Profile\<close>: \<^verbatim>\<open>internal/profile\<close>. \<open>Config\<close>: \<^verbatim>\<open>internal/config\<close>.
  \<^item> \<open>Engine\<close>: \<^verbatim>\<open>internal/engine\<close>, the list of resources, the run over it, exit codes and reports. \<open>Engine_Plan\<close>: the
    contracts \<open>tolerant_resource\<close> and \<open>convergent_plan\<close>, which say when resources may live side by side, and
    the convergence of whole runs. \<open>Regions\<close>: parts of the file tree and when an operation leaves them alone.
    \<open>Engine_Tasks\<close>, \<open>Engine_Converges\<close>: the engine's thirteen resources as tasks with the regions they look at
    and change, their tolerance of each other, and the convergence of the engine.
  \<^item> \<open>Main_Cmd\<close>: \<^verbatim>\<open>cmd/node-configurator/main.go\<close>.

  A struct is a record with the fields of the source under a short prefix, a method \<^verbatim>\<open>T.M\<close> the definition
  \<open>T_M\<close>, the conversion to the interface the lower-case \<open>t\<close>, and the body of a loop a definition of its own.

  \<^bold>\<open>Parameters.\<close> What the repository only calls is a parameter: the process behind \<^verbatim>\<open>ExecRunner\<close> (a \<open>runner\<close>, with
  what the source relies on of \<^verbatim>\<open>mount\<close>, \<^verbatim>\<open>swapoff\<close>, \<^verbatim>\<open>systemctl\<close> and \<^verbatim>\<open>ethtool\<close> as named predicates such as
  \<open>mount_mounts\<close>), the metadata service and the EC2 API, the clock, the JSON and YAML libraries, the output
  streams, the text of a \<^verbatim>\<open>float64\<close> under \<^verbatim>\<open>%v\<close> and the value Go leaves open when a \<^verbatim>\<open>float64\<close> out of range is
  converted. What the kernel does with a value written to one of its files is part of the file; the convergence
  theorems assume that an accepted value reads back (\<open>sysctl_echoes\<close>, \<open>honest\<close>).

  The convergence of whole runs also relies on \<open>tame_commands\<close>: \<^verbatim>\<open>swapoff -a\<close>, \<^verbatim>\<open>systemctl mask\<close>, the mount of the
  BPF filesystem and \<^verbatim>\<open>ethtool -G\<close> change, among the files the tool manages, only the table each is documented
  to change. Two commands do less than the tool wants of them, and nothing is assumed to the contrary:
  \<^item> \<^verbatim>\<open>systemctl mask\<close> does not stop a unit. A unit still listed is drift (\<open>SwapResource_converges_iff\<close>), so the
    convergence of runs has as a side condition that no swap unit is listed in the end.
  \<^item> \<^verbatim>\<open>modprobe\<close> need not list what it was asked for, since a module may be built in or go by another name
    (\<open>KernelModuleResource_converges_iff\<close>), and it may create files of any kind. The convergence of runs is
    about hosts on which the wanted modules are listed, so that \<^verbatim>\<open>modprobe\<close> is not run. This is needed: \<^verbatim>\<open>Build\<close> puts
    the sysctls before the modules, so that sysctls which a module brings are seen only by the next run, and
    after an \<^verbatim>\<open>apply\<close> that exits 0 the next \<^verbatim>\<open>check\<close> exits 2 (\<open>modules_after_sysctls\<close> of \<open>Engine_Converges\<close>).

  \<^bold>\<open>What the theorems show.\<close> For files: replacement is atomic, backups keep the original, sysctl keys cannot
  leave \<^verbatim>\<open>/proc/sys\<close>, edits of fstab are conservative. For each resource: what \<^verbatim>\<open>Check\<close> reports, that a
  successful \<^verbatim>\<open>Apply\<close> converges (of swap and modules: exactly when it does), and what it leaves alone. For the profile: bounds of every formula at machine
  precision and the precedence of its layers. For facts: gathering cannot fail, and the cache round trip. For runs:
  check runs only look, reports are complete, and, under the conditions above, after an apply run that exits 0
  every later run is idle, so the resources do not undo each other's work. For the command line: which commands
  can change the host, the exit code of every outcome, output, and the reading back of flags and lists; and, for two invocations
  in a row (at the end of this theory), that \<^verbatim>\<open>check\<close> exits 0 after an \<^verbatim>\<open>apply\<close> that did.

  \<^bold>\<open>Not modelled.\<close> Cancellation through contexts and timeouts; permissions of existing files beyond the
  error a call returns; concurrent processes; the text of JSON and YAML documents; the three messages of a
  duration that does not parse, which are one error here. At four edges the model differs from Go: the
  columns of a printed result are padded by bytes and not by runes; a number of CPUs so large that the number of
  mask words overflows gives an empty mask where Go panics; pattern characters in the root directory of an
  \<^verbatim>\<open>Env\<close> are taken literally; and an empty argument vector counts as no command where Go panics. Names in use
  are ASCII, the tool runs with the root \<^verbatim>\<open>/\<close>, and a process has its own name as first argument. Tests, packaging and documentation hold no code of
  the program.
\<close>

section \<open>One invocation after another\<close>

text \<open>The run inside an invocation that exits 0, and the exit code of one whose output works.\<close>

lemma runEngine_zero:
  assumes "parseCommonFlags ''node-configurator'' args = Inr cf" "gatherAllAndBuild pl New cf w = (((f, cfg), None), w1)"
    and "runEngine pl args mode (w, o0) = (0, w', o')"
  shows "\<exists>results. Run (planned_resources pl New cf f cfg w1) (effective_mode cfg mode) w1 = (results, w') \<and>
    ExitCode results (effective_mode cfg mode) = 0"
  using assms by (auto simp: runEngine_def Let_def case_prod_beta split: option.splits if_splits) (metis prod.collapse)+

definition output_works :: "('x, 'o) Platform \<Rightarrow> bool" where
  "output_works pl \<longleftrightarrow> (\<forall>s o'. fst (pl_stdout pl s o') = None) \<and> (\<forall>r. \<exists>doc. pl_json_Report pl r = Inr doc)"

lemma WriteTextReport_works: "\<forall>s o'. fst (put s o') = None \<Longrightarrow> fst (WriteTextReport put rs o') = None"
  by (induction rs arbitrary: o') (auto split: prod.split option.split, metis fst_conv option.distinct(1))

lemma report_works: "output_works pl \<Longrightarrow> fst (report_results pl format f results o') = None"
  using WriteTextReport_works[of "pl_stdout pl"]
  by (auto simp: output_works_def report_results_def WriteJSONReport_def split: sum.split) (metis Inl_Inr_False)

lemma runEngine_works:
  assumes "parseCommonFlags ''node-configurator'' args = Inr cf" "gatherAllAndBuild pl New cf w = (((f, cfg), None), w1)"
    and "Run (planned_resources pl New cf f cfg w1) (effective_mode cfg mode) w1 = (results, w')" "output_works pl"
  shows "\<exists>o'. runEngine pl args mode (w, o0) = (ExitCode results (effective_mode cfg mode), w', o')"
proof -
  have "fst (WriteFactsSummary (pl_fmt_v pl) (pl_stdout pl) f o1) = None" for o1
    using assms(4) by (simp add: output_works_def WriteFactsSummary_def)
  with assms report_works[OF assms(4)] show ?thesis
    by (auto simp: runEngine_def Let_def case_prod_beta)
qed

text \<open>The facts cache lies outside everything the resources look at.\<close>

abbreviation cache_comps :: "string list" where
  "cache_comps \<equiv> [''var'', ''lib'', ''node-configurator'', ''facts.json'']"

lemma cache_path: "Path New [DefaultCachePath] = Path New cache_comps"
  by code_simp

lemma cache_plain: "plain cache_comps"
  by code_simp

lemma cache_apart: "Y \<subseteq> managed_comps p \<Longrightarrow> apart {cache_comps} Y"
proof -
  have "\<not> prefix ys cache_comps" if "ys \<in> managed_comps p" for ys
    using that by (auto simp: managed_comps_def sysctl_comps_def fstab_comps_def service_comps_def)
  then show "Y \<subseteq> managed_comps p \<Longrightarrow> apart {cache_comps} Y" by (auto simp: apart_def)
qed

lemma cache_tolerated:
  assumes t: "tame_commands runner iface (managed p)" and w: "only_touches {Path New [DefaultCachePath]} w w'"
    and u: "u \<in> set (engine_tasks runner iface f p)"
  shows "task_keep u w w' \<and> task_rely runner iface u w w'"
proof -
  let ?c = "cgroup_task\<lparr>t_foot := {cache_comps}\<rparr>"
  have c: "t_foot ?c = {cache_comps}" "t_view ?c = {}" "t_keep ?c = {}" "\<not> t_units ?c" "\<not> t_ring ?c"
    by (simp_all add: cgroup_task_def)
  have v: "t_view u \<subseteq> managed_comps p" "t_keep u \<subseteq> managed_comps p"
    using engine_view[of p runner iface f] u by (auto simp: list_all_iff)
  have pl: "placed (managed p) ?c" using cache_plain by (simp add: placed_def c)
  have "moves runner iface (managed p) (t_foot ?c) (t_units ?c) (t_ring ?c) w w'"
    by (rule moves_files[OF t w]) (simp add: c cache_path)
  then have g: "task_guar runner iface (managed p) ?c w w'"
    by (rule guar_plain) (use cache_plain in \<open>auto simp: c managed_def managed_comps_def fstab_comps_def\<close>)
  have "before u ?c" "beside u ?c"
    using v[THEN cache_apart] by (simp_all add: before_def beside_def c)
  then show ?thesis
    using guar_rely[OF pl engine_placed[OF u] _ g] guar_keep[OF pl engine_placed[OF u] _ g] by blast
qed

section \<open>Properties\<close>

text \<open>
  C4. Apply, then check: let \<^verbatim>\<open>apply\<close> exit 0 without \<^verbatim>\<open>dryRun\<close>, on a host that the planned resources can rely on
  (with every wanted module listed already), with commands that do what they are documented to do, and leave
  no swap unit listed. If the next invocation of \<^verbatim>\<open>check\<close> with the same flags gathers facts and a
  configuration from which it plans the same resources, and its output can be written, it exits 0, and all it
  changes on the host is the facts cache.
\<close>

theorem apply_then_check:
  assumes "parseCommonFlags ''node-configurator'' args = Inr cf"
    and "gatherAllAndBuild pl New cf w = (((f, cfg), None), w1)" "\<not> c_DryRun cfg"
    and "p = profile_Build (pl_float pl) f (ToProfileOverrides cfg)"
    and "tame_commands (pl_runner pl) (PrimaryInterface New w1) (managed p)"
    and "\<forall>t \<in> set (engine_tasks (pl_runner pl) (PrimaryInterface New w1) f p).
      t_res t \<in> set (planned_resources pl New cf f cfg w1) \<longrightarrow> t_ok t w1"
    and "run pl (''apply'' # args) (w, o0) = (0, w', o1)"
    and "gatherAllAndBuild pl New cf w' = (((f', cfg'), None), w2)"
    and "planned_resources pl New cf f' cfg' w2 = planned_resources pl New cf f cfg w1" "output_works pl"
    and "''swap'' \<in> res_Name ` set (planned_resources pl New cf f cfg w1) \<longrightarrow>
      fst (activeSwapUnits \<lparr>sw_Env = New, sw_Runner = pl_runner pl\<rparr> w') = []"
  shows "\<exists>o3. run pl (''check'' # args) (w', o2) = (0, w2, o3) \<and> only_touches {Path New [DefaultCachePath]} w' w2"
proof -
  let ?tasks = "engine_tasks (pl_runner pl) (PrimaryInterface New w1) f p"
  have m: "effective_mode cfg ModeApply = ModeApply" "effective_mode cfg' ModeCheck = ModeCheck"
    using assms(3) by (simp_all add: effective_mode_def)
  obtain us where us: "planned_resources pl New cf f cfg w1 = map t_res us" "subseq us ?tasks"
    unfolding planned_resources_def assms(4) using engine_selection[OF profile_Build_fields(5)] by blast
  have sub: "u \<in> set ?tasks" "t_res u \<in> set (planned_resources pl New cf f cfg w1)" if "u \<in> set us" for u
    using us that by (auto dest: list_emb_set)
  have ok: "\<forall>u \<in> set us. t_ok u w1" using assms(6) sub by simp
  have side: "\<forall>u \<in> set us. t_side u w'" using sub engine_sides assms(11) by (metis image_eqI)
  from assms(7) have "runEngine pl args ModeApply (w, o0) = (0, w', o1)" by (simp add: run_def)
  from runEngine_zero[OF assms(1,2) this] obtain results
    where r: "Run (map t_res us) ModeApply w1 = (results, w')" "ExitCode results ModeApply = 0"
    unfolding m us(1) by blast
  note plan = engine_plan[OF assms(5) us(2)]
  note settled = convergent_plan.plan_settles[OF plan subseq_order.order_refl ok r]
  note touch = gatherAllAndBuild_touches[OF assms(8)]
  have "\<forall>u \<in> set us. task_keep u w' w2 \<and> task_rely (pl_runner pl) (PrimaryInterface New w1) u w' w2"
    using cache_tolerated[OF assms(5) touch] sub by blast
  with convergent_plan.plan_idle[OF plan subseq_order.order_refl, of w' w2 ModeCheck] settled side
  obtain reports where q: "Run (map t_res us) ModeCheck w2 = (reports, w2)" "ExitCode reports ModeCheck = 0" by blast
  have "Run (planned_resources pl New cf f' cfg' w2) (effective_mode cfg' ModeCheck) w2 = (reports, w2)"
    unfolding m assms(9) us(1) by (rule q(1))
  from runEngine_works[OF assms(1,8) this assms(10)] q(2) m(2) touch show ?thesis by (simp add: run_def)
qed

definition cli_platform :: "(bool, streams) Platform" where
  "cli_platform =
     \<lparr>pl_version = ''dev'', pl_outside = demo_outside, pl_yaml = (\<lambda>_ c. (c\<lparr>c_LimitsNoFile := 7\<rparr>, None)), pl_runner = host_runner,
      pl_float = (\<lambda>_. 0), pl_fmt_v = (\<lambda>_. ''0''), pl_json_Report = (\<lambda>_. Inr ''{}''), pl_json_Facts = (\<lambda>_. Inr ''{}''),
      pl_json_Profile = (\<lambda>_. Inr ''{}''), pl_stdout = record_out, pl_stderr = record_err\<rparr>"

definition cli_args :: "string list" where
  "cli_args = [''-config'', ''/c'', ''-log-format'', ''json'', ''-only'', ''swap,cgroup-v2,bpffs-mount,limits-conf'']"

definition cli_flags :: commonFlags where
  "cli_flags = \<lparr>cf_configPath = ''/c'', cf_logFormat = ''json'', cf_refreshFacts = False,
     cf_only = ''swap,cgroup-v2,bpffs-mount,limits-conf'', cf_skip = []\<rparr>"

definition cli_world :: "bool world" where
  "cli_world = host_world\<lparr>w_fs := (''/c'', regular []) # w_fs host_world\<rparr>"

lemma cli_parse: "parseCommonFlags ''node-configurator'' cli_args = Inr cli_flags"
  by code_simp

definition cli_config :: Config where
  "cli_config = zeroConfig\<lparr>c_LimitsNoFile := 7\<rparr>"

definition cli_plan :: "bool world Resource list" where
  "cli_plan = [swapResource \<lparr>sw_Env = New, sw_Runner = host_runner\<rparr>, cgroupV2Resource \<lparr>cg_Env = New\<rparr>,
     mountResource (mount_of New host_runner bpffsMount), dropInFileResource (limits_file New host_profile)]"

text \<open>Whatever the facts, these flags plan the same four resources; without IMDS, gathering does not touch the host.\<close>

lemma cli_planned: "planned_resources cli_platform New cli_flags f cli_config w = cli_plan"
proof -
  let ?p = "profile_Build (pl_float cli_platform) f (ToProfileOverrides cli_config)"
  have "splitCSV (cf_only cli_flags) = [''swap'', ''cgroup-v2'', ''bpffs-mount'', ''limits-conf'']"
    "splitCSV (cf_skip cli_flags) = []" "c_ResourcesDisable cli_config = []"
    by code_simp+
  moreover have "pl_runner cli_platform = host_runner" by (simp add: cli_platform_def)
  moreover have "limits_file New ?p = limits_file New host_profile"
    by (simp add: limits_file_def profile_Build_fields ToProfileOverrides_def cli_config_def host_profile_def)
  moreover have "di_ResourceName (limits_file New host_profile) = ''limits-conf''" by (simp add: limits_file_def)
  moreover have "p_Mounts ?p = [bpffsMount]" "0 < l_NoFile (p_Limits ?p)"
    by (simp_all add: profile_Build_fields ToProfileOverrides_def cli_config_def)
  ultimately show ?thesis
    by (simp add: planned_resources_def engine_Build_def filterResources_def Let_def all_resources_def fixed_resources_def
        limit_resources_def irq_resources_def nic_resources_def governor_resources_def scheduler_resources_def
        resource_defs cli_plan_def mount_of_def bpffsMount_def service_file_def systemdLimitServices_def)
qed

lemma cli_gather:
  assumes "os_ReadFile ''/c'' w = Inr []"
  shows "\<exists>f. gatherAllAndBuild cli_platform New cli_flags w = (((f, cli_config), None), w)"
  using assms
  by (simp add: gatherAllAndBuild_def Load_def cli_platform_def cli_flags_def cli_config_def Gather_def
      gatherIdentity_def fetchIdentityDocument_def demo_outside_def Let_def)

theorem apply_then_check_witness:
  "\<exists>w' o1 w2 o3. w' \<noteq> cli_world \<and> run cli_platform (''apply'' # cli_args) (cli_world, no_output) = (0, w', o1) \<and>
     run cli_platform (''check'' # cli_args) (w', o1) = (0, w2, o3)"
proof -
  let ?a = "Run cli_plan ModeApply cli_world"
  have ev: "ExitCode (fst ?a) ModeApply = 0" "fst (activeSwapUnits \<lparr>sw_Env = New, sw_Runner = pl_runner cli_platform\<rparr> (snd ?a)) = []"
    "os_ReadFile ''/c'' (snd ?a) = Inr []" "os_ReadFile ''/c'' cli_world = Inr []"
    "w_ext (snd ?a) \<noteq> w_ext cli_world" "map res_Name cli_plan = [''swap'', ''cgroup-v2'', ''bpffs-mount'', ''limits-conf'']"
    "\<not> c_DryRun cli_config"
    by code_simp+
  obtain f f' where g: "gatherAllAndBuild cli_platform New cli_flags cli_world = (((f, cli_config), None), cli_world)"
    "gatherAllAndBuild cli_platform New cli_flags (snd ?a) = (((f', cli_config), None), snd ?a)"
    using cli_gather ev(3,4) by blast
  have out: "output_works cli_platform" by (simp add: output_works_def cli_platform_def record_out_def)
  have m: "effective_mode cli_config ModeApply = ModeApply" using ev(7) by (simp add: effective_mode_def)
  have "Run (planned_resources cli_platform New cli_flags f cli_config cli_world) (effective_mode cli_config ModeApply)
      cli_world = (fst ?a, snd ?a)" by (simp add: cli_planned m)
  from runEngine_works[OF cli_parse g(1) this out] ev(1)
  obtain o1 where ap: "run cli_platform (''apply'' # cli_args) (cli_world, no_output) = (0, snd ?a, o1)"
    by (auto simp: run_def m)
  have rn: "pl_runner cli_platform = host_runner" by (simp add: cli_platform_def)
  have names: "res_Name r \<in> {''swap'', ''cgroup-v2'', ''bpffs-mount'', ''limits-conf''}" if "r \<in> set cli_plan" for r
  proof -
    from that have "res_Name r \<in> set (map res_Name cli_plan)" by simp
    then show ?thesis unfolding ev(6) by simp
  qed
  have ok: "\<forall>t \<in> set (engine_tasks (pl_runner cli_platform) (PrimaryInterface New cli_world) f
        (profile_Build (pl_float cli_platform) f (ToProfileOverrides cli_config))).
      t_res t \<in> set (planned_resources cli_platform New cli_flags f cli_config cli_world) \<longrightarrow> t_ok t cli_world"
    unfolding cli_planned rn using names host_reliable[unfolded list_all_iff] by blast
  have same: "planned_resources cli_platform New cli_flags f' cli_config (snd ?a) =
      planned_resources cli_platform New cli_flags f cli_config cli_world" by (simp only: cli_planned)
  from apply_then_check[OF cli_parse g(1) ev(7) refl host.tame[folded rn] ok ap g(2) same out impI[OF ev(2)]]
  obtain o3 where "run cli_platform (''check'' # cli_args) (snd ?a, o1) = (0, snd ?a, o3)" by blast
  with ap ev(5) show ?thesis by metis
qed

end
